theory Spec2Isabelle
  imports Main "HOL-Library.Word"
begin

unbundle bit_operations_syntax

section \<open>Block-layer integrity payloads (block/bio-integrity.c)\<close>

text \<open>
  A shallow embedding of \<^verbatim>\<open>block/bio-integrity.c\<close>. Every C function of the file
  is a HOL function of the same name. A function that mutates a bio or kernel memory takes
  the bio and the kernel state and returns them updated. A function that can dereference
  a null pointer or leave an array returns an \<open>option\<close>, \<open>None\<close> being the crash of the kernel.
  Calls into collaborators whose effect is outside the file (freeing memory, unpinning
  pages, the checksum provider, the work queue, completion of the bio) are appended to a
  trace, in program order.
\<close>

subsection \<open>Machine types and constants\<close>

type_synonym u8 = "8 word"
type_synonym u16 = "16 word"
type_synonym u32 = "32 word"
type_synonym u64 = "64 word"

text \<open>A \<^verbatim>\<open>struct page *\<close> is the index of the page in the memory map, so that
  \<^verbatim>\<open>page + 1\<close> is the next page frame; byte addresses are natural numbers and
  the page of address \<open>a\<close> is \<open>a div PAGE_SIZE\<close>.\<close>

type_synonym page = nat
type_synonym addr = nat

text \<open>Modelled from the spec: the constants below are declared in kernel headers
  (\<^verbatim>\<open>asm/page.h\<close>, \<^verbatim>\<open>linux/blk_types.h\<close>, \<^verbatim>\<open>linux/bio.h\<close>,
  \<^verbatim>\<open>linux/uio.h\<close>, \<^verbatim>\<open>linux/blkdev.h\<close>, \<^verbatim>\<open>errno.h\<close>), which are not
  part of the sources; they carry the values of a 64-bit build with 4 KiB pages.\<close>

definition PAGE_SIZE :: nat where "PAGE_SIZE = 4096"
definition SECTOR_SHIFT :: nat where "SECTOR_SHIFT = 9"
definition BIO_MAX_VECS :: nat where "BIO_MAX_VECS = 256"
definition BIO_INLINE_VECS :: nat where "BIO_INLINE_VECS = 4"
definition UIO_FASTIOV :: nat where "UIO_FASTIOV = 8"

definition EFAULT :: int where "EFAULT = 14"
definition ENOMEM :: int where "ENOMEM = 12"
definition EINVAL :: int where "EINVAL = 22"
definition E2BIG :: int where "E2BIG = 7"
definition EOPNOTSUPP :: int where "EOPNOTSUPP = 95"

definition REQ_OP_MASK :: u32 where "REQ_OP_MASK = 255"
definition REQ_OP_READ :: u32 where "REQ_OP_READ = 0"
definition REQ_OP_WRITE :: u32 where "REQ_OP_WRITE = 1"
definition REQ_INTEGRITY :: u32 where "REQ_INTEGRITY = push_bit 16 1"

definition BLK_STS_OK :: u8 where "BLK_STS_OK = 0"
definition BLK_STS_RESOURCE :: u8 where "BLK_STS_RESOURCE = 9"

definition BIP_BLOCK_INTEGRITY :: u16 where "BIP_BLOCK_INTEGRITY = push_bit 0 1"
definition BIP_IP_CHECKSUM :: u16 where "BIP_IP_CHECKSUM = push_bit 4 1"
definition BIP_COPY_USER :: u16 where "BIP_COPY_USER = push_bit 5 1"

definition BLK_INTEGRITY_NOVERIFY :: u8 where "BLK_INTEGRITY_NOVERIFY = push_bit 0 1"
definition BLK_INTEGRITY_NOGENERATE :: u8 where "BLK_INTEGRITY_NOGENERATE = push_bit 1 1"

datatype blk_integrity_checksum =
  BLK_INTEGRITY_CSUM_NONE | BLK_INTEGRITY_CSUM_IP | BLK_INTEGRITY_CSUM_CRC
  | BLK_INTEGRITY_CSUM_CRC64

datatype data_dir = READ | WRITE

subsection \<open>Structures\<close>

text \<open>Modelled from the spec: the structures are declared in
  \<^verbatim>\<open>linux/bvec.h\<close>, \<^verbatim>\<open>linux/bio.h\<close>, \<^verbatim>\<open>linux/blk_types.h\<close> and
  \<^verbatim>\<open>linux/blkdev.h\<close>, which are not part of the sources; each record keeps the
  fields the file reads or writes, with their C widths. The spec calls them ScatterSegment,
  progress cursor, IntegrityPayload, DeviceIntegrityProfile and request.\<close>

record bio_vec =
  bv_page :: page
  bv_len :: u32
  bv_offset :: u32

record bvec_iter =
  bi_sector :: u64
  bi_size :: u32
  bi_idx :: u32
  bi_bvec_done :: u32

text \<open>\<open>bip_vec\<close> is a pointer: the base address of an array of \<open>bio_vec\<close> in the kernel
  state, \<open>None\<close> for \<^verbatim>\<open>NULL\<close>. The embedded array \<^verbatim>\<open>bip_inline_vecs\<close> of a
  payload is the array at the payload's own address.\<close>

record bio_integrity_payload =
  bip_iter :: bvec_iter
  bip_vcnt :: u16
  bip_max_vcnt :: u16
  bip_flags :: u16
  bio_iter :: bvec_iter
  bip_vec :: "addr option"

record blk_integrity =
  flags :: u8
  csum_type :: blk_integrity_checksum
  tuple_size :: u8
  interval_exp :: u8

record queue_limits =
  max_hw_sectors :: u32
  max_integrity_segments :: u16
  dma_alignment :: u32
  dma_pad_mask :: u32
  integrity :: blk_integrity

record request_queue =
  limits :: queue_limits

record block_device =
  bd_queue :: request_queue

record bio_set =
  bio_integrity_pool_initialized :: bool

record bio =
  bi_bdev :: block_device
  bi_opf :: u32
  bi_status :: u8
  bi_iter :: bvec_iter
  bi_integrity :: "bio_integrity_payload option"
  bi_pool :: "bio_set option"
  bi_crypt_context :: bool

text \<open>What the file asks of its collaborators, in program order.\<close>

datatype event =
  Kfree addr
  | Free_bip bool
  | Bvec_free addr u16
  | Unpin_user_page page
  | Set_page_dirty_lock page
  | Blk_integrity_generate
  | Blk_integrity_verify
  | Bio_endio u8
  | Queue_work
  | Printk

text \<open>The kernel state: the \<open>bio_vec\<close> arrays by base address (\<open>slots\<close> is the number
  of elements allocated at an address), the bytes of memory, and the trace.\<close>

record kstate =
  bvecs :: "addr \<Rightarrow> nat \<Rightarrow> bio_vec"
  slots :: "addr \<Rightarrow> nat"
  mem :: "addr \<Rightarrow> u8"
  trace :: "event list"

text \<open>The outcome of the allocator calls of one operation: the address each call
  returns, \<open>None\<close> when it fails. \<open>bvec_mem\<close> is \<^verbatim>\<open>bvec_alloc\<close>, which also
  stores the size of the array it hands out through its \<^verbatim>\<open>nr_vecs\<close> pointer.\<close>

record allocs =
  bip_mem :: "addr option"
  bvec_mem :: "(addr \<times> u16) option"
  buf_mem :: "addr option"

text \<open>Collaborators that decide or compute something for the file: the hardware merge
  check and the gap check of the queue, the folio of a page, the checksum provider.\<close>

record kernel =
  hw_mergeable :: "request_queue \<Rightarrow> bio_vec \<Rightarrow> page \<Rightarrow> u32 \<Rightarrow> u32 \<Rightarrow> bool"
  gap_to_prev :: "queue_limits \<Rightarrow> bio_vec \<Rightarrow> u32 \<Rightarrow> bool"
  page_folio :: "page \<Rightarrow> nat"
  PageCompound :: "page \<Rightarrow> bool"
  generate :: "bio \<Rightarrow> (addr \<Rightarrow> u8) \<Rightarrow> (addr \<Rightarrow> u8)"
  verify :: "bio \<Rightarrow> (addr \<Rightarrow> u8) \<Rightarrow> u8"

subsection \<open>Inline helpers of the block layer\<close>

text \<open>Modelled from the spec: \<^verbatim>\<open>bio_integrity\<close>, \<^verbatim>\<open>bio_op\<close>,
  \<^verbatim>\<open>bio_data_dir\<close>, \<^verbatim>\<open>bio_sectors\<close>, \<^verbatim>\<open>bio_has_crypt_ctx\<close>,
  \<^verbatim>\<open>bdev_get_queue\<close>, the queue limit accessors, \<^verbatim>\<open>blk_get_integrity\<close>,
  \<^verbatim>\<open>bio_integrity_intervals\<close>, \<^verbatim>\<open>bio_integrity_bytes\<close>, \<^verbatim>\<open>bvec_virt\<close>,
  \<^verbatim>\<open>virt_to_page\<close> and \<^verbatim>\<open>offset_in_page\<close> are inline functions and macros of
  headers that are not part of the sources. A payload is attached when the request carries
  the integrity flag; a profile is bound when its interval (tuple) size is not zero; the
  payload of \<open>n\<close> sectors is the interval count of \<open>n\<close> times the interval size.\<close>

definition bio_integrity :: "bio \<Rightarrow> bio_integrity_payload option" where
  "bio_integrity b = (if bi_opf b AND REQ_INTEGRITY \<noteq> 0 then bi_integrity b else None)"

definition bio_op :: "bio \<Rightarrow> u32" where
  "bio_op b = bi_opf b AND REQ_OP_MASK"

definition bio_data_dir :: "bio \<Rightarrow> data_dir" where
  "bio_data_dir b = (if bio_op b AND 1 \<noteq> 0 then WRITE else READ)"

definition bio_sectors :: "bio \<Rightarrow> u32" where
  "bio_sectors b = drop_bit SECTOR_SHIFT (bi_size (bi_iter b))"

definition bio_has_crypt_ctx :: "bio \<Rightarrow> bool" where
  "bio_has_crypt_ctx b = bi_crypt_context b"

definition bdev_get_queue :: "block_device \<Rightarrow> request_queue" where
  "bdev_get_queue d = bd_queue d"

definition queue_max_integrity_segments :: "request_queue \<Rightarrow> u16" where
  "queue_max_integrity_segments q = max_integrity_segments (limits q)"

definition queue_max_hw_sectors :: "request_queue \<Rightarrow> u32" where
  "queue_max_hw_sectors q = max_hw_sectors (limits q)"

definition blk_lim_dma_alignment_and_pad :: "queue_limits \<Rightarrow> u32" where
  "blk_lim_dma_alignment_and_pad lim = dma_alignment lim OR dma_pad_mask lim"

definition blk_get_integrity :: "block_device \<Rightarrow> blk_integrity option" where
  "blk_get_integrity d =
     (if tuple_size (integrity (limits (bd_queue d))) = 0 then None
      else Some (integrity (limits (bd_queue d))))"

definition bio_integrity_intervals :: "blk_integrity \<Rightarrow> u32 \<Rightarrow> u32" where
  "bio_integrity_intervals bi sectors = drop_bit (unat (interval_exp bi) - 9) sectors"

definition bio_integrity_bytes :: "blk_integrity \<Rightarrow> u32 \<Rightarrow> u32" where
  "bio_integrity_bytes bi sectors = bio_integrity_intervals bi sectors * ucast (tuple_size bi)"

definition bvec_virt :: "bio_vec \<Rightarrow> addr" where
  "bvec_virt bv = bv_page bv * PAGE_SIZE + unat (bv_offset bv)"

definition virt_to_page :: "addr \<Rightarrow> page" where
  "virt_to_page a = a div PAGE_SIZE"

definition offset_in_page :: "addr \<Rightarrow> nat" where
  "offset_in_page a = a mod PAGE_SIZE"

definition has_integrity_pool :: "bio \<Rightarrow> bool" where
  \<comment> \<open>\<^verbatim>\<open>bs && mempool_initialized(&bs->bio_integrity_pool)\<close>\<close>
  "has_integrity_pool b =
     (case bi_pool b of None \<Rightarrow> False | Some bs \<Rightarrow> bio_integrity_pool_initialized bs)"

definition log :: "event list \<Rightarrow> kstate \<Rightarrow> kstate" where
  "log es s = s\<lparr>trace := trace s @ es\<rparr>"

text \<open>Reading and writing element \<open>i\<close> of the array a \<open>bip_vec\<close> pointer refers to;
  \<open>None\<close> when the pointer is null or the element is outside the allocation.\<close>

definition bvec_get :: "kstate \<Rightarrow> addr option \<Rightarrow> nat \<Rightarrow> bio_vec option" where
  "bvec_get s p i =
     (case p of None \<Rightarrow> None
      | Some a \<Rightarrow> if i < slots s a then Some (bvecs s a i) else None)"

definition bvec_put :: "kstate \<Rightarrow> addr option \<Rightarrow> nat \<Rightarrow> bio_vec \<Rightarrow> kstate option" where
  "bvec_put s p i bv =
     (case p of None \<Rightarrow> None
      | Some a \<Rightarrow>
          if i < slots s a then Some (s\<lparr>bvecs := (bvecs s)(a := (bvecs s a)(i := bv))\<rparr>)
          else None)"

subsection \<open>bio\_integrity\_free and bio\_integrity\_alloc\<close>

definition bio_integrity_free :: "bio \<Rightarrow> kstate \<Rightarrow> (bio \<times> kstate) option" where
  "bio_integrity_free b s =
     (if has_integrity_pool b then
        (case bio_integrity b of
           None \<Rightarrow> None
         | Some bip \<Rightarrow>
             Some (b\<lparr>bi_integrity := None, bi_opf := bi_opf b AND NOT REQ_INTEGRITY\<rparr>,
                   log ((case bip_vec bip of None \<Rightarrow> []
                         | Some v \<Rightarrow> [Bvec_free v (bip_max_vcnt bip)]) @ [Free_bip True]) s))
      else
        Some (b\<lparr>bi_integrity := None, bi_opf := bi_opf b AND NOT REQ_INTEGRITY\<rparr>,
              log (case bio_integrity b of None \<Rightarrow> [] | Some bip \<Rightarrow> [Free_bip False]) s))"

definition zero_iter :: bvec_iter where
  "zero_iter = \<lparr>bi_sector = 0, bi_size = 0, bi_idx = 0, bi_bvec_done = 0\<rparr>"

definition zero_bip :: bio_integrity_payload where
  \<comment> \<open>\<^verbatim>\<open>memset(bip, 0, sizeof(*bip))\<close>\<close>
  "zero_bip = \<lparr>bip_iter = zero_iter, bip_vcnt = 0, bip_max_vcnt = 0, bip_flags = 0,
               bio_iter = zero_iter, bip_vec = None\<rparr>"

definition attach :: "bio \<Rightarrow> bio_integrity_payload \<Rightarrow> bio" where
  \<comment> \<open>\<^verbatim>\<open>bio->bi_integrity = bip; bio->bi_opf |= REQ_INTEGRITY;\<close>\<close>
  "attach b bip = b\<lparr>bi_integrity := Some bip, bi_opf := bi_opf b OR REQ_INTEGRITY\<rparr>"

text \<open>The result is \<open>Inl\<close> of the (negative) error of \<^verbatim>\<open>ERR_PTR\<close>, or \<open>Inr\<close> of
  the payload, which is then the one attached to the bio.\<close>

definition bio_integrity_alloc ::
  "allocs \<Rightarrow> bio \<Rightarrow> u32 \<Rightarrow> kstate \<Rightarrow> (int + bio_integrity_payload) \<times> bio \<times> kstate" where
  "bio_integrity_alloc al b nr_vecs s =
     (if bio_has_crypt_ctx b then (Inl (- EOPNOTSUPP), b, s)
      else
        let inline_vecs = (if \<not> has_integrity_pool b then nr_vecs
                           else of_nat BIO_INLINE_VECS)
        in case bip_mem al of
             None \<Rightarrow> (Inl (- ENOMEM), b, s)
           | Some a \<Rightarrow>
               if nr_vecs > inline_vecs then
                 (case bvec_mem al of
                    None \<Rightarrow> (Inl (- ENOMEM), b, log [Free_bip (has_integrity_pool b)] s)
                  | Some (v, n) \<Rightarrow>
                      let bip = zero_bip\<lparr>bip_max_vcnt := n, bip_vec := Some v\<rparr>
                      in (Inr bip, attach b bip, s\<lparr>slots := (slots s)(v := unat n)\<rparr>))
               else if nr_vecs \<noteq> 0 then
                 let bip = zero_bip\<lparr>bip_max_vcnt := ucast nr_vecs, bip_vec := Some a\<rparr>
                 in (Inr bip, attach b bip, s\<lparr>slots := (slots s)(a := unat inline_vecs)\<rparr>)
               else
                 let bip = zero_bip\<lparr>bip_max_vcnt := ucast nr_vecs\<rparr>
                 in (Inr bip, attach b bip, s))"

subsection \<open>bio\_integrity\_add\_page\<close>

text \<open>Modelled from the spec: \<^verbatim>\<open>bvec_try_merge_hw_page\<close> (block/bio.c) and
  \<^verbatim>\<open>bvec_set_page\<close> (linux/bvec.h) are not part of the sources. The first decides
  whether the new region is contiguous with the segment and the merged length fits the
  device (the collaborator \<open>hw_mergeable\<close>) and, when it does, extends the segment by
  \<open>len\<close>; the result is the extended segment, \<open>None\<close> for \<^verbatim>\<open>false\<close>.\<close>

definition bvec_try_merge_hw_page ::
  "kernel \<Rightarrow> request_queue \<Rightarrow> bio_vec \<Rightarrow> page \<Rightarrow> u32 \<Rightarrow> u32 \<Rightarrow> bio_vec option" where
  "bvec_try_merge_hw_page k q bv pg len offset =
     (if hw_mergeable k q bv pg len offset then Some (bv\<lparr>bv_len := bv_len bv + len\<rparr>)
      else None)"

definition bvec_set_page :: "page \<Rightarrow> u32 \<Rightarrow> u32 \<Rightarrow> bio_vec" where
  "bvec_set_page pg len offset = \<lparr>bv_page = pg, bv_len = len, bv_offset = offset\<rparr>"

definition add_size :: "u32 \<Rightarrow> bio_integrity_payload \<Rightarrow> bio_integrity_payload" where
  \<comment> \<open>\<^verbatim>\<open>bip->bip_iter.bi_size += len\<close>\<close>
  "add_size len bip = bip\<lparr>bip_iter := (bip_iter bip)\<lparr>bi_size := bi_size (bip_iter bip) + len\<rparr>\<rparr>"

definition append_page ::
  "bio \<Rightarrow> bio_integrity_payload \<Rightarrow> page \<Rightarrow> u32 \<Rightarrow> u32 \<Rightarrow> kstate \<Rightarrow> (u32 \<times> bio \<times> kstate) option" where
  \<comment> \<open>the last four statements of \<^verbatim>\<open>bio_integrity_add_page\<close>\<close>
  "append_page b bip pg len offset s =
     (case bvec_put s (bip_vec bip) (unat (bip_vcnt bip)) (bvec_set_page pg len offset) of
        None \<Rightarrow> None
      | Some s' \<Rightarrow>
          Some (len,
                b\<lparr>bi_integrity := Some (add_size len (bip\<lparr>bip_vcnt := bip_vcnt bip + 1\<rparr>))\<rparr>,
                s'))"

text \<open>The C function returns \<^verbatim>\<open>int\<close>; both callers compare the result with the
  unsigned \<^verbatim>\<open>len\<close>, so the result is kept as the 32-bit value.\<close>

definition bio_integrity_add_page ::
  "kernel \<Rightarrow> bio \<Rightarrow> page \<Rightarrow> u32 \<Rightarrow> u32 \<Rightarrow> kstate \<Rightarrow> (u32 \<times> bio \<times> kstate) option" where
  "bio_integrity_add_page k b pg len offset s =
     (let q = bdev_get_queue (bi_bdev b) in
      case bio_integrity b of
        None \<Rightarrow> None
      | Some bip \<Rightarrow>
          if bip_vcnt bip > 0 then
            (case bvec_get s (bip_vec bip) (unat (bip_vcnt bip) - 1) of
               None \<Rightarrow> None
             | Some bv \<Rightarrow>
                 (case bvec_try_merge_hw_page k q bv pg len offset of
                    Some bv' \<Rightarrow>
                      (case bvec_put s (bip_vec bip) (unat (bip_vcnt bip) - 1) bv' of
                         None \<Rightarrow> None
                       | Some s' \<Rightarrow>
                           Some (len, b\<lparr>bi_integrity := Some (add_size len bip)\<rparr>, s'))
                  | None \<Rightarrow>
                      if bip_vcnt bip \<ge> min (bip_max_vcnt bip) (queue_max_integrity_segments q)
                      then Some (0, b, s)
                      else if gap_to_prev k (limits q) bv offset then Some (0, b, s)
                      else append_page b bip pg len offset s))
          else append_page b bip pg len offset s)"

subsection \<open>bio\_integrity\_prep\<close>

definition zero_fill :: "(addr \<Rightarrow> u8) \<Rightarrow> addr \<Rightarrow> nat \<Rightarrow> (addr \<Rightarrow> u8)" where
  "zero_fill m a n = (\<lambda>x. if a \<le> x \<and> x < a + n then 0 else m x)"

definition err_end_io :: "bio \<Rightarrow> kstate \<Rightarrow> bool \<times> bio \<times> kstate" where
  \<comment> \<open>the label \<^verbatim>\<open>err_end_io\<close>\<close>
  "err_end_io b s =
     (False, b\<lparr>bi_status := BLK_STS_RESOURCE\<rparr>, log [Bio_endio BLK_STS_RESOURCE] s)"

definition bip_set_seed :: "bio_integrity_payload \<Rightarrow> u64 \<Rightarrow> bio_integrity_payload" where
  "bip_set_seed bip seed = bip\<lparr>bip_iter := (bip_iter bip)\<lparr>bi_sector := seed\<rparr>\<rparr>"

text \<open>The part of \<open>bio_integrity_prep\<close> after the switch: \<open>zero\<close> says that
  \<^verbatim>\<open>__GFP_ZERO\<close> was added to the allocation flags.\<close>

definition prep_attach ::
  "kernel \<Rightarrow> allocs \<Rightarrow> blk_integrity \<Rightarrow> bool \<Rightarrow> bio \<Rightarrow> kstate \<Rightarrow> (bool \<times> bio \<times> kstate) option" where
  "prep_attach k al bi zero b s =
     (let len = bio_integrity_bytes bi (bio_sectors b) in
      case buf_mem al of
        None \<Rightarrow> Some (err_end_io b s)
      | Some buf \<Rightarrow>
          let s0 = (if zero then s\<lparr>mem := zero_fill (mem s) buf (unat len)\<rparr> else s) in
          (case bio_integrity_alloc al b 1 s0 of
             (Inl e, b1, s1) \<Rightarrow> Some (err_end_io b1 (log [Kfree buf] s1))
           | (Inr bip, b1, s1) \<Rightarrow>
               let bip1 = bip\<lparr>bip_flags := bip_flags bip OR BIP_BLOCK_INTEGRITY\<rparr>;
                   bip2 = bip_set_seed bip1 (bi_sector (bi_iter b1));
                   bip3 = (if csum_type bi = BLK_INTEGRITY_CSUM_IP
                           then bip2\<lparr>bip_flags := bip_flags bip2 OR BIP_IP_CHECKSUM\<rparr>
                           else bip2);
                   b2 = b1\<lparr>bi_integrity := Some bip3\<rparr>
               in (case bio_integrity_add_page k b2 (virt_to_page buf) len
                          (of_nat (offset_in_page buf)) s1 of
                     None \<Rightarrow> None
                   | Some (r, b3, s3) \<Rightarrow>
                       if r < len then Some (err_end_io b3 (log [Printk] s3))
                       else if bio_data_dir b3 = WRITE then
                         Some (True, b3,
                               log [Blk_integrity_generate] (s3\<lparr>mem := generate k b3 (mem s3)\<rparr>))
                       else
                         Some (True,
                               b3\<lparr>bi_integrity :=
                                    map_option (\<lambda>p. p\<lparr>bio_iter := bi_iter b3\<rparr>) (bi_integrity b3)\<rparr>,
                               s3))))"

definition bio_integrity_prep ::
  "kernel \<Rightarrow> allocs \<Rightarrow> bio \<Rightarrow> kstate \<Rightarrow> (bool \<times> bio \<times> kstate) option" where
  "bio_integrity_prep k al b s =
     (case blk_get_integrity (bi_bdev b) of
        None \<Rightarrow> Some (True, b, s)
      | Some bi \<Rightarrow>
          if bio_sectors b = 0 then Some (True, b, s)
          else if bio_integrity b \<noteq> None then Some (True, b, s)
          else if bio_op b = REQ_OP_READ then
            (if flags bi AND BLK_INTEGRITY_NOVERIFY \<noteq> 0 then Some (True, b, s)
             else prep_attach k al bi False b s)
          else if bio_op b = REQ_OP_WRITE then
            (if flags bi AND BLK_INTEGRITY_NOGENERATE \<noteq> 0 then Some (True, b, s)
             else prep_attach k al bi (csum_type bi = BLK_INTEGRITY_CSUM_NONE) b s)
          else Some (True, b, s))"

subsection \<open>Completion: bio\_integrity\_verify\_fn and \_\_bio\_integrity\_endio\<close>

text \<open>\<^verbatim>\<open>kfree(bvec_virt(bip->bip_vec)); bio_integrity_free(bio);\<close>, shared by the
  worker and the completion function.\<close>

definition free_buf_and_payload :: "bio \<Rightarrow> kstate \<Rightarrow> (bio \<times> kstate) option" where
  "free_buf_and_payload b s =
     (case bio_integrity b of
        None \<Rightarrow> None
      | Some bip \<Rightarrow>
          (case bvec_get s (bip_vec bip) 0 of
             None \<Rightarrow> None
           | Some bv \<Rightarrow> bio_integrity_free b (log [Kfree (bvec_virt bv)] s)))"

text \<open>The worker gets the payload that holds its work item and, through \<open>bip_bio\<close>, the
  bio; the external verifier reports a status, stored in the bio when it is an error.\<close>

definition bio_integrity_verify_fn :: "kernel \<Rightarrow> bio \<Rightarrow> kstate \<Rightarrow> (bio \<times> kstate) option" where
  "bio_integrity_verify_fn k b s =
     (let st = verify k b (mem s);
          b1 = (if st \<noteq> 0 then b\<lparr>bi_status := st\<rparr> else b);
          s1 = log [Blk_integrity_verify] s
      in case free_buf_and_payload b1 s1 of
           None \<Rightarrow> None
         | Some (b2, s2) \<Rightarrow> Some (b2, log [Bio_endio (bi_status b2)] s2))"

definition bio_integrity_endio :: "bio \<Rightarrow> kstate \<Rightarrow> (bool \<times> bio \<times> kstate) option" where
  \<comment> \<open>\<^verbatim>\<open>__bio_integrity_endio\<close>\<close>
  "bio_integrity_endio b s =
     (let sync = (case free_buf_and_payload b s of
                    None \<Rightarrow> None
                  | Some (b1, s1) \<Rightarrow> Some (True, b1, s1))
      in if bio_op b = REQ_OP_READ \<and> bi_status b = 0 then
           (case blk_get_integrity (bi_bdev b) of
              None \<Rightarrow> None
            | Some bi \<Rightarrow>
                if csum_type bi \<noteq> BLK_INTEGRITY_CSUM_NONE then
                  (case bio_integrity b of
                     None \<Rightarrow> None
                   | Some bip \<Rightarrow> Some (False, b, log [Queue_work] s))
                else sync)
         else sync)"

subsection \<open>bio\_integrity\_advance, bio\_integrity\_trim, bio\_integrity\_clone\<close>





definition bio_integrity_trim :: "bio \<Rightarrow> bio option" where
  "bio_integrity_trim b =
     (case bio_integrity b of
        None \<Rightarrow> None
      | Some bip \<Rightarrow>
          (case blk_get_integrity (bi_bdev b) of
             None \<Rightarrow> None
           | Some bi \<Rightarrow>
               Some (b\<lparr>bi_integrity := Some (bip\<lparr>bip_iter := (bip_iter bip)
                         \<lparr>bi_size := bio_integrity_bytes bi (bio_sectors b)\<rparr>\<rparr>)\<rparr>)))"

text \<open>\<^verbatim>\<open>BUG_ON(bip_src == NULL)\<close> is the result \<open>None\<close>.\<close>

definition bio_integrity_clone ::
  "allocs \<Rightarrow> bio \<Rightarrow> bio \<Rightarrow> kstate \<Rightarrow> (int \<times> bio \<times> kstate) option" where
  "bio_integrity_clone al b b_src s =
     (case bio_integrity b_src of
        None \<Rightarrow> None
      | Some bip_src \<Rightarrow>
          (case bio_integrity_alloc al b 0 s of
             (Inl e, b1, s1) \<Rightarrow> Some (e, b1, s1)
           | (Inr bip, b1, s1) \<Rightarrow>
               Some (0,
                     b1\<lparr>bi_integrity := Some (bip\<lparr>bip_vec := bip_vec bip_src,
                            bip_iter := bip_iter bip_src,
                            bip_flags := bip_flags bip_src AND NOT BIP_BLOCK_INTEGRITY\<rparr>)\<rparr>,
                     s1)))"

subsection \<open>User buffers: unpinning and the bounce buffer\<close>

datatype iter_dir = ITER_DEST | ITER_SOURCE

text \<open>Elements \<open>i\<close> to \<open>i + n - 1\<close> of the array a pointer refers to, read and written as
  the loops and \<^verbatim>\<open>memcpy\<close> calls of the file do; nothing is accessed when \<open>n = 0\<close>.\<close>

definition bvec_range :: "kstate \<Rightarrow> addr option \<Rightarrow> nat \<Rightarrow> nat \<Rightarrow> bio_vec list option" where
  "bvec_range s p i n =
     (if n = 0 then Some []
      else case p of
             None \<Rightarrow> None
           | Some a \<Rightarrow> if i + n \<le> slots s a then Some (map (bvecs s a) [i ..< i + n]) else None)"

definition bvec_write_range :: "kstate \<Rightarrow> addr option \<Rightarrow> nat \<Rightarrow> bio_vec list \<Rightarrow> kstate option" where
  "bvec_write_range s p i bvs =
     (if bvs = [] then Some s
      else case p of
             None \<Rightarrow> None
           | Some a \<Rightarrow>
               if i + length bvs \<le> slots s a then
                 Some (s\<lparr>bvecs := (bvecs s)(a := (\<lambda>j. if i \<le> j \<and> j < i + length bvs
                                                          then bvs ! (j - i) else bvecs s a j))\<rparr>)
               else None)"

text \<open>Modelled from the spec: \<^verbatim>\<open>copy_to_iter\<close>, \<^verbatim>\<open>copy_from_iter_full\<close> and
  \<^verbatim>\<open>iov_iter_bvec\<close> (lib/iov\_iter.c) are not part of the sources. An iterator over
  segments with a byte count is consumed segment by segment: each step copies what is left
  of the count, at most the length of the segment. \<open>copy_from_iter_full\<close> fails (\<open>None\<close>)
  when the segments hold fewer bytes than asked for.\<close>

definition memcpy :: "(addr \<Rightarrow> u8) \<Rightarrow> addr \<Rightarrow> addr \<Rightarrow> nat \<Rightarrow> (addr \<Rightarrow> u8)" where
  "memcpy m dst src n = (\<lambda>x. if dst \<le> x \<and> x < dst + n then m (src + (x - dst)) else m x)"

fun copy_to_iter :: "(addr \<Rightarrow> u8) \<Rightarrow> addr \<Rightarrow> nat \<Rightarrow> bio_vec list \<Rightarrow> (addr \<Rightarrow> u8)" where
  "copy_to_iter m src n [] = m"
| "copy_to_iter m src n (bv # bvs) =
     (let c = min n (unat (bv_len bv))
      in copy_to_iter (memcpy m (bvec_virt bv) src c) (src + c) (n - c) bvs)"

fun copy_from_iter :: "(addr \<Rightarrow> u8) \<Rightarrow> addr \<Rightarrow> nat \<Rightarrow> bio_vec list \<Rightarrow> (addr \<Rightarrow> u8) \<times> nat" where
  "copy_from_iter m dst n [] = (m, n)"
| "copy_from_iter m dst n (bv # bvs) =
     (let c = min n (unat (bv_len bv))
      in copy_from_iter (memcpy m dst (bvec_virt bv) c) (dst + c) (n - c) bvs)"

definition copy_from_iter_full ::
  "(addr \<Rightarrow> u8) \<Rightarrow> addr \<Rightarrow> nat \<Rightarrow> bio_vec list \<Rightarrow> (addr \<Rightarrow> u8) option" where
  "copy_from_iter_full m dst n bvs =
     (case copy_from_iter m dst n bvs of (m', left) \<Rightarrow> if left = 0 then Some m' else None)"

text \<open>\<open>bio_integrity_unpin_bvec\<close> gets the array as the list of its first \<open>nr_vecs\<close>
  elements; its effect is the calls it makes, in order.\<close>

definition bio_integrity_unpin_bvec :: "kernel \<Rightarrow> bio_vec list \<Rightarrow> bool \<Rightarrow> event list" where
  "bio_integrity_unpin_bvec k bv dirty =
     concat (map (\<lambda>v. (if dirty \<and> \<not> PageCompound k (bv_page v)
                        then [Set_page_dirty_lock (bv_page v)] else [])
                       @ [Unpin_user_page (bv_page v)]) bv)"

definition bio_integrity_uncopy_user ::
  "kernel \<Rightarrow> bio_integrity_payload \<Rightarrow> kstate \<Rightarrow> kstate option" where
  "bio_integrity_uncopy_user k bip s =
     (let orig_nr_vecs = unat (bip_max_vcnt bip - 1) in
      case bvec_get s (bip_vec bip) 0 of
        None \<Rightarrow> None
      | Some bounce_bvec \<Rightarrow>
          let bytes = unat (bv_len bounce_bvec) in
          (case bvec_range s (bip_vec bip) 1 orig_nr_vecs of
             None \<Rightarrow> None
           | Some orig_bvecs \<Rightarrow>
               Some (log (bio_integrity_unpin_bvec k orig_bvecs True)
                       (s\<lparr>mem := copy_to_iter (mem s) (bvec_virt bounce_bvec) bytes orig_bvecs\<rparr>))))"

definition bio_integrity_unmap_user :: "kernel \<Rightarrow> bio \<Rightarrow> kstate \<Rightarrow> kstate option" where
  "bio_integrity_unmap_user k b s =
     (case bio_integrity b of
        None \<Rightarrow> None
      | Some bip \<Rightarrow>
          if bip_flags bip AND BIP_COPY_USER \<noteq> 0 then
            (case (if bio_data_dir b = READ then bio_integrity_uncopy_user k bip s else Some s) of
               None \<Rightarrow> None
             | Some s1 \<Rightarrow>
                 (case bvec_get s1 (bip_vec bip) 0 of
                    None \<Rightarrow> None
                  | Some bv \<Rightarrow> Some (log [Kfree (bvec_virt bv)] s1)))
          else
            (case bvec_range s (bip_vec bip) 0 (unat (bip_max_vcnt bip)) of
               None \<Rightarrow> None
             | Some bvs \<Rightarrow>
                 Some (log (bio_integrity_unpin_bvec k bvs (bio_data_dir b = READ)) s)))"

subsection \<open>bio\_integrity\_copy\_user and bio\_integrity\_init\_user\<close>

text \<open>The array \<^verbatim>\<open>bvec\<close> and its length \<^verbatim>\<open>nr_vecs\<close> are one list. The payload is
  reached through the bio, as in the source.\<close>

definition copy_user_finish ::
  "kernel \<Rightarrow> bio \<Rightarrow> bio_integrity_payload \<Rightarrow> bio_vec list \<Rightarrow> addr \<Rightarrow> u32 \<Rightarrow> bool \<Rightarrow> u32 \<Rightarrow> kstate
     \<Rightarrow> (int \<times> bio \<times> kstate) option" where
  \<comment> \<open>\<open>bio_integrity_copy_user\<close> once the payload is allocated\<close>
  "copy_user_finish k b bip bvec buf len write seed s =
     (case (if write then Some (log (bio_integrity_unpin_bvec k bvec False) s)
            else bvec_write_range s (bip_vec bip) 1 bvec) of
        None \<Rightarrow> None
      | Some s1 \<Rightarrow>
          (case bio_integrity_add_page k b (virt_to_page buf) len (of_nat (offset_in_page buf)) s1 of
             None \<Rightarrow> None
           | Some (ret, b1, s2) \<Rightarrow>
               if ret \<noteq> len then
                 (case bio_integrity_free b1 s2 of
                    None \<Rightarrow> None
                  | Some (b2, s3) \<Rightarrow> Some (- ENOMEM, b2, log [Kfree buf] s3))
               else
                 Some (0,
                       b1\<lparr>bi_integrity :=
                            map_option (\<lambda>p. p\<lparr>bip_flags := bip_flags p OR BIP_COPY_USER,
                                               bip_iter := (bip_iter p)\<lparr>bi_sector := ucast seed\<rparr>,
                                               bip_vcnt := of_nat (length bvec)\<rparr>)
                              (bi_integrity b1)\<rparr>,
                       s2)))"

definition bio_integrity_copy_user ::
  "kernel \<Rightarrow> allocs \<Rightarrow> bio \<Rightarrow> bio_vec list \<Rightarrow> u32 \<Rightarrow> iter_dir \<Rightarrow> u32 \<Rightarrow> kstate
     \<Rightarrow> (int \<times> bio \<times> kstate) option" where
  "bio_integrity_copy_user k al b bvec len direction seed s =
     (let write = (direction = ITER_SOURCE) in
      case buf_mem al of
        None \<Rightarrow> Some (- ENOMEM, b, s)
      | Some buf \<Rightarrow>
          if write then
            (case copy_from_iter_full (mem s) buf (unat len) bvec of
               None \<Rightarrow> Some (- EFAULT, b, log [Kfree buf] s)
             | Some m' \<Rightarrow>
                 (case bio_integrity_alloc al b 1 (s\<lparr>mem := m'\<rparr>) of
                    (Inl e, b1, s1) \<Rightarrow> Some (e, b1, log [Kfree buf] s1)
                  | (Inr bip, b1, s1) \<Rightarrow> copy_user_finish k b1 bip bvec buf len write seed s1))
          else
            (case bio_integrity_alloc al b (of_nat (length bvec + 1))
                    (s\<lparr>mem := zero_fill (mem s) buf (unat len)\<rparr>) of
               (Inl e, b1, s1) \<Rightarrow> Some (e, b1, log [Kfree buf] s1)
             | (Inr bip, b1, s1) \<Rightarrow> copy_user_finish k b1 bip bvec buf len write seed s1))"

definition bio_integrity_init_user ::
  "allocs \<Rightarrow> bio \<Rightarrow> bio_vec list \<Rightarrow> u32 \<Rightarrow> u32 \<Rightarrow> kstate \<Rightarrow> (int \<times> bio \<times> kstate) option" where
  "bio_integrity_init_user al b bvec len seed s =
     (case bio_integrity_alloc al b (of_nat (length bvec)) s of
        (Inl e, b1, s1) \<Rightarrow> Some (e, b1, s1)
      | (Inr bip, b1, s1) \<Rightarrow>
          (case bvec_write_range s1 (bip_vec bip) 0 bvec of
             None \<Rightarrow> None
           | Some s2 \<Rightarrow>
               Some (0,
                     b1\<lparr>bi_integrity :=
                          Some (bip\<lparr>bip_iter := (bip_iter bip)\<lparr>bi_sector := ucast seed, bi_size := len\<rparr>,
                                    bip_vcnt := of_nat (length bvec)\<rparr>)\<rparr>,
                     s2)))"

subsection \<open>bvec\_from\_pages\<close>

text \<open>The inner loop: from page \<open>j\<close> on, pages that continue the run (same folio, next
  page frame) are unpinned and their bytes added to \<open>sz\<close>. \<^verbatim>\<open>size_t\<close> and
  \<^verbatim>\<open>ssize_t\<close> are 64-bit words; \<^verbatim>\<open>min_t(size_t, ...)\<close> is the unsigned minimum.\<close>

function merge_run ::
  "kernel \<Rightarrow> (nat \<Rightarrow> page) \<Rightarrow> nat \<Rightarrow> nat \<Rightarrow> nat \<Rightarrow> u64 \<Rightarrow> u64 \<Rightarrow> event list
     \<Rightarrow> nat \<times> u64 \<times> u64 \<times> event list" where
  "merge_run k pages nr_vecs folio j sz bytes ev =
     (if j < nr_vecs then
        (let next = min (of_nat PAGE_SIZE) bytes in
         if page_folio k (pages j) \<noteq> folio \<or> pages j \<noteq> pages (j - 1) + 1
         then (j, sz, bytes, ev)
         else merge_run k pages nr_vecs folio (j + 1) (sz + next) (bytes - next)
                (ev @ [Unpin_user_page (pages j)]))
      else (j, sz, bytes, ev))"
  by pat_completeness auto
termination
  by (relation "measure (\<lambda>(k, pages, nr_vecs, folio, j, sz, bytes, ev). nr_vecs - j)") auto

declare merge_run.simps [simp del]

lemma merge_run_stop:
  "\<not> j < nr_vecs \<or> page_folio k (pages j) \<noteq> folio \<or> pages j \<noteq> pages (j - 1) + 1 \<Longrightarrow>
   merge_run k pages nr_vecs folio j sz bytes ev = (j, sz, bytes, ev)"
  by (subst merge_run.simps) (auto simp: Let_def)

lemma merge_run_cont:
  "j < nr_vecs \<Longrightarrow> page_folio k (pages j) = folio \<Longrightarrow> pages j = pages (j - 1) + 1 \<Longrightarrow>
   merge_run k pages nr_vecs folio j sz bytes ev =
     merge_run k pages nr_vecs folio (j + 1) (sz + min (of_nat PAGE_SIZE) bytes)
       (bytes - min (of_nat PAGE_SIZE) bytes) (ev @ [Unpin_user_page (pages j)])"
  by (subst merge_run.simps) (simp add: Let_def)

lemma merge_run_index:
  "merge_run k pages nr_vecs folio j sz bytes ev = (j', sz', bytes', ev') \<Longrightarrow> j \<le> j'"
proof (induction k pages nr_vecs folio j sz bytes ev rule: merge_run.induct)
  case (1 k pages nr_vecs folio j sz bytes ev)
  show ?case
  proof (cases "j < nr_vecs \<and> page_folio k (pages j) = folio \<and> pages j = pages (j - 1) + 1")
    case True
    then have c: "j < nr_vecs" "page_folio k (pages j) = folio" "pages j = pages (j - 1) + 1"
      by blast+
    from "1.prems" have "merge_run k pages nr_vecs folio (j + 1)
        (sz + min (of_nat PAGE_SIZE) bytes) (bytes - min (of_nat PAGE_SIZE) bytes)
        (ev @ [Unpin_user_page (pages j)]) = (j', sz', bytes', ev')"
      unfolding merge_run_cont [OF c] .
    moreover have "\<not> (page_folio k (pages j) \<noteq> folio \<or> pages j \<noteq> pages (j - 1) + 1)"
      using c by blast
    ultimately have "j + 1 \<le> j'"
      using "1.IH" [OF c(1) refl] by blast
    then show ?thesis by simp
  next
    case False
    then have "\<not> j < nr_vecs \<or> page_folio k (pages j) \<noteq> folio \<or> pages j \<noteq> pages (j - 1) + 1"
      by blast
    from merge_run_stop [OF this] "1.prems" have "j' = j" by simp
    then show ?thesis by simp
  qed
qed

text \<open>The outer loop, from page \<open>i\<close> on: the segments written to \<^verbatim>\<open>bvec\<close>, in order,
  and the unpin calls made.\<close>

function bvec_from_pages_loop ::
  "kernel \<Rightarrow> (nat \<Rightarrow> page) \<Rightarrow> nat \<Rightarrow> nat \<Rightarrow> u64 \<Rightarrow> u64 \<Rightarrow> bio_vec list \<times> event list" where
  "bvec_from_pages_loop k pages nr_vecs i bytes offset =
     (if i < nr_vecs then
        (let sz = min bytes (of_nat PAGE_SIZE - offset);
             folio = page_folio k (pages i)
         in case merge_run k pages nr_vecs folio (i + 1) sz (bytes - sz) [] of
              (j, sz', bytes', ev) \<Rightarrow>
                (case bvec_from_pages_loop k pages nr_vecs j bytes' 0 of
                   (bvs, evs) \<Rightarrow>
                     (bvec_set_page (pages i) (ucast sz') (ucast offset) # bvs, ev @ evs)))
      else ([], []))"
  by pat_completeness auto
termination
proof (relation "measure (\<lambda>(k, pages, nr_vecs, i, bytes, offset). nr_vecs - i)")
  show "wf (measure (\<lambda>(k, pages, nr_vecs, i, bytes, offset). nr_vecs - i))" by simp
next
  fix k pages nr_vecs i bytes offset sz folio x j y sz' z bytes' ev
  assume "i < nr_vecs"
    and "(j, y) = merge_run k pages nr_vecs folio (i + 1) sz (bytes - sz) []"
    and "(sz', z) = y" and "(bytes', ev) = z"
  then have "merge_run k pages nr_vecs folio (i + 1) sz (bytes - sz) [] = (j, sz', bytes', ev)"
    by simp
  then have "i + 1 \<le> j" by (rule merge_run_index)
  with \<open>i < nr_vecs\<close>
  show "((k, pages, nr_vecs, j, bytes', 0), (k, pages, nr_vecs, i, bytes, offset))
          \<in> measure (\<lambda>(k, pages, nr_vecs, i, bytes, offset). nr_vecs - i)"
    by simp
qed

declare bvec_from_pages_loop.simps [simp del]

definition bvec_from_pages ::
  "kernel \<Rightarrow> (nat \<Rightarrow> page) \<Rightarrow> nat \<Rightarrow> u64 \<Rightarrow> u64 \<Rightarrow> bio_vec list \<times> event list" where
  "bvec_from_pages k pages nr_vecs bytes offset = bvec_from_pages_loop k pages nr_vecs 0 bytes offset"

subsection \<open>bio\_integrity\_map\_user\<close>

text \<open>Modelled from the spec: the user-memory iterator (\<^verbatim>\<open>iov_iter_ubuf\<close>,
  \<^verbatim>\<open>iov_iter_npages\<close>, \<^verbatim>\<open>iov_iter_is_aligned\<close>, \<^verbatim>\<open>iov_iter_extract_pages\<close>,
  lib/iov\_iter.c) is not part of the sources. The number of pages is computed from the
  buffer's page layout: the pages its bytes touch, at most \<open>maxpages\<close>, the byte count
  being taken as the unsigned number it is and the sum not wrapping around. The buffer is
  aligned when neither its address nor its length has a bit of the mask. Pinning the pages
  is an outcome (\<open>pin\<close>): a negative error, or the page array with the offset of the buffer
  in its first page; \<open>kcalloc_ok\<close> is the outcome of allocating the temporary segment
  array, which the function frees again before it returns.\<close>

record pin =
  kcalloc_ok :: bool
  extract_ret :: int
  extract_pages :: "nat \<Rightarrow> page"

definition iov_iter_npages :: "addr \<Rightarrow> u64 \<Rightarrow> nat \<Rightarrow> nat" where
  "iov_iter_npages ubuf count maxpages =
     (if count = 0 then 0
      else min ((offset_in_page ubuf + unat count + PAGE_SIZE - 1) div PAGE_SIZE) maxpages)"

definition iov_iter_is_aligned :: "addr \<Rightarrow> u64 \<Rightarrow> u32 \<Rightarrow> bool" where
  "iov_iter_is_aligned ubuf count align =
     (count AND ucast align = 0 \<and> (of_nat ubuf :: u64) AND ucast align = 0)"

definition bio_integrity_map_user ::
  "kernel \<Rightarrow> pin \<Rightarrow> allocs \<Rightarrow> bio \<Rightarrow> addr \<Rightarrow> u64 \<Rightarrow> u32 \<Rightarrow> kstate \<Rightarrow> (int \<times> bio \<times> kstate) option" where
  "bio_integrity_map_user k pn al b ubuf bytes seed s =
     (let q = bdev_get_queue (bi_bdev b);
          align = blk_lim_dma_alignment_and_pad (limits q)
      in
      if bio_integrity b \<noteq> None then Some (- EINVAL, b, s)
      else if sint (signed_drop_bit SECTOR_SHIFT bytes) > uint (queue_max_hw_sectors q)
      then Some (- E2BIG, b, s)
      else
        let direction = (if bio_data_dir b = READ then ITER_DEST else ITER_SOURCE);
            nr_vecs = iov_iter_npages ubuf bytes (BIO_MAX_VECS + 1)
        in
        if nr_vecs > BIO_MAX_VECS then Some (- E2BIG, b, s)
        else if nr_vecs > UIO_FASTIOV \<and> \<not> kcalloc_ok pn then Some (- ENOMEM, b, s)
        else if extract_ret pn < 0 then Some (extract_ret pn, b, s)
        else
          (case bvec_from_pages k (extract_pages pn) nr_vecs bytes (of_nat (offset_in_page ubuf)) of
             (bvec, ev) \<Rightarrow>
               let copy = (\<not> iov_iter_is_aligned ubuf bytes align
                           \<or> length bvec > unat (queue_max_integrity_segments q))
               in
               (case (if copy
                      then bio_integrity_copy_user k al b bvec (ucast bytes) direction seed (log ev s)
                      else bio_integrity_init_user al b bvec (ucast bytes) seed (log ev s)) of
                  None \<Rightarrow> None
                | Some (ret, b1, s1) \<Rightarrow>
                    if ret \<noteq> 0
                    then Some (ret, b1, log (bio_integrity_unpin_bvec k bvec False) s1)
                    else Some (0, b1, s1))))"

subsection \<open>Derived notions used in the statements\<close>

text \<open>The early returns of \<open>bio_integrity_prep\<close>, in the order of the source: no
  profile, no sectors, a payload already attached, a read with verification disabled, a
  write with generation disabled, and the \<^verbatim>\<open>default\<close> case of the switch (an operation
  that is neither a read nor a write).\<close>

definition prep_skips :: "bio \<Rightarrow> bool" where
  "prep_skips b =
     (case blk_get_integrity (bi_bdev b) of
        None \<Rightarrow> True
      | Some bi \<Rightarrow>
          bio_sectors b = 0 \<or> bio_integrity b \<noteq> None
          \<or> (bio_op b = REQ_OP_READ \<and> flags bi AND BLK_INTEGRITY_NOVERIFY \<noteq> 0)
          \<or> (bio_op b = REQ_OP_WRITE \<and> flags bi AND BLK_INTEGRITY_NOGENERATE \<noteq> 0)
          \<or> (bio_op b \<noteq> REQ_OP_READ \<and> bio_op b \<noteq> REQ_OP_WRITE))"


text \<open>What \<open>bio_integrity_free\<close> asks of the allocator for a payload, and the request
  once its payload is detached.\<close>

definition payload_release :: "bio \<Rightarrow> bio_integrity_payload \<Rightarrow> event list" where
  "payload_release b bip =
     (if has_integrity_pool b then
        (case bip_vec bip of None \<Rightarrow> [] | Some v \<Rightarrow> [Bvec_free v (bip_max_vcnt bip)]) @ [Free_bip True]
      else [Free_bip False])"

definition detach :: "bio \<Rightarrow> bio" where
  "detach b = b\<lparr>bi_integrity := None, bi_opf := bi_opf b AND NOT REQ_INTEGRITY\<rparr>"

text \<open>For the data of a user buffer: the region of memory a segment covers, segments
  that overlap neither each other nor a given set of addresses, the unpin calls made while
  the pages of a user buffer are coalesced, and the bytes that segments hold, in order.\<close>

definition seg_region :: "bio_vec \<Rightarrow> addr set" where
  "seg_region bv = {bvec_virt bv ..< bvec_virt bv + unat (bv_len bv)}"

fun disjoint_segments :: "addr set \<Rightarrow> bio_vec list \<Rightarrow> bool" where
  "disjoint_segments used [] = True"
| "disjoint_segments used (bv # bvs) =
     (seg_region bv \<inter> used = {} \<and> disjoint_segments (used \<union> seg_region bv) bvs)"

definition coalesce_unpins :: "kernel \<Rightarrow> pin \<Rightarrow> addr \<Rightarrow> u64 \<Rightarrow> event list" where
  "coalesce_unpins k pn ubuf bytes =
     snd (bvec_from_pages k (extract_pages pn) (iov_iter_npages ubuf bytes (BIO_MAX_VECS + 1))
            bytes (of_nat (offset_in_page ubuf)))"

definition read_segments :: "(addr \<Rightarrow> u8) \<Rightarrow> bio_vec list \<Rightarrow> u8 list" where
  "read_segments m bvs =
     concat (map (\<lambda>bv. map m [bvec_virt bv ..< bvec_virt bv + unat (bv_len bv)]) bvs)"







text \<open>The segments \<open>bio_integrity_map_user\<close> builds from the pages of a user buffer,
  after coalescing.\<close>

definition user_segments :: "kernel \<Rightarrow> pin \<Rightarrow> addr \<Rightarrow> u64 \<Rightarrow> bio_vec list" where
  "user_segments k pn ubuf bytes =
     fst (bvec_from_pages k (extract_pages pn) (iov_iter_npages ubuf bytes (BIO_MAX_VECS + 1))
            bytes (of_nat (offset_in_page ubuf)))"

text \<open>The state with element \<open>i\<close> of the array at \<open>a\<close> replaced.\<close>

definition set_slot :: "kstate \<Rightarrow> addr \<Rightarrow> nat \<Rightarrow> bio_vec \<Rightarrow> kstate" where
  "set_slot s a i bv = s\<lparr>bvecs := (bvecs s)(a := (bvecs s a)(i := bv))\<rparr>"


subsection \<open>A concrete device, request and kernel state\<close>

text \<open>An integrity profile with CRC checksums of 8 bytes for every 512-byte interval, on a
  queue that takes two integrity segments; a request of 8 sectors starting at sector 2048;
  a merge check that accepts exactly the regions that start where the segment ends.\<close>

definition ex_kernel :: kernel where
  "ex_kernel = \<lparr>hw_mergeable = (\<lambda>q bv pg len off. bvec_virt bv + unat (bv_len bv) = pg * PAGE_SIZE + unat off),
     gap_to_prev = (\<lambda>lim bv off. False), page_folio = (\<lambda>p. p div 4), PageCompound = (\<lambda>p. False),
     generate = (\<lambda>b m. m), verify = (\<lambda>b m. 0)\<rparr>"

definition ex_profile :: blk_integrity where
  "ex_profile = \<lparr>flags = 0, csum_type = BLK_INTEGRITY_CSUM_CRC, tuple_size = 8, interval_exp = 9\<rparr>"

definition ex_dev :: block_device where
  "ex_dev = \<lparr>bd_queue = \<lparr>limits = \<lparr>max_hw_sectors = 2560, max_integrity_segments = 2,
       dma_alignment = 3, dma_pad_mask = 0, integrity = ex_profile\<rparr>\<rparr>\<rparr>"

definition ex_state :: kstate where
  "ex_state = \<lparr>bvecs = (\<lambda>a i. \<lparr>bv_page = 0, bv_len = 0, bv_offset = 0\<rparr>), slots = (\<lambda>a. 0),
     mem = (\<lambda>a. 0), trace = []\<rparr>"

definition ex_bio :: "u32 \<Rightarrow> bio" where
  "ex_bio opf = \<lparr>bi_bdev = ex_dev, bi_opf = opf, bi_status = 0,
     bi_iter = \<lparr>bi_sector = 2048, bi_size = 4096, bi_idx = 0, bi_bvec_done = 0\<rparr>,
     bi_integrity = None, bi_pool = None, bi_crypt_context = False\<rparr>"

definition ex_allocs :: allocs where
  "ex_allocs = \<lparr>bip_mem = Some 100, bvec_mem = Some (200, 16), buf_mem = Some 8192\<rparr>"

text \<open>The request of the example once prepared (its payload is one segment of 64 bytes
  in the buffer at address 8192), the state after the preparation, the first half of the
  request, and the clone of the prepared request made for that half.\<close>

definition ex_bip :: bio_integrity_payload where
  "ex_bip = \<lparr>bip_iter = \<lparr>bi_sector = 2048, bi_size = 64, bi_idx = 0, bi_bvec_done = 0\<rparr>,
     bip_vcnt = 1, bip_max_vcnt = 1, bip_flags = BIP_BLOCK_INTEGRITY,
     bio_iter = zero_iter, bip_vec = Some 100\<rparr>"

definition ex_prepared :: "u32 \<Rightarrow> bio" where
  "ex_prepared opf = (ex_bio opf)\<lparr>bi_opf := opf OR REQ_INTEGRITY,
      bi_integrity := Some (if opf = 0 then ex_bip\<lparr>bio_iter := bi_iter (ex_bio opf)\<rparr> else ex_bip)\<rparr>"

definition ex_prepared_state :: kstate where
  "ex_prepared_state = ex_state\<lparr>slots := (slots ex_state)(100 := 1),
      bvecs := (bvecs ex_state)(100 := (bvecs ex_state 100)(0 := \<lparr>bv_page = 2, bv_len = 64, bv_offset = 0\<rparr>))\<rparr>"

definition ex_half :: bio where
  "ex_half = (ex_bio 1)\<lparr>bi_iter := \<lparr>bi_sector = 2048, bi_size = 2048, bi_idx = 0, bi_bvec_done = 0\<rparr>\<rparr>"

definition ex_clone :: bio where
  "ex_clone = ex_half\<lparr>bi_opf := 1 OR REQ_INTEGRITY,
      bi_integrity := Some \<lparr>bip_iter = \<lparr>bi_sector = 2048, bi_size = 64, bi_idx = 0, bi_bvec_done = 0\<rparr>,
        bip_vcnt = 0, bip_max_vcnt = 0, bip_flags = 0, bio_iter = zero_iter, bip_vec = Some 100\<rparr>\<rparr>"

text \<open>A device whose queue reports no integrity segments at all, a request on it with a
  freshly allocated payload of one slot, and the prepared request with a payload of two
  slots.\<close>

definition ex_nolimit_dev :: block_device where
  "ex_nolimit_dev = \<lparr>bd_queue = \<lparr>limits = \<lparr>max_hw_sectors = 2560, max_integrity_segments = 0,
       dma_alignment = 3, dma_pad_mask = 0, integrity = ex_profile\<rparr>\<rparr>\<rparr>"

definition ex_fresh :: bio where
  "ex_fresh = (ex_bio 1)\<lparr>bi_bdev := ex_nolimit_dev, bi_opf := 1 OR REQ_INTEGRITY,
      bi_integrity := Some (zero_bip\<lparr>bip_max_vcnt := 1, bip_vec := Some 100\<rparr>)\<rparr>"

definition ex_fresh_state :: kstate where
  "ex_fresh_state = ex_state\<lparr>slots := (slots ex_state)(100 := 1)\<rparr>"

definition ex_room :: bio where
  "ex_room = (ex_prepared 1)\<lparr>bi_integrity := Some (ex_bip\<lparr>bip_max_vcnt := 2\<rparr>)\<rparr>"

definition ex_room_state :: kstate where
  "ex_room_state = ex_prepared_state\<lparr>slots := (slots ex_prepared_state)(100 := 2)\<rparr>"


text \<open>A user buffer whose pages are page 40 and then pages 50, 51, ...\<close>

definition ex_pin :: pin where
  "ex_pin = \<lparr>kcalloc_ok = True, extract_ret = 64,
              extract_pages = (\<lambda>i. if i = 0 then 40 else 49 + i)\<rparr>"





section \<open>Properties\<close>

subsection \<open>The integrity flag and the operation bits\<close>

lemma REQ_INTEGRITY_neq0: "REQ_INTEGRITY \<noteq> 0"
  by (simp add: REQ_INTEGRITY_def)

lemma req_integrity_set: "(x OR REQ_INTEGRITY) AND REQ_INTEGRITY \<noteq> 0"
proof -
  have "(x OR REQ_INTEGRITY) AND REQ_INTEGRITY = REQ_INTEGRITY"
    by (simp add: word_ao_absorbs)
  with REQ_INTEGRITY_neq0 show ?thesis by simp
qed

lemma op_mask_integrity: "(x OR REQ_INTEGRITY) AND REQ_OP_MASK = x AND REQ_OP_MASK"
proof -
  have "REQ_INTEGRITY AND REQ_OP_MASK = 0"
    by (simp add: REQ_INTEGRITY_def REQ_OP_MASK_def)
  then show ?thesis by (simp add: bit.conj_disj_distrib2)
qed

lemma op_mask_clear: "(x AND NOT REQ_INTEGRITY) AND REQ_OP_MASK = x AND REQ_OP_MASK"
proof -
  have "NOT REQ_INTEGRITY AND REQ_OP_MASK = REQ_OP_MASK"
    by (simp add: REQ_INTEGRITY_def REQ_OP_MASK_def)
  then show ?thesis by (simp add: and.assoc)
qed

lemma req_integrity_clear: "(x AND NOT REQ_INTEGRITY) AND REQ_INTEGRITY = 0"
  by (simp add: and.assoc)

lemma bio_op_attach: "bio_op (attach b bip) = bio_op b"
  by (simp add: bio_op_def attach_def op_mask_integrity)

lemma bio_integrity_attach: "bio_integrity (attach b bip) = Some bip"
  by (simp add: bio_integrity_def attach_def req_integrity_set REQ_INTEGRITY_neq0)

lemma bio_integrity_attach_upd:
  "bio_integrity ((attach b bip)\<lparr>bi_integrity := Some bip'\<rparr>) = Some bip'"
  by (simp add: bio_integrity_def attach_def req_integrity_set REQ_INTEGRITY_neq0)

lemma add_page_first:
  assumes "bio_integrity b = Some bip" "bip_vcnt bip = 0" "bip_vec bip = Some a" "0 < slots s a"
  shows "bio_integrity_add_page k b pg len off s =
     Some (len, b\<lparr>bi_integrity := Some (add_size len (bip\<lparr>bip_vcnt := 1\<rparr>))\<rparr>,
           s\<lparr>bvecs := (bvecs s)(a := (bvecs s a)(0 := bvec_set_page pg len off))\<rparr>)"
  using assms by (simp add: bio_integrity_add_page_def append_page_def bvec_put_def)

subsection \<open>Preparation\<close>

lemma prep_skips_noop: "prep_skips b \<Longrightarrow> bio_integrity_prep k al b s = Some (True, b, s)"
  by (auto simp: prep_skips_def bio_integrity_prep_def REQ_OP_READ_def REQ_OP_WRITE_def split: option.splits)

lemma prep_not_skips:
  "\<not> prep_skips b \<Longrightarrow> \<exists>bi. blk_get_integrity (bi_bdev b) = Some bi \<and>
     bio_integrity_prep k al b s = prep_attach k al bi (bio_op b = REQ_OP_WRITE \<and> csum_type bi = BLK_INTEGRITY_CSUM_NONE) b s"
  by (auto simp: prep_skips_def bio_integrity_prep_def REQ_OP_READ_def REQ_OP_WRITE_def split: option.splits)

lemma alloc_one:
  "bio_integrity_alloc al b 1 s =
    (if bio_has_crypt_ctx b then (Inl (- EOPNOTSUPP), b, s)
     else case bip_mem al of None \<Rightarrow> (Inl (- ENOMEM), b, s)
       | Some a \<Rightarrow> (Inr (zero_bip\<lparr>bip_max_vcnt := 1, bip_vec := Some a\<rparr>),
                    attach b (zero_bip\<lparr>bip_max_vcnt := 1, bip_vec := Some a\<rparr>),
                    s\<lparr>slots := (slots s)(a := if has_integrity_pool b then 4 else 1)\<rparr>))"
  by (auto simp: bio_integrity_alloc_def BIO_INLINE_VECS_def Let_def split: option.splits)

lemma prep_attach_fail:
  assumes "buf_mem al = None \<or> bip_mem al = None \<or> bio_has_crypt_ctx b"
  shows "prep_attach k al bi z b s =
     Some (False, b\<lparr>bi_status := BLK_STS_RESOURCE\<rparr>,
           log ((case buf_mem al of None \<Rightarrow> [] | Some buf \<Rightarrow> [Kfree buf]) @ [Bio_endio BLK_STS_RESOURCE])
             (if z \<and> buf_mem al \<noteq> None then s\<lparr>mem := zero_fill (mem s) (the (buf_mem al)) (unat (bio_integrity_bytes bi (bio_sectors b)))\<rparr> else s))"
  using assms
  by (auto simp: prep_attach_def alloc_one err_end_io_def log_def Let_def split: option.splits)

lemma prep_attach_ok:
  assumes "buf_mem al = Some buf" "bip_mem al = Some a" "\<not> bio_has_crypt_ctx b"
    and op: "bio_op b = REQ_OP_READ \<or> bio_op b = REQ_OP_WRITE"
  shows "\<exists>bip s'. prep_attach k al bi z b s = Some (True, attach b bip, s')
     \<and> bip_vcnt bip = 1 \<and> bip_max_vcnt bip = 1
     \<and> bvec_get s' (bip_vec bip) 0 = Some (bvec_set_page (virt_to_page buf)
            (bio_integrity_bytes bi (bio_sectors b)) (of_nat (offset_in_page buf)))
     \<and> bip_iter bip = \<lparr>bi_sector = bi_sector (bi_iter b), bi_size = bio_integrity_bytes bi (bio_sectors b), bi_idx = 0, bi_bvec_done = 0\<rparr>
     \<and> bip_flags bip = (if csum_type bi = BLK_INTEGRITY_CSUM_IP then BIP_BLOCK_INTEGRITY OR BIP_IP_CHECKSUM else BIP_BLOCK_INTEGRITY)
     \<and> (bio_op b = REQ_OP_WRITE \<longrightarrow> trace s' = trace s @ [Blk_integrity_generate])
     \<and> (bio_op b = REQ_OP_READ \<longrightarrow> bio_iter bip = bi_iter b \<and> trace s' = trace s)"
proof -
  define len where "len = bio_integrity_bytes bi (bio_sectors b)"
  define s0 where "s0 = (if z then s\<lparr>mem := zero_fill (mem s) buf (unat len)\<rparr> else s)"
  define s1 where "s1 = s0\<lparr>slots := (slots s0)(a := if has_integrity_pool b then 4 else 1)\<rparr>"
  define bip0 where "bip0 = zero_bip\<lparr>bip_max_vcnt := 1, bip_vec := Some a\<rparr>"
  define bip3 where "bip3 = \<lparr>bip_iter = \<lparr>bi_sector = bi_sector (bi_iter b), bi_size = 0, bi_idx = 0, bi_bvec_done = 0\<rparr>,
      bip_vcnt = 0, bip_max_vcnt = 1,
      bip_flags = (if csum_type bi = BLK_INTEGRITY_CSUM_IP then BIP_BLOCK_INTEGRITY OR BIP_IP_CHECKSUM else BIP_BLOCK_INTEGRITY),
      bio_iter = zero_iter, bip_vec = Some a\<rparr>"
  define b2 where "b2 = (attach b bip0)\<lparr>bi_integrity := Some bip3\<rparr>"
  have b2: "bio_integrity b2 = Some bip3" unfolding b2_def by (rule bio_integrity_attach_upd)
  have add: "bio_integrity_add_page k b2 pg len off s1 =
     Some (len, b2\<lparr>bi_integrity := Some (add_size len (bip3\<lparr>bip_vcnt := 1\<rparr>))\<rparr>,
           s1\<lparr>bvecs := (bvecs s1)(a := (bvecs s1 a)(0 := bvec_set_page pg len off))\<rparr>)" for pg off
    by (rule add_page_first [OF b2]) (simp_all add: bip3_def s1_def)
  have opb2: "bio_op (b2\<lparr>bi_integrity := x\<rparr>) = bio_op b" for x
    using bio_op_attach [of b bip0] by (simp add: b2_def bio_op_def attach_def)
  have dir: "bio_data_dir (b2\<lparr>bi_integrity := x\<rparr>) = (if bio_op b = REQ_OP_WRITE then WRITE else READ)" for x
    using op by (auto simp: bio_data_dir_def opb2 REQ_OP_READ_def REQ_OP_WRITE_def)
  have al1: "bio_integrity_alloc al b 1 s0 = (Inr bip0, attach b bip0, s1)"
    using assms by (simp add: alloc_one bip0_def s1_def)
  have seed: "(let bip1 = bip0\<lparr>bip_flags := bip_flags bip0 OR BIP_BLOCK_INTEGRITY\<rparr>;
                   bip2 = bip_set_seed bip1 (bi_sector (bi_iter (attach b bip0)))
               in (if csum_type bi = BLK_INTEGRITY_CSUM_IP
                           then bip2\<lparr>bip_flags := bip_flags bip2 OR BIP_IP_CHECKSUM\<rparr>
                           else bip2)) = bip3"
    by (simp add: bip0_def bip3_def zero_bip_def bip_set_seed_def attach_def zero_iter_def Let_def)
  have eq: "prep_attach k al bi z b s =
      (if bio_op b = REQ_OP_WRITE then
         Some (True, b2\<lparr>bi_integrity := Some (add_size len (bip3\<lparr>bip_vcnt := 1\<rparr>))\<rparr>,
               log [Blk_integrity_generate] ((s1\<lparr>bvecs := (bvecs s1)(a := (bvecs s1 a)(0 := bvec_set_page (virt_to_page buf) len (of_nat (offset_in_page buf))))\<rparr>)
                  \<lparr>mem := generate k (b2\<lparr>bi_integrity := Some (add_size len (bip3\<lparr>bip_vcnt := 1\<rparr>))\<rparr>) (mem s1)\<rparr>))
       else Some (True, b2\<lparr>bi_integrity := Some ((add_size len (bip3\<lparr>bip_vcnt := 1\<rparr>))\<lparr>bio_iter := bi_iter b\<rparr>)\<rparr>,
                  s1\<lparr>bvecs := (bvecs s1)(a := (bvecs s1 a)(0 := bvec_set_page (virt_to_page buf) len (of_nat (offset_in_page buf))))\<rparr>))"
    unfolding prep_attach_def
    using seed
    apply (simp add: assms(1) len_def [symmetric] s0_def [symmetric] al1 Let_def b2_def [symmetric] add dir)
    apply (simp add: b2_def attach_def)
    done
  have fin: "b2\<lparr>bi_integrity := Some x\<rparr> = attach b x" for x
    by (simp add: b2_def attach_def)
  have len1: "add_size len (bip3\<lparr>bip_vcnt := 1\<rparr>) = bip3\<lparr>bip_vcnt := 1, bip_iter := (bip_iter bip3)\<lparr>bi_size := len\<rparr>\<rparr>"
    by (simp add: add_size_def bip3_def)
  show ?thesis
  proof (cases "bio_op b = REQ_OP_WRITE")
    case True
    show ?thesis
      unfolding eq fin len1 len_def [symmetric]
      apply (rule exI [of _ "bip3\<lparr>bip_vcnt := 1, bip_iter := (bip_iter bip3)\<lparr>bi_size := len\<rparr>\<rparr>"])
      apply (rule exI)
      apply (rule conjI)
       apply (simp add: True)
      apply (simp add: True bip3_def log_def bvec_get_def s1_def s0_def REQ_OP_READ_def REQ_OP_WRITE_def)
      done
  next
    case False
    with op have rd: "bio_op b = REQ_OP_READ" by simp
    show ?thesis
      unfolding eq fin len1 len_def [symmetric]
      apply (rule exI [of _ "bip3\<lparr>bip_vcnt := 1, bip_iter := (bip_iter bip3)\<lparr>bi_size := len\<rparr>, bio_iter := bi_iter b\<rparr>"])
      apply (rule exI)
      apply (rule conjI)
       apply (simp add: rd REQ_OP_READ_def REQ_OP_WRITE_def)
      apply (simp add: rd bip3_def log_def bvec_get_def s1_def s0_def REQ_OP_READ_def REQ_OP_WRITE_def)
      done
  qed
qed


lemma ex_bio_write_not_skipped: "\<not> prep_skips (ex_bio 1)"
  by (simp add: prep_skips_def blk_get_integrity_def ex_bio_def ex_dev_def ex_profile_def
      bio_sectors_def SECTOR_SHIFT_def bio_integrity_def REQ_INTEGRITY_def bio_op_def
      REQ_OP_MASK_def REQ_OP_READ_def REQ_OP_WRITE_def BLK_INTEGRITY_NOGENERATE_def)

text \<open>C5 (as stated, refuted). A discard request (operation 3) of 8 sectors, on a device
  with a profile that disables neither verification nor generation, and with no payload
  attached, meets none of the four conditions of the claim; \<open>bio_integrity_prep\<close> still
  returns \<open>true\<close> and leaves the request and the state as they were, through the
  \<^verbatim>\<open>default\<close> case of its switch.\<close>

theorem C5_prep_counterexample:
  "bio_integrity_prep ex_kernel ex_allocs (ex_bio 3) ex_state = Some (True, ex_bio 3, ex_state)
   \<and> blk_get_integrity (bi_bdev (ex_bio 3)) = Some ex_profile
   \<and> bio_sectors (ex_bio 3) = 8
   \<and> bio_integrity (ex_bio 3) = None
   \<and> flags ex_profile AND BLK_INTEGRITY_NOVERIFY = 0
   \<and> flags ex_profile AND BLK_INTEGRITY_NOGENERATE = 0"
  by (simp add: bio_integrity_prep_def blk_get_integrity_def ex_bio_def ex_dev_def ex_profile_def
        bio_sectors_def SECTOR_SHIFT_def bio_integrity_def REQ_INTEGRITY_def bio_op_def
        REQ_OP_MASK_def REQ_OP_READ_def REQ_OP_WRITE_def)

text \<open>C5 (amended). \<open>bio_integrity_prep\<close> returns \<open>true\<close> with the request and the
  state unchanged exactly when one of its early returns applies (\<open>prep_skips\<close>: no profile,
  no sectors, a payload already attached, a read with verification disabled, a write with
  generation disabled, or an operation that is neither a read nor a write). Otherwise, when
  the buffer and the payload are allocated, it returns \<open>true\<close> with a payload attached that
  has one segment out of one, the segment being the buffer with the length
  \<open>bio_integrity_bytes\<close> of the request's sectors (interval count times interval size),
  that length as remaining size and the request's starting sector as seed; for a write the
  checksum generator has been called, for a read the request's iterator is recorded in the
  payload and nothing else has happened.\<close>

theorem C5_prep_amended:
  "(bio_integrity_prep k al b s = Some (True, b, s) \<longleftrightarrow> prep_skips b) \<and>
   (\<not> prep_skips b \<and> buf_mem al = Some buf \<and> bip_mem al = Some a \<and> \<not> bio_has_crypt_ctx b \<longrightarrow>
     (\<exists>bi bip b' s'.
        blk_get_integrity (bi_bdev b) = Some bi
        \<and> bio_integrity_prep k al b s = Some (True, b', s')
        \<and> bio_integrity b' = Some bip
        \<and> bip_vcnt bip = 1 \<and> bip_max_vcnt bip = 1
        \<and> bvec_get s' (bip_vec bip) 0 =
             Some (bvec_set_page (virt_to_page buf) (bio_integrity_bytes bi (bio_sectors b))
                     (of_nat (offset_in_page buf)))
        \<and> bi_size (bip_iter bip) = bio_integrity_bytes bi (bio_sectors b)
        \<and> bi_sector (bip_iter bip) = bi_sector (bi_iter b)
        \<and> (bio_op b = REQ_OP_WRITE \<longrightarrow> trace s' = trace s @ [Blk_integrity_generate])
        \<and> (bio_op b = REQ_OP_READ \<longrightarrow> bio_iter bip = bi_iter b \<and> trace s' = trace s)))"
proof (intro conjI impI)
  show "bio_integrity_prep k al b s = Some (True, b, s) \<longleftrightarrow> prep_skips b"
  proof
    assume r: "bio_integrity_prep k al b s = Some (True, b, s)"
    show "prep_skips b"
    proof (rule ccontr)
      assume ns: "\<not> prep_skips b"
      then obtain bi where bi: "blk_get_integrity (bi_bdev b) = Some bi"
        and eq: "bio_integrity_prep k al b s = prep_attach k al bi
                   (bio_op b = REQ_OP_WRITE \<and> csum_type bi = BLK_INTEGRITY_CSUM_NONE) b s"
        using prep_not_skips by blast
      have none: "bio_integrity b = None" and op: "bio_op b = REQ_OP_READ \<or> bio_op b = REQ_OP_WRITE"
        using ns bi by (auto simp: prep_skips_def)
      show False
      proof (cases "buf_mem al = None \<or> bip_mem al = None \<or> bio_has_crypt_ctx b")
        case True
        from prep_attach_fail [OF True] r eq show False by simp
      next
        case False
        then obtain buf a where "buf_mem al = Some buf" "bip_mem al = Some a" "\<not> bio_has_crypt_ctx b"
          by auto
        from prep_attach_ok [OF this op, of k bi
            "bio_op b = REQ_OP_WRITE \<and> csum_type bi = BLK_INTEGRITY_CSUM_NONE" s]
        obtain bip s' where "prep_attach k al bi
            (bio_op b = REQ_OP_WRITE \<and> csum_type bi = BLK_INTEGRITY_CSUM_NONE) b s
              = Some (True, attach b bip, s')" by blast
        with r eq have "b = attach b bip" by simp
        then have "bio_integrity b = Some bip" using bio_integrity_attach [of b bip] by simp
        with none show False by simp
      qed
    qed
  next
    assume "prep_skips b"
    then show "bio_integrity_prep k al b s = Some (True, b, s)" by (rule prep_skips_noop)
  qed
next
  assume h: "\<not> prep_skips b \<and> buf_mem al = Some buf \<and> bip_mem al = Some a \<and> \<not> bio_has_crypt_ctx b"
  then obtain bi where bi: "blk_get_integrity (bi_bdev b) = Some bi"
    and eq: "bio_integrity_prep k al b s = prep_attach k al bi
               (bio_op b = REQ_OP_WRITE \<and> csum_type bi = BLK_INTEGRITY_CSUM_NONE) b s"
    using prep_not_skips by blast
  have op: "bio_op b = REQ_OP_READ \<or> bio_op b = REQ_OP_WRITE"
    using h bi by (auto simp: prep_skips_def)
  from h have a1: "buf_mem al = Some buf" and a2: "bip_mem al = Some a" and a3: "\<not> bio_has_crypt_ctx b"
    by simp_all
  from prep_attach_ok [OF a1 a2 a3 op, of k bi "bio_op b = REQ_OP_WRITE \<and> csum_type bi = BLK_INTEGRITY_CSUM_NONE" s]
  obtain bip s' where p: "prep_attach k al bi (bio_op b = REQ_OP_WRITE \<and> csum_type bi = BLK_INTEGRITY_CSUM_NONE) b s
        = Some (True, attach b bip, s')"
     "bip_vcnt bip = 1" "bip_max_vcnt bip = 1"
     "bvec_get s' (bip_vec bip) 0 = Some (bvec_set_page (virt_to_page buf)
            (bio_integrity_bytes bi (bio_sectors b)) (of_nat (offset_in_page buf)))"
     "bip_iter bip = \<lparr>bi_sector = bi_sector (bi_iter b), bi_size = bio_integrity_bytes bi (bio_sectors b), bi_idx = 0, bi_bvec_done = 0\<rparr>"
     "bio_op b = REQ_OP_WRITE \<longrightarrow> trace s' = trace s @ [Blk_integrity_generate]"
     "bio_op b = REQ_OP_READ \<longrightarrow> bio_iter bip = bi_iter b \<and> trace s' = trace s"
    by blast
  show "\<exists>bi bip b' s'.
        blk_get_integrity (bi_bdev b) = Some bi
        \<and> bio_integrity_prep k al b s = Some (True, b', s')
        \<and> bio_integrity b' = Some bip
        \<and> bip_vcnt bip = 1 \<and> bip_max_vcnt bip = 1
        \<and> bvec_get s' (bip_vec bip) 0 =
             Some (bvec_set_page (virt_to_page buf) (bio_integrity_bytes bi (bio_sectors b))
                     (of_nat (offset_in_page buf)))
        \<and> bi_size (bip_iter bip) = bio_integrity_bytes bi (bio_sectors b)
        \<and> bi_sector (bip_iter bip) = bi_sector (bi_iter b)
        \<and> (bio_op b = REQ_OP_WRITE \<longrightarrow> trace s' = trace s @ [Blk_integrity_generate])
        \<and> (bio_op b = REQ_OP_READ \<longrightarrow> bio_iter bip = bi_iter b \<and> trace s' = trace s)"
    apply (rule exI [of _ bi], rule exI [of _ bip], rule exI [of _ "attach b bip"], rule exI [of _ s'])
    using bi eq p by (simp add: bio_integrity_attach)
qed


theorem C5_prep_amended_witness:
  "prep_skips (ex_bio 3) \<and> \<not> prep_skips (ex_bio 1)
   \<and> buf_mem ex_allocs = Some 8192 \<and> bip_mem ex_allocs = Some 100
   \<and> \<not> bio_has_crypt_ctx (ex_bio 1)
   \<and> bio_integrity_prep ex_kernel ex_allocs (ex_bio 3) ex_state = Some (True, ex_bio 3, ex_state)
   \<and> (\<exists>bip b' s'.
        bio_integrity_prep ex_kernel ex_allocs (ex_bio 1) ex_state = Some (True, b', s')
        \<and> bio_integrity b' = Some bip \<and> bip_vcnt bip = 1 \<and> bip_max_vcnt bip = 1
        \<and> bvec_get s' (bip_vec bip) 0 = Some \<lparr>bv_page = 2, bv_len = 64, bv_offset = 0\<rparr>
        \<and> bi_size (bip_iter bip) = 64 \<and> bi_sector (bip_iter bip) = 2048
        \<and> trace s' = [Blk_integrity_generate])"
proof -
  have h0: "prep_skips (ex_bio 3)"
    by (simp add: prep_skips_def blk_get_integrity_def ex_bio_def ex_dev_def ex_profile_def
        bio_sectors_def SECTOR_SHIFT_def bio_integrity_def REQ_INTEGRITY_def bio_op_def
        REQ_OP_MASK_def REQ_OP_READ_def REQ_OP_WRITE_def)
  have h1: "\<not> prep_skips (ex_bio 1)" by (rule ex_bio_write_not_skipped)
  have h2: "buf_mem ex_allocs = Some 8192" "bip_mem ex_allocs = Some 100"
    "\<not> bio_has_crypt_ctx (ex_bio 1)"
    by (simp_all add: ex_allocs_def ex_bio_def bio_has_crypt_ctx_def)
  have v: "blk_get_integrity (bi_bdev (ex_bio 1)) = Some ex_profile"
    "bio_integrity_bytes ex_profile (bio_sectors (ex_bio 1)) = 64"
    "bi_sector (bi_iter (ex_bio 1)) = 2048" "bio_op (ex_bio 1) = REQ_OP_WRITE"
    "virt_to_page 8192 = 2" "offset_in_page 8192 = 0" "trace ex_state = []"
    by (simp_all add: blk_get_integrity_def ex_bio_def ex_dev_def ex_profile_def
        bio_integrity_bytes_def bio_integrity_intervals_def bio_sectors_def SECTOR_SHIFT_def
        bio_op_def REQ_OP_MASK_def REQ_OP_WRITE_def virt_to_page_def offset_in_page_def
        PAGE_SIZE_def ex_state_def)
  from C5_prep_amended [of ex_kernel ex_allocs "ex_bio 3" ex_state 8192 100] h0
  have skip: "bio_integrity_prep ex_kernel ex_allocs (ex_bio 3) ex_state
              = Some (True, ex_bio 3, ex_state)"
    by simp
  from C5_prep_amended [of ex_kernel ex_allocs "ex_bio 1" ex_state 8192 100] h1 h2
  have "\<exists>bi bip b' s'.
        blk_get_integrity (bi_bdev (ex_bio 1)) = Some bi
        \<and> bio_integrity_prep ex_kernel ex_allocs (ex_bio 1) ex_state = Some (True, b', s')
        \<and> bio_integrity b' = Some bip
        \<and> bip_vcnt bip = 1 \<and> bip_max_vcnt bip = 1
        \<and> bvec_get s' (bip_vec bip) 0 =
             Some (bvec_set_page (virt_to_page 8192)
                     (bio_integrity_bytes bi (bio_sectors (ex_bio 1)))
                     (of_nat (offset_in_page 8192)))
        \<and> bi_size (bip_iter bip) = bio_integrity_bytes bi (bio_sectors (ex_bio 1))
        \<and> bi_sector (bip_iter bip) = bi_sector (bi_iter (ex_bio 1))
        \<and> (bio_op (ex_bio 1) = REQ_OP_WRITE \<longrightarrow> trace s' = trace ex_state @ [Blk_integrity_generate])
        \<and> (bio_op (ex_bio 1) = REQ_OP_READ \<longrightarrow>
              bio_iter bip = bi_iter (ex_bio 1) \<and> trace s' = trace ex_state)"
    by blast
  then have "\<exists>bip b' s'.
        bio_integrity_prep ex_kernel ex_allocs (ex_bio 1) ex_state = Some (True, b', s')
        \<and> bio_integrity b' = Some bip \<and> bip_vcnt bip = 1 \<and> bip_max_vcnt bip = 1
        \<and> bvec_get s' (bip_vec bip) 0 = Some \<lparr>bv_page = 2, bv_len = 64, bv_offset = 0\<rparr>
        \<and> bi_size (bip_iter bip) = 64 \<and> bi_sector (bip_iter bip) = 2048
        \<and> trace s' = [Blk_integrity_generate]"
    by (auto simp: bvec_set_page_def v)
  with h0 h1 h2 skip show ?thesis by simp
qed

text \<open>C6. When \<open>bio_integrity_prep\<close> gets as far as allocating (none of its early
  returns applies) and an allocation fails, be it the buffer (\<open>kmalloc\<close>) or the payload
  (\<open>bio_integrity_alloc\<close>, which fails when its own allocation fails or the request has
  an encryption context), it returns \<open>false\<close>, the request is the one it was given with
  status \<open>BLK_STS_RESOURCE\<close> and no payload, and the only effects are the release of the
  buffer, if it had been allocated, and the completion of the request.\<close>

theorem C6_prep_alloc_failure:
  assumes "\<not> prep_skips b"
    and "buf_mem al = None \<or> bip_mem al = None \<or> bio_has_crypt_ctx b"
  shows "\<exists>s'. bio_integrity_prep k al b s = Some (False, b\<lparr>bi_status := BLK_STS_RESOURCE\<rparr>, s')
          \<and> trace s' = trace s @ (case buf_mem al of None \<Rightarrow> [] | Some buf \<Rightarrow> [Kfree buf])
                          @ [Bio_endio BLK_STS_RESOURCE]
          \<and> bio_integrity (b\<lparr>bi_status := BLK_STS_RESOURCE\<rparr>) = None"
proof -
  from assms(1) obtain bi where bi: "blk_get_integrity (bi_bdev b) = Some bi"
    and eq: "bio_integrity_prep k al b s = prep_attach k al bi (bio_op b = REQ_OP_WRITE \<and> csum_type bi = BLK_INTEGRITY_CSUM_NONE) b s"
    using prep_not_skips by blast
  have none: "bio_integrity b = None"
    using assms(1) bi by (auto simp: prep_skips_def)
  show ?thesis
    unfolding eq prep_attach_fail [OF assms(2)]
    using none by (auto simp: log_def bio_integrity_def)
qed


theorem C6_prep_alloc_failure_witness:
  "\<not> prep_skips (ex_bio 1) \<and> buf_mem (ex_allocs\<lparr>buf_mem := None\<rparr>) = None
   \<and> (\<exists>s'. bio_integrity_prep ex_kernel (ex_allocs\<lparr>buf_mem := None\<rparr>) (ex_bio 1) ex_state
              = Some (False, (ex_bio 1)\<lparr>bi_status := BLK_STS_RESOURCE\<rparr>, s')
            \<and> trace s' = [Bio_endio BLK_STS_RESOURCE])"
proof -
  have h1: "\<not> prep_skips (ex_bio 1)"
    by (simp add: prep_skips_def blk_get_integrity_def ex_bio_def ex_dev_def ex_profile_def
        bio_sectors_def SECTOR_SHIFT_def bio_integrity_def REQ_INTEGRITY_def bio_op_def
        REQ_OP_MASK_def REQ_OP_READ_def REQ_OP_WRITE_def BLK_INTEGRITY_NOGENERATE_def)
  have h2: "buf_mem (ex_allocs\<lparr>buf_mem := None\<rparr>) = None
            \<or> bip_mem (ex_allocs\<lparr>buf_mem := None\<rparr>) = None \<or> bio_has_crypt_ctx (ex_bio 1)"
    by simp
  from C6_prep_alloc_failure [OF h1 h2, of ex_kernel ex_state] h1
  show ?thesis by (auto simp: ex_state_def)
qed


text \<open>C10. A request that carries an inline-encryption context gets no payload:
  \<open>bio_integrity_alloc\<close> returns the error \<open>-EOPNOTSUPP\<close> for every number of segments
  and every allocator outcome, and leaves the request (so its empty payload slot and its
  flags) and the kernel state as they were.\<close>

theorem C10_alloc_crypt_ctx_unsupported:
  "bio_integrity_alloc al (b\<lparr>bi_crypt_context := True\<rparr>) nr_vecs s =
     (Inl (- EOPNOTSUPP), b\<lparr>bi_crypt_context := True\<rparr>, s)"
  by (simp add: bio_integrity_alloc_def bio_has_crypt_ctx_def)

subsection \<open>The example, traced through the code\<close>


lemma ex_prep_read:
  "bio_integrity_prep ex_kernel ex_allocs (ex_bio 0) ex_state
     = Some (True, ex_prepared 0, ex_prepared_state)"
  by (simp add: bio_integrity_prep_def prep_attach_def bio_integrity_alloc_def
      bio_integrity_add_page_def append_page_def bvec_put_def bvec_get_def add_size_def
      bip_set_seed_def attach_def zero_bip_def zero_iter_def log_def
      blk_get_integrity_def ex_bio_def ex_dev_def ex_profile_def ex_allocs_def ex_state_def
      ex_kernel_def ex_prepared_def ex_prepared_state_def ex_bip_def
      bio_sectors_def SECTOR_SHIFT_def bio_integrity_def REQ_INTEGRITY_def bio_op_def
      bio_data_dir_def bio_has_crypt_ctx_def has_integrity_pool_def
      bio_integrity_bytes_def bio_integrity_intervals_def virt_to_page_def offset_in_page_def
      bvec_set_page_def PAGE_SIZE_def BIO_INLINE_VECS_def bdev_get_queue_def
      REQ_OP_MASK_def REQ_OP_READ_def REQ_OP_WRITE_def BLK_INTEGRITY_NOGENERATE_def
      BLK_INTEGRITY_NOVERIFY_def BIP_BLOCK_INTEGRITY_def BIP_IP_CHECKSUM_def Let_def)

lemma ex_prepared_payload:
  "bio_integrity (ex_prepared 1) = Some ex_bip"
  "bio_integrity (ex_prepared 0) = Some (ex_bip\<lparr>bio_iter := bi_iter (ex_bio 0)\<rparr>)"
  by (simp_all add: ex_prepared_def bio_integrity_def REQ_INTEGRITY_def ex_bio_def)

subsection \<open>Completion\<close>

lemma bvec_get_log: "bvec_get (log es s) p i = bvec_get s p i"
  by (cases p) (simp_all add: bvec_get_def log_def)

lemma bio_integrity_free_eq:
  "bio_integrity b = Some bip \<Longrightarrow>
   bio_integrity_free b s = Some (detach b, log (payload_release b bip) s)"
  by (simp add: bio_integrity_free_def payload_release_def detach_def)

lemma free_buf_and_payload_eq:
  assumes "bio_integrity b = Some bip" "bvec_get s (bip_vec bip) 0 = Some bv"
  shows "free_buf_and_payload b s =
     Some (detach b, log (Kfree (bvec_virt bv) # payload_release b bip) s)"
  using assms by (simp add: free_buf_and_payload_def bio_integrity_free_eq log_def bvec_get_def
      split: option.splits if_splits)

lemma bio_integrity_detach: "bio_integrity (detach b) = None"
  by (simp add: bio_integrity_def detach_def req_integrity_clear)

text \<open>C4. For a completed request that carries a payload with a first segment, on a
  device with a profile: \<open>__bio_integrity_endio\<close> returns \<open>false\<close> exactly when the
  request is a read (\<open>REQ_OP_READ\<close>) without error status and the checksum kind of the
  profile is set; it then only queues the work item and leaves the request, with its payload,
  as it was. In every other case it returns \<open>true\<close> after freeing the buffer of the first
  segment and then the payload, which is detached. The worker \<open>bio_integrity_verify_fn\<close>
  calls the verifier, frees the buffer, releases the payload and completes the request, in
  that order.\<close>

theorem C4_endio:
  assumes bip: "bio_integrity b = Some bip"
    and buf: "bvec_get s (bip_vec bip) 0 = Some bv"
    and bi: "blk_get_integrity (bi_bdev b) = Some bi"
  shows "((\<exists>b' s'. bio_integrity_endio b s = Some (False, b', s'))
            \<longleftrightarrow> bio_op b = REQ_OP_READ \<and> bi_status b = 0 \<and> csum_type bi \<noteq> BLK_INTEGRITY_CSUM_NONE)
     \<and> (bio_op b = REQ_OP_READ \<and> bi_status b = 0 \<and> csum_type bi \<noteq> BLK_INTEGRITY_CSUM_NONE \<longrightarrow>
           bio_integrity_endio b s = Some (False, b, log [Queue_work] s))
     \<and> (\<not> (bio_op b = REQ_OP_READ \<and> bi_status b = 0 \<and> csum_type bi \<noteq> BLK_INTEGRITY_CSUM_NONE) \<longrightarrow>
           bio_integrity_endio b s
             = Some (True, detach b, log (Kfree (bvec_virt bv) # payload_release b bip) s))
     \<and> (\<exists>b'. bio_integrity_verify_fn k b s
             = Some (b', log ([Blk_integrity_verify, Kfree (bvec_virt bv)] @ payload_release b bip
                               @ [Bio_endio (bi_status b')]) s)
            \<and> bio_integrity b' = None)"
proof -
  let ?c = "bio_op b = REQ_OP_READ \<and> bi_status b = 0 \<and> csum_type bi \<noteq> BLK_INTEGRITY_CSUM_NONE"
  have d: "?c \<Longrightarrow> bio_integrity_endio b s = Some (False, b, log [Queue_work] s)"
    using bip bi by (simp add: bio_integrity_endio_def)
  have n: "\<not> ?c \<Longrightarrow> bio_integrity_endio b s
             = Some (True, detach b, log (Kfree (bvec_virt bv) # payload_release b bip) s)"
    using bi by (auto simp: bio_integrity_endio_def Let_def free_buf_and_payload_eq [OF bip buf])
  have v: "\<exists>b'. bio_integrity_verify_fn k b s
             = Some (b', log ([Blk_integrity_verify, Kfree (bvec_virt bv)] @ payload_release b bip
                               @ [Bio_endio (bi_status b')]) s)
            \<and> bio_integrity b' = None"
  proof -
    define b1 where "b1 = (if verify k b (mem s) \<noteq> 0 then b\<lparr>bi_status := verify k b (mem s)\<rparr> else b)"
    have b1: "bio_integrity b1 = Some bip" "payload_release b1 bip = payload_release b bip"
      using bip by (auto simp: b1_def bio_integrity_def payload_release_def has_integrity_pool_def)
    have buf1: "bvec_get (log [Blk_integrity_verify] s) (bip_vec bip) 0 = Some bv"
      using buf by (simp add: bvec_get_log)
    have fb: "free_buf_and_payload b1 (log [Blk_integrity_verify] s)
        = Some (detach b1, log (Kfree (bvec_virt bv) # payload_release b bip)
                             (log [Blk_integrity_verify] s))"
      using free_buf_and_payload_eq [OF b1(1) buf1] b1(2) by simp
    have "bio_integrity_verify_fn k b s
        = Some (detach b1, log ([Blk_integrity_verify, Kfree (bvec_virt bv)] @ payload_release b bip
                               @ [Bio_endio (bi_status (detach b1))]) s)"
      unfolding bio_integrity_verify_fn_def Let_def b1_def [symmetric] fb
      by (simp add: log_def)
    then show ?thesis using bio_integrity_detach [of b1] by blast
  qed
  from d n v show ?thesis by (cases ?c) auto
qed


theorem C4_endio_witness:
  "bio_integrity (ex_prepared 0) = Some (ex_bip\<lparr>bio_iter := bi_iter (ex_bio 0)\<rparr>)
   \<and> bvec_get ex_prepared_state (Some 100) 0 = Some \<lparr>bv_page = 2, bv_len = 64, bv_offset = 0\<rparr>
   \<and> blk_get_integrity (bi_bdev (ex_prepared 0)) = Some ex_profile
   \<and> bio_op (ex_prepared 0) = REQ_OP_READ \<and> bi_status (ex_prepared 0) = 0
   \<and> csum_type ex_profile \<noteq> BLK_INTEGRITY_CSUM_NONE
   \<and> bio_integrity_endio (ex_prepared 0) ex_prepared_state
        = Some (False, ex_prepared 0, log [Queue_work] ex_prepared_state)
   \<and> bio_op (ex_prepared 1) \<noteq> REQ_OP_READ
   \<and> bio_integrity_endio (ex_prepared 1) ex_prepared_state
        = Some (True, detach (ex_prepared 1), log [Kfree 8192, Free_bip False] ex_prepared_state)
   \<and> (\<exists>b'. bio_integrity_verify_fn ex_kernel (ex_prepared 0) ex_prepared_state
        = Some (b', log [Blk_integrity_verify, Kfree 8192, Free_bip False, Bio_endio 0]
                      ex_prepared_state))"
proof -
  have p0: "bio_integrity (ex_prepared 0) = Some (ex_bip\<lparr>bio_iter := bi_iter (ex_bio 0)\<rparr>)"
    and p1: "bio_integrity (ex_prepared 1) = Some ex_bip"
    by (rule ex_prepared_payload)+
  have g: "bvec_get ex_prepared_state (Some 100) 0 = Some \<lparr>bv_page = 2, bv_len = 64, bv_offset = 0\<rparr>"
    by (simp add: bvec_get_def ex_prepared_state_def ex_state_def)
  have g0: "bvec_get ex_prepared_state (bip_vec (ex_bip\<lparr>bio_iter := bi_iter (ex_bio 0)\<rparr>)) 0
              = Some \<lparr>bv_page = 2, bv_len = 64, bv_offset = 0\<rparr>"
    and g1: "bvec_get ex_prepared_state (bip_vec ex_bip) 0
              = Some \<lparr>bv_page = 2, bv_len = 64, bv_offset = 0\<rparr>"
    using g by (simp_all add: ex_bip_def)
  have i: "blk_get_integrity (bi_bdev (ex_prepared opf)) = Some ex_profile" for opf
    by (simp add: blk_get_integrity_def ex_prepared_def ex_bio_def ex_dev_def ex_profile_def)
  have f: "bio_op (ex_prepared 0) = REQ_OP_READ" "bi_status (ex_prepared 0) = 0"
    "csum_type ex_profile \<noteq> BLK_INTEGRITY_CSUM_NONE" "bio_op (ex_prepared 1) \<noteq> REQ_OP_READ"
    by (simp_all add: bio_op_def ex_prepared_def ex_bio_def ex_profile_def REQ_OP_MASK_def
        REQ_OP_READ_def REQ_INTEGRITY_def)
  have r: "payload_release (ex_prepared opf) x = [Free_bip False]" for opf x
    by (simp add: payload_release_def has_integrity_pool_def ex_prepared_def ex_bio_def)
  have v: "bvec_virt \<lparr>bv_page = 2, bv_len = 64, bv_offset = 0\<rparr> = 8192"
    by (simp add: bvec_virt_def PAGE_SIZE_def)
  have fb: "free_buf_and_payload (ex_prepared 0) (log [Blk_integrity_verify] ex_prepared_state)
        = Some (detach (ex_prepared 0),
                log [Kfree 8192, Free_bip False] (log [Blk_integrity_verify] ex_prepared_state))"
    using free_buf_and_payload_eq [OF p0, of "log [Blk_integrity_verify] ex_prepared_state"
        "\<lparr>bv_page = 2, bv_len = 64, bv_offset = 0\<rparr>"] g0
    by (simp add: bvec_get_log r v)
  have st: "bi_status (detach (ex_prepared 0)) = 0"
    by (simp add: detach_def ex_prepared_def ex_bio_def)
  have vf: "bio_integrity_verify_fn ex_kernel (ex_prepared 0) ex_prepared_state
        = Some (detach (ex_prepared 0),
                log [Blk_integrity_verify, Kfree 8192, Free_bip False, Bio_endio 0] ex_prepared_state)"
    unfolding bio_integrity_verify_fn_def
    by (simp add: ex_kernel_def fb st) (simp add: log_def)
  from C4_endio [OF p0 g0 i, of ex_kernel] f
  have a: "bio_integrity_endio (ex_prepared 0) ex_prepared_state
        = Some (False, ex_prepared 0, log [Queue_work] ex_prepared_state)"
    by simp
  from vf have b: "\<exists>b'. bio_integrity_verify_fn ex_kernel (ex_prepared 0) ex_prepared_state
        = Some (b', log [Blk_integrity_verify, Kfree 8192, Free_bip False, Bio_endio 0]
                      ex_prepared_state)"
    by blast
  from C4_endio [OF p1 g1 i, of ex_kernel] f
  have c: "bio_integrity_endio (ex_prepared 1) ex_prepared_state
        = Some (True, detach (ex_prepared 1), log [Kfree 8192, Free_bip False] ex_prepared_state)"
    by (simp add: r v)
  from p0 g i f a b c show ?thesis by simp
qed


subsection \<open>Cloning\<close>

lemma alloc_zero:
  "bio_integrity_alloc al b 0 s =
    (if bio_has_crypt_ctx b then (Inl (- EOPNOTSUPP), b, s)
     else case bip_mem al of None \<Rightarrow> (Inl (- ENOMEM), b, s)
       | Some a \<Rightarrow> (Inr zero_bip, attach b zero_bip, s))"
  by (auto simp: bio_integrity_alloc_def BIO_INLINE_VECS_def Let_def zero_bip_def split: option.splits)

lemma ex_clone_eq:
  "bio_integrity_clone ex_allocs ex_half (ex_prepared 1) ex_prepared_state
      = Some (0, ex_clone, ex_prepared_state)"
  by (simp add: bio_integrity_clone_def ex_prepared_payload alloc_zero bio_has_crypt_ctx_def
      ex_half_def ex_bio_def ex_allocs_def attach_def zero_bip_def ex_bip_def ex_clone_def
      BIP_BLOCK_INTEGRITY_def)

lemma ex_clone_payload:
  "bio_integrity ex_clone = Some \<lparr>bip_iter = \<lparr>bi_sector = 2048, bi_size = 64, bi_idx = 0, bi_bvec_done = 0\<rparr>,
        bip_vcnt = 0, bip_max_vcnt = 0, bip_flags = 0, bio_iter = zero_iter, bip_vec = Some 100\<rparr>"
  by (simp add: ex_clone_def bio_integrity_def REQ_INTEGRITY_def ex_half_def ex_bio_def)

lemma ex_clone_trim:
  "bio_integrity_trim ex_clone
      = Some (ex_clone\<lparr>bi_integrity := Some \<lparr>bip_iter = \<lparr>bi_sector = 2048, bi_size = 32, bi_idx = 0, bi_bvec_done = 0\<rparr>,
        bip_vcnt = 0, bip_max_vcnt = 0, bip_flags = 0, bio_iter = zero_iter, bip_vec = Some 100\<rparr>\<rparr>)"
proof -
  have "blk_get_integrity (bi_bdev ex_clone) = Some ex_profile"
    "bio_integrity_bytes ex_profile (bio_sectors ex_clone) = 32"
    by (simp_all add: blk_get_integrity_def ex_clone_def ex_half_def ex_bio_def ex_dev_def
        ex_profile_def bio_integrity_bytes_def bio_integrity_intervals_def bio_sectors_def
        SECTOR_SHIFT_def)
  then show ?thesis by (simp add: bio_integrity_trim_def ex_clone_payload)
qed

text \<open>C9 (as stated, refuted). The clone made for the first half of the prepared request
  holds the address of the source's segment array, but its own cursor: trimming the clone
  sets the remaining size of the clone to 32 and the source still has 64. The cursor is
  copied (\<^verbatim>\<open>bip->bip_iter = bip_src->bip_iter\<close> assigns the structure), not shared.\<close>

theorem C9_clone_counterexample:
  "bio_integrity_clone ex_allocs ex_half (ex_prepared 1) ex_prepared_state
      = Some (0, ex_clone, ex_prepared_state)
   \<and> bio_integrity_trim ex_clone
      = Some (ex_clone\<lparr>bi_integrity := Some \<lparr>bip_iter = \<lparr>bi_sector = 2048, bi_size = 32, bi_idx = 0, bi_bvec_done = 0\<rparr>,
        bip_vcnt = 0, bip_max_vcnt = 0, bip_flags = 0, bio_iter = zero_iter, bip_vec = Some 100\<rparr>\<rparr>)
   \<and> map_option bip_iter (bio_integrity (ex_prepared 1))
      = Some \<lparr>bi_sector = 2048, bi_size = 64, bi_idx = 0, bi_bvec_done = 0\<rparr>"
  by (simp add: ex_clone_eq ex_clone_trim ex_prepared_payload ex_bip_def)

text \<open>C9 (amended). When the source has a payload, \<open>bio_integrity_clone\<close> succeeds
  exactly when the payload shell can be allocated (the allocation succeeds and the
  destination has no encryption context). The destination then carries a payload with no
  segment slots of its own (\<open>bip_vcnt = bip_max_vcnt = 0\<close>), whose \<open>bip_vec\<close> is the
  address of the source's segment array (shared by reference), whose cursor is a copy, by
  value, of the source's cursor, and whose flags are the source's without
  \<open>BIP_BLOCK_INTEGRITY\<close>; the kernel state (segment arrays, memory) is unchanged, so
  nothing is duplicated.\<close>

theorem C9_clone_amended:
  assumes src: "bio_integrity b_src = Some bip_src"
  shows "((\<exists>b' s'. bio_integrity_clone al b b_src s = Some (0, b', s'))
            \<longleftrightarrow> bip_mem al \<noteq> None \<and> \<not> bio_has_crypt_ctx b)
     \<and> (\<forall>b' s'. bio_integrity_clone al b b_src s = Some (0, b', s') \<longrightarrow>
           s' = s \<and>
           (\<exists>bip. bio_integrity b' = Some bip \<and> bip_vcnt bip = 0 \<and> bip_max_vcnt bip = 0
              \<and> bip_vec bip = bip_vec bip_src
              \<and> bip_iter bip = bip_iter bip_src
              \<and> bip_flags bip = bip_flags bip_src AND NOT BIP_BLOCK_INTEGRITY))"
  using src
  by (auto simp: bio_integrity_clone_def alloc_zero bio_integrity_attach_upd zero_bip_def
      EOPNOTSUPP_def ENOMEM_def split: option.splits)


theorem C9_clone_amended_witness:
  "bio_integrity (ex_prepared 1) = Some ex_bip
   \<and> bip_mem ex_allocs \<noteq> None \<and> \<not> bio_has_crypt_ctx ex_half
   \<and> bio_integrity_clone ex_allocs ex_half (ex_prepared 1) ex_prepared_state
        = Some (0, ex_clone, ex_prepared_state)
   \<and> (\<exists>bip. bio_integrity ex_clone = Some bip \<and> bip_vcnt bip = 0 \<and> bip_max_vcnt bip = 0
          \<and> bip_vec bip = Some 100 \<and> bip_iter bip = bip_iter ex_bip \<and> bip_flags bip = 0)"
proof -
  have h: "bio_integrity (ex_prepared 1) = Some ex_bip" by (rule ex_prepared_payload)
  have c: "bio_integrity_clone ex_allocs ex_half (ex_prepared 1) ex_prepared_state
        = Some (0, ex_clone, ex_prepared_state)"
    by (rule ex_clone_eq)
  have a: "bip_mem ex_allocs \<noteq> None" "\<not> bio_has_crypt_ctx ex_half"
    by (simp_all add: ex_allocs_def ex_half_def ex_bio_def bio_has_crypt_ctx_def)
  from C9_clone_amended [OF h, of ex_allocs ex_half ex_prepared_state] c
  have "\<exists>bip. bio_integrity ex_clone = Some bip \<and> bip_vcnt bip = 0 \<and> bip_max_vcnt bip = 0
              \<and> bip_vec bip = bip_vec ex_bip
              \<and> bip_iter bip = bip_iter ex_bip
              \<and> bip_flags bip = bip_flags ex_bip AND NOT BIP_BLOCK_INTEGRITY"
    by blast
  then have "\<exists>bip. bio_integrity ex_clone = Some bip \<and> bip_vcnt bip = 0 \<and> bip_max_vcnt bip = 0
          \<and> bip_vec bip = Some 100 \<and> bip_iter bip = bip_iter ex_bip \<and> bip_flags bip = 0"
    by (simp add: ex_bip_def)
  with h a c show ?thesis by simp
qed


subsection \<open>Adding a segment\<close>

lemma bvec_put_eq: "i < slots s a \<Longrightarrow> bvec_put s (Some a) i bv = Some (set_slot s a i bv)"
  by (simp add: bvec_put_def set_slot_def)

lemma bvec_get_eq: "i < slots s a \<Longrightarrow> bvec_get s (Some a) i = Some (bvecs s a i)"
  by (simp add: bvec_get_def)

lemma add_page_merge:
  assumes "bio_integrity b = Some bip" "bip_vec bip = Some a" "bip_vcnt bip \<noteq> 0"
    "unat (bip_vcnt bip) - 1 < slots s a"
    "hw_mergeable k (bdev_get_queue (bi_bdev b)) (bvecs s a (unat (bip_vcnt bip) - 1)) pg len off"
  shows "bio_integrity_add_page k b pg len off s =
              Some (len, b\<lparr>bi_integrity := Some (add_size len bip)\<rparr>,
                    set_slot s a (unat (bip_vcnt bip) - 1)
                      ((bvecs s a (unat (bip_vcnt bip) - 1))
                         \<lparr>bv_len := bv_len (bvecs s a (unat (bip_vcnt bip) - 1)) + len\<rparr>))"
  using assms
  by (simp add: bio_integrity_add_page_def bvec_get_eq bvec_put_eq
        bvec_try_merge_hw_page_def Let_def word_neq_0_conv)

lemma add_page_no_merge:
  assumes "bio_integrity b = Some bip" "bip_vec bip = Some a" "bip_vcnt bip \<noteq> 0"
    "unat (bip_vcnt bip) - 1 < slots s a"
    "\<not> hw_mergeable k (bdev_get_queue (bi_bdev b)) (bvecs s a (unat (bip_vcnt bip) - 1)) pg len off"
  shows "bio_integrity_add_page k b pg len off s =
      (if bip_vcnt bip \<ge> min (bip_max_vcnt bip) (queue_max_integrity_segments (bdev_get_queue (bi_bdev b)))
       then Some (0, b, s)
       else if gap_to_prev k (limits (bdev_get_queue (bi_bdev b))) (bvecs s a (unat (bip_vcnt bip) - 1)) off
       then Some (0, b, s) else append_page b bip pg len off s)"
  using assms
  by (simp add: bio_integrity_add_page_def bvec_get_eq
        bvec_try_merge_hw_page_def Let_def word_neq_0_conv)

lemma add_page_refuse:
  assumes "bio_integrity b = Some bip" "bip_vec bip = Some a" "bip_vcnt bip \<noteq> 0"
    "unat (bip_vcnt bip) - 1 < slots s a"
    "\<not> hw_mergeable k (bdev_get_queue (bi_bdev b)) (bvecs s a (unat (bip_vcnt bip) - 1)) pg len off"
    "bip_vcnt bip \<ge> min (bip_max_vcnt bip) (queue_max_integrity_segments (bdev_get_queue (bi_bdev b)))
           \<or> gap_to_prev k (limits (bdev_get_queue (bi_bdev b))) (bvecs s a (unat (bip_vcnt bip) - 1)) off"
  shows "bio_integrity_add_page k b pg len off s = Some (0, b, s)"
  unfolding add_page_no_merge [OF assms(1-5)]
  using assms(6)
  by (cases "bip_vcnt bip \<ge> min (bip_max_vcnt bip) (queue_max_integrity_segments (bdev_get_queue (bi_bdev b)))")
     simp_all

lemma add_page_append:
  assumes "bio_integrity b = Some bip" "bip_vec bip = Some a" "bip_vcnt bip \<noteq> 0"
    "unat (bip_vcnt bip) < slots s a"
    "\<not> hw_mergeable k (bdev_get_queue (bi_bdev b)) (bvecs s a (unat (bip_vcnt bip) - 1)) pg len off"
    "bip_vcnt bip < min (bip_max_vcnt bip) (queue_max_integrity_segments (bdev_get_queue (bi_bdev b)))"
    "\<not> gap_to_prev k (limits (bdev_get_queue (bi_bdev b))) (bvecs s a (unat (bip_vcnt bip) - 1)) off"
  shows "bio_integrity_add_page k b pg len off s =
              Some (len, b\<lparr>bi_integrity := Some (add_size len (bip\<lparr>bip_vcnt := bip_vcnt bip + 1\<rparr>))\<rparr>,
                    set_slot s a (unat (bip_vcnt bip)) (bvec_set_page pg len off))"
proof -
  have l: "unat (bip_vcnt bip) - 1 < slots s a" using assms(4) by simp
  have n: "\<not> bip_vcnt bip \<ge> min (bip_max_vcnt bip) (queue_max_integrity_segments (bdev_get_queue (bi_bdev b)))"
    using assms(6) by (simp only: not_le)
  have "bio_integrity_add_page k b pg len off s = append_page b bip pg len off s"
    unfolding add_page_no_merge [OF assms(1-3) l assms(5)]
    using n assms(7) by (simp only: if_False)
  then show ?thesis
    using assms(2,4) by (simp add: append_page_def bvec_put_eq)
qed

lemma add_page_empty:
  assumes "bio_integrity b = Some bip" "bip_vec bip = Some a" "bip_vcnt bip = 0" "0 < slots s a"
  shows "bio_integrity_add_page k b pg len off s =
              Some (len, b\<lparr>bi_integrity := Some (add_size len (bip\<lparr>bip_vcnt := 1\<rparr>))\<rparr>,
                    set_slot s a 0 (bvec_set_page pg len off))"
  using add_page_first [OF assms(1) assms(3) assms(2) assms(4), of k pg len off] by (simp add: set_slot_def)

lemma vcnt_last_slot:
  assumes "bip_vcnt bip \<le> bip_max_vcnt bip" "unat (bip_max_vcnt bip) \<le> slots s a" "bip_vcnt bip \<noteq> 0"
  shows "unat (bip_vcnt bip) - 1 < slots s a"
proof -
  have "unat (bip_vcnt bip) \<le> slots s a"
    using assms(1,2) by (simp add: word_le_nat_alt)
  moreover have "0 < unat (bip_vcnt bip)"
    using assms(3) by (simp add: unat_gt_0)
  ultimately show ?thesis by arith
qed

lemma vcnt_next_slot:
  assumes "unat (bip_max_vcnt bip) \<le> slots s a" "bip_vcnt bip < min (bip_max_vcnt bip) x"
  shows "unat (bip_vcnt bip) < slots s a"
proof -
  from assms(2) have "bip_vcnt bip < bip_max_vcnt bip" by simp
  then have "unat (bip_vcnt bip) < unat (bip_max_vcnt bip)" by (simp add: word_less_nat_alt)
  with assms(1) show ?thesis by arith
qed

lemma ex_fresh_payload:
  "bio_integrity ex_fresh = Some (zero_bip\<lparr>bip_max_vcnt := 1, bip_vec := Some 100\<rparr>)"
  by (simp add: ex_fresh_def bio_integrity_def REQ_INTEGRITY_def ex_bio_def)

lemma ex_room_payload: "bio_integrity ex_room = Some (ex_bip\<lparr>bip_max_vcnt := 2\<rparr>)"
  by (simp add: ex_room_def ex_prepared_def bio_integrity_def REQ_INTEGRITY_def ex_bio_def)

lemma ex_queues:
  "queue_max_integrity_segments (bdev_get_queue (bi_bdev ex_fresh)) = 0"
  "queue_max_integrity_segments (bdev_get_queue (bi_bdev (ex_prepared 1))) = 2"
  "queue_max_integrity_segments (bdev_get_queue (bi_bdev ex_room)) = 2"
  by (simp_all add: queue_max_integrity_segments_def bdev_get_queue_def ex_fresh_def
      ex_nolimit_dev_def ex_prepared_def ex_room_def ex_bio_def ex_dev_def)

text \<open>C2 (as stated, refuted). A payload that has just been allocated with one slot has
  no segment, and on a queue that reports 0 integrity segments its segment count (0) is
  already at \<open>min(bip_max_vcnt, queue_max_integrity_segments)\<close> (0); the claim has
  \<open>bio_integrity_add_page\<close> return 0 and leave the payload unchanged. It returns the
  length, 64, and the payload has the new segment: the limits are only consulted inside
  \<^verbatim>\<open>if (bip->bip_vcnt > 0)\<close>.\<close>

theorem C2_add_page_counterexample:
  "bio_integrity ex_fresh = Some (zero_bip\<lparr>bip_max_vcnt := 1, bip_vec := Some 100\<rparr>)
   \<and> bip_vcnt (zero_bip\<lparr>bip_max_vcnt := 1, bip_vec := Some 100\<rparr>) = 0
   \<and> min (bip_max_vcnt (zero_bip\<lparr>bip_max_vcnt := 1, bip_vec := Some 100\<rparr>))
          (queue_max_integrity_segments (bdev_get_queue (bi_bdev ex_fresh))) = 0
   \<and> bio_integrity_add_page ex_kernel ex_fresh 2 64 0 ex_fresh_state
      = Some (64,
              ex_fresh\<lparr>bi_integrity := Some (zero_bip\<lparr>bip_max_vcnt := 1, bip_vec := Some 100,
                  bip_vcnt := 1, bip_iter := zero_iter\<lparr>bi_size := 64\<rparr>\<rparr>)\<rparr>,
              set_slot ex_fresh_state 100 0 \<lparr>bv_page = 2, bv_len = 64, bv_offset = 0\<rparr>)"
  by (simp add: ex_fresh_payload ex_queues bio_integrity_add_page_def append_page_def
      bvec_put_def set_slot_def ex_fresh_state_def ex_state_def zero_bip_def add_size_def
      bvec_set_page_def zero_iter_def)

text \<open>C2 (amended). For a payload whose segments fit its array (\<open>bip_vcnt \<le> bip_max_vcnt\<close>,
  the array having at least \<open>bip_max_vcnt\<close> elements), \<open>bio_integrity_add_page\<close> behaves as
  follows. When the payload has a segment already: if the hardware merge check accepts the
  region after the last segment, that segment grows by \<open>len\<close>, the remaining size grows
  by \<open>len\<close>, the segment count is unchanged and the result is \<open>len\<close>; otherwise, if the
  segment count has reached \<open>min(bip_max_vcnt, queue_max_integrity_segments)\<close> or the region
  would leave a gap to the last segment, the result is 0 and nothing changes; otherwise
  the region becomes a new last segment, the segment count grows by one, the remaining size
  by \<open>len\<close>, and the result is \<open>len\<close>. When the payload has no segment yet, the region
  becomes its first segment, whatever the limits; count, size and result are as in the last
  case.\<close>

theorem C2_add_page_amended:
  assumes bip: "bio_integrity b = Some bip" and vec: "bip_vec bip = Some a"
    and cnt: "bip_vcnt bip \<le> bip_max_vcnt bip" and cap: "unat (bip_max_vcnt bip) \<le> slots s a"
  shows "(bip_vcnt bip \<noteq> 0 \<and>
          hw_mergeable k (bdev_get_queue (bi_bdev b)) (bvecs s a (unat (bip_vcnt bip) - 1)) pg len off \<longrightarrow>
            bio_integrity_add_page k b pg len off s =
              Some (len, b\<lparr>bi_integrity := Some (add_size len bip)\<rparr>,
                    set_slot s a (unat (bip_vcnt bip) - 1)
                      ((bvecs s a (unat (bip_vcnt bip) - 1))
                         \<lparr>bv_len := bv_len (bvecs s a (unat (bip_vcnt bip) - 1)) + len\<rparr>)))
     \<and> (bip_vcnt bip \<noteq> 0 \<and>
          \<not> hw_mergeable k (bdev_get_queue (bi_bdev b)) (bvecs s a (unat (bip_vcnt bip) - 1)) pg len off \<and>
          (bip_vcnt bip \<ge> min (bip_max_vcnt bip) (queue_max_integrity_segments (bdev_get_queue (bi_bdev b)))
           \<or> gap_to_prev k (limits (bdev_get_queue (bi_bdev b))) (bvecs s a (unat (bip_vcnt bip) - 1)) off) \<longrightarrow>
            bio_integrity_add_page k b pg len off s = Some (0, b, s))
     \<and> (bip_vcnt bip \<noteq> 0 \<and>
          \<not> hw_mergeable k (bdev_get_queue (bi_bdev b)) (bvecs s a (unat (bip_vcnt bip) - 1)) pg len off \<and>
          bip_vcnt bip < min (bip_max_vcnt bip) (queue_max_integrity_segments (bdev_get_queue (bi_bdev b))) \<and>
          \<not> gap_to_prev k (limits (bdev_get_queue (bi_bdev b))) (bvecs s a (unat (bip_vcnt bip) - 1)) off \<longrightarrow>
            bio_integrity_add_page k b pg len off s =
              Some (len, b\<lparr>bi_integrity := Some (add_size len (bip\<lparr>bip_vcnt := bip_vcnt bip + 1\<rparr>))\<rparr>,
                    set_slot s a (unat (bip_vcnt bip)) (bvec_set_page pg len off)))
     \<and> (bip_vcnt bip = 0 \<and> 0 < slots s a \<longrightarrow>
            bio_integrity_add_page k b pg len off s =
              Some (len, b\<lparr>bi_integrity := Some (add_size len (bip\<lparr>bip_vcnt := 1\<rparr>))\<rparr>,
                    set_slot s a 0 (bvec_set_page pg len off)))"
proof (intro conjI impI; elim conjE)
  assume "bip_vcnt bip \<noteq> 0"
    and "hw_mergeable k (bdev_get_queue (bi_bdev b)) (bvecs s a (unat (bip_vcnt bip) - 1)) pg len off"
  then show "bio_integrity_add_page k b pg len off s =
              Some (len, b\<lparr>bi_integrity := Some (add_size len bip)\<rparr>,
                    set_slot s a (unat (bip_vcnt bip) - 1)
                      ((bvecs s a (unat (bip_vcnt bip) - 1))
                         \<lparr>bv_len := bv_len (bvecs s a (unat (bip_vcnt bip) - 1)) + len\<rparr>))"
    using add_page_merge [OF bip vec _ vcnt_last_slot [OF cnt cap]] by blast
next
  assume "bip_vcnt bip \<noteq> 0"
    and "\<not> hw_mergeable k (bdev_get_queue (bi_bdev b)) (bvecs s a (unat (bip_vcnt bip) - 1)) pg len off"
    and "bip_vcnt bip \<ge> min (bip_max_vcnt bip) (queue_max_integrity_segments (bdev_get_queue (bi_bdev b)))
           \<or> gap_to_prev k (limits (bdev_get_queue (bi_bdev b))) (bvecs s a (unat (bip_vcnt bip) - 1)) off"
  then show "bio_integrity_add_page k b pg len off s = Some (0, b, s)"
    using add_page_refuse [OF bip vec _ vcnt_last_slot [OF cnt cap]] by blast
next
  assume "bip_vcnt bip \<noteq> 0"
    and "\<not> hw_mergeable k (bdev_get_queue (bi_bdev b)) (bvecs s a (unat (bip_vcnt bip) - 1)) pg len off"
    and "bip_vcnt bip < min (bip_max_vcnt bip) (queue_max_integrity_segments (bdev_get_queue (bi_bdev b)))"
    and "\<not> gap_to_prev k (limits (bdev_get_queue (bi_bdev b))) (bvecs s a (unat (bip_vcnt bip) - 1)) off"
  then show "bio_integrity_add_page k b pg len off s =
              Some (len, b\<lparr>bi_integrity := Some (add_size len (bip\<lparr>bip_vcnt := bip_vcnt bip + 1\<rparr>))\<rparr>,
                    set_slot s a (unat (bip_vcnt bip)) (bvec_set_page pg len off))"
    using add_page_append [OF bip vec _ vcnt_next_slot [OF cap]] by blast
next
  assume "bip_vcnt bip = 0" and "0 < slots s a"
  then show "bio_integrity_add_page k b pg len off s =
              Some (len, b\<lparr>bi_integrity := Some (add_size len (bip\<lparr>bip_vcnt := 1\<rparr>))\<rparr>,
                    set_slot s a 0 (bvec_set_page pg len off))"
    by (rule add_page_empty [OF bip vec])
qed

theorem C2_add_page_amended_witness:
  "bio_integrity_add_page ex_kernel (ex_prepared 1) 2 8 64 ex_prepared_state
     = Some (8, (ex_prepared 1)\<lparr>bi_integrity := Some (add_size 8 ex_bip)\<rparr>,
             set_slot ex_prepared_state 100 0 \<lparr>bv_page = 2, bv_len = 72, bv_offset = 0\<rparr>)
   \<and> bio_integrity_add_page ex_kernel (ex_prepared 1) 5 8 0 ex_prepared_state
     = Some (0, ex_prepared 1, ex_prepared_state)
   \<and> bio_integrity_add_page ex_kernel ex_room 5 8 0 ex_room_state
     = Some (8, ex_room\<lparr>bi_integrity := Some (add_size 8 (ex_bip\<lparr>bip_max_vcnt := 2, bip_vcnt := 2\<rparr>))\<rparr>,
             set_slot ex_room_state 100 1 \<lparr>bv_page = 5, bv_len = 8, bv_offset = 0\<rparr>)
   \<and> bio_integrity_add_page ex_kernel ex_fresh 2 64 0 ex_fresh_state
     = Some (64, ex_fresh\<lparr>bi_integrity := Some (add_size 64 (zero_bip\<lparr>bip_max_vcnt := 1, bip_vec := Some 100, bip_vcnt := 1\<rparr>))\<rparr>,
             set_slot ex_fresh_state 100 0 \<lparr>bv_page = 2, bv_len = 64, bv_offset = 0\<rparr>)"
proof -
  have seg: "bvecs ex_prepared_state 100 0 = \<lparr>bv_page = 2, bv_len = 64, bv_offset = 0\<rparr>"
    "bvecs ex_room_state 100 0 = \<lparr>bv_page = 2, bv_len = 64, bv_offset = 0\<rparr>"
    "slots ex_prepared_state 100 = 1" "slots ex_room_state 100 = 2" "slots ex_fresh_state 100 = 1"
    by (simp_all add: ex_prepared_state_def ex_room_state_def ex_fresh_state_def ex_state_def)
  have mrg: "hw_mergeable ex_kernel q \<lparr>bv_page = 2, bv_len = 64, bv_offset = 0\<rparr> 2 8 64"
    "\<not> hw_mergeable ex_kernel q \<lparr>bv_page = 2, bv_len = 64, bv_offset = 0\<rparr> 5 8 0"
    "\<not> gap_to_prev ex_kernel l \<lparr>bv_page = 2, bv_len = 64, bv_offset = 0\<rparr> 0" for q l
    by (simp_all add: ex_kernel_def bvec_virt_def PAGE_SIZE_def)
  have flds: "bip_vcnt ex_bip = 1" "bip_max_vcnt ex_bip = 1" "bip_vec ex_bip = Some 100"
    by (simp_all add: ex_bip_def)
  from C2_add_page_amended [OF ex_prepared_payload(1), of 100 ex_prepared_state ex_kernel 2 8 64]
  have m: "bio_integrity_add_page ex_kernel (ex_prepared 1) 2 8 64 ex_prepared_state
     = Some (8, (ex_prepared 1)\<lparr>bi_integrity := Some (add_size 8 ex_bip)\<rparr>,
             set_slot ex_prepared_state 100 0 \<lparr>bv_page = 2, bv_len = 72, bv_offset = 0\<rparr>)"
    by (simp add: flds seg mrg)
  from C2_add_page_amended [OF ex_prepared_payload(1), of 100 ex_prepared_state ex_kernel 5 8 0]
  have f: "bio_integrity_add_page ex_kernel (ex_prepared 1) 5 8 0 ex_prepared_state
     = Some (0, ex_prepared 1, ex_prepared_state)"
    by (simp add: flds seg mrg ex_queues)
  from C2_add_page_amended [OF ex_room_payload, of 100 ex_room_state ex_kernel 5 8 0]
  have a: "bio_integrity_add_page ex_kernel ex_room 5 8 0 ex_room_state
     = Some (8, ex_room\<lparr>bi_integrity := Some (add_size 8 (ex_bip\<lparr>bip_max_vcnt := 2, bip_vcnt := 2\<rparr>))\<rparr>,
             set_slot ex_room_state 100 1 \<lparr>bv_page = 5, bv_len = 8, bv_offset = 0\<rparr>)"
    by (simp add: flds seg mrg ex_queues bvec_set_page_def)
  from C2_add_page_amended [OF ex_fresh_payload, of 100 ex_fresh_state ex_kernel 2 64 0]
  have z: "bio_integrity_add_page ex_kernel ex_fresh 2 64 0 ex_fresh_state
     = Some (64, ex_fresh\<lparr>bi_integrity := Some (add_size 64 (zero_bip\<lparr>bip_max_vcnt := 1, bip_vec := Some 100, bip_vcnt := 1\<rparr>))\<rparr>,
             set_slot ex_fresh_state 100 0 \<lparr>bv_page = 2, bv_len = 64, bv_offset = 0\<rparr>)"
    by (simp add: seg zero_bip_def bvec_set_page_def)
  from m f a z show ?thesis by simp
qed



subsection \<open>Mapping a user buffer\<close>

lemma alloc_Inl:
  assumes "bio_integrity_alloc al b n s = (Inl e, b', s')"
  shows "e < 0 \<and> b' = b \<and> mem s' = mem s \<and> bvecs s' = bvecs s \<and> slots s' = slots s"
  using assms
  by (auto simp: bio_integrity_alloc_def Let_def EOPNOTSUPP_def ENOMEM_def log_def
      split: if_splits option.splits prod.splits)

lemma alloc_Inr:
  assumes "bio_integrity_alloc al b n s = (Inr bip, b', s')"
  shows "b' = attach b bip \<and> bip_vcnt bip = 0 \<and> bip_flags bip = 0 \<and> bip_iter bip = zero_iter
     \<and> bio_iter bip = zero_iter \<and> mem s' = mem s \<and> trace s' = trace s \<and> bvecs s' = bvecs s"
  using assms
  by (auto simp: bio_integrity_alloc_def Let_def zero_bip_def
      split: if_splits option.splits prod.splits)

lemma ucast_u32_u16_le: "unat (ucast (n :: u32) :: u16) \<le> unat n"
  by (simp add: unsigned_ucast_eq take_bit_nat_less_eq_self)

lemma alloc_Inr_slots:
  assumes "bio_integrity_alloc al b n s = (Inr bip, b', s')" "bip_max_vcnt bip \<noteq> 0"
  shows "\<exists>a. bip_vec bip = Some a \<and> unat (bip_max_vcnt bip) \<le> slots s' a"
proof -
  have le: "\<not> n > m \<Longrightarrow> unat (ucast n :: u16) \<le> unat m" for m :: u32
    using ucast_u32_u16_le [of n] by (simp add: word_le_nat_alt not_less)
  show ?thesis
    using assms le
    by (auto simp: bio_integrity_alloc_def Let_def zero_bip_def
        split: if_splits option.splits prod.splits)
qed


lemma add_page_zero_vcnt:
  assumes "bio_integrity b = Some bip" "bip_vcnt bip = 0"
  shows "bio_integrity_add_page k b pg len off s =
     (case bvec_put s (bip_vec bip) 0 (bvec_set_page pg len off) of
        None \<Rightarrow> None
      | Some s' \<Rightarrow> Some (len, b\<lparr>bi_integrity := Some (add_size len (bip\<lparr>bip_vcnt := 1\<rparr>))\<rparr>, s'))"
  using assms by (simp add: bio_integrity_add_page_def append_page_def split: option.splits)

lemma bvec_put_Some:
  "bvec_put s p i bv = Some s' \<Longrightarrow>
     \<exists>a. p = Some a \<and> i < slots s a \<and> s' = set_slot s a i bv"
  by (auto simp: bvec_put_def set_slot_def split: option.splits if_splits)

lemma bvec_write_range_Some:
  assumes "bvec_write_range s p i bvs = Some s'"
  shows "bvec_range s' p i (length bvs) = Some bvs \<and> slots s' = slots s \<and> mem s' = mem s
         \<and> trace s' = trace s
         \<and> (bvs \<noteq> [] \<longrightarrow> (\<exists>a. p = Some a \<and> i + length bvs \<le> slots s a))"
proof (cases "bvs = []")
  case True
  with assms show ?thesis by (simp add: bvec_write_range_def bvec_range_def)
next
  case False
  with assms obtain a where a: "p = Some a" "i + length bvs \<le> slots s a"
    and s': "s' = s\<lparr>bvecs := (bvecs s)(a := (\<lambda>j. if i \<le> j \<and> j < i + length bvs
                                                          then bvs ! (j - i) else bvecs s a j))\<rparr>"
    by (auto simp: bvec_write_range_def split: option.splits if_splits)
  have "map (bvecs s' a) [i ..< i + length bvs] = bvs"
    by (rule nth_equalityI) (simp_all add: s')
  with a s' False show ?thesis by (simp add: bvec_range_def)
qed

lemma bvec_get_set_slot:
  "i < slots s a \<Longrightarrow> bvec_get (set_slot s a i bv) (Some a) j = (if j = i then Some bv else bvec_get s (Some a) j)"
  by (simp add: bvec_get_def set_slot_def)

lemma bvec_range_set_slot:
  "j < i \<Longrightarrow> bvec_range (set_slot s a j bv) p i n = bvec_range s p i n"
  by (cases p) (auto simp: bvec_range_def set_slot_def)

lemma init_user_ok:
  assumes "bio_integrity_init_user al b bvec len seed s = Some (0, b', s')"
  shows "\<exists>bip. bio_integrity b' = Some bip \<and> bip_flags bip = 0
     \<and> bip_vcnt bip = of_nat (length bvec)
     \<and> bip_iter bip = \<lparr>bi_sector = ucast seed, bi_size = len, bi_idx = 0, bi_bvec_done = 0\<rparr>
     \<and> bvec_range s' (bip_vec bip) 0 (length bvec) = Some bvec
     \<and> (bip_max_vcnt bip \<noteq> 0 \<longrightarrow> (\<exists>a. bip_vec bip = Some a \<and> unat (bip_max_vcnt bip) \<le> slots s' a))
     \<and> mem s' = mem s \<and> trace s' = trace s"
proof -
  obtain r b1 s1 where al0: "bio_integrity_alloc al b (of_nat (length bvec)) s = (r, b1, s1)"
    by (cases "bio_integrity_alloc al b (of_nat (length bvec)) s") auto
  have "\<not> isl r"
  proof
    assume "isl r"
    then obtain e where "r = Inl e" by (cases r) auto
    with al0 alloc_Inl [of al b "of_nat (length bvec)" s e b1 s1] assms
    show False by (simp add: bio_integrity_init_user_def)
  qed
  then obtain bip where r: "r = Inr bip" by (cases r) auto
  note al = al0 [unfolded r]
  from assms al have
    w: "bvec_write_range s1 (bip_vec bip) 0 bvec = Some s'"
    and b': "b' = b1\<lparr>bi_integrity :=
                          Some (bip\<lparr>bip_iter := (bip_iter bip)\<lparr>bi_sector := ucast seed, bi_size := len\<rparr>,
                                    bip_vcnt := of_nat (length bvec)\<rparr>)\<rparr>"
    by (auto simp: bio_integrity_init_user_def split: option.splits)
  note a = alloc_Inr [OF al]
  note w' = bvec_write_range_Some [OF w]
  have sl: "bip_max_vcnt bip \<noteq> 0 \<Longrightarrow> \<exists>a. bip_vec bip = Some a \<and> unat (bip_max_vcnt bip) \<le> slots s' a"
    using alloc_Inr_slots [OF al] w' by simp
  show ?thesis
    apply (rule exI [of _ "bip\<lparr>bip_iter := (bip_iter bip)\<lparr>bi_sector := ucast seed, bi_size := len\<rparr>,
                                    bip_vcnt := of_nat (length bvec)\<rparr>"])
    using a w' sl by (simp add: b' bio_integrity_attach_upd zero_iter_def)
qed


lemma slots_set_slot [simp]: "slots (set_slot s a i bv) = slots s"
  and mem_set_slot [simp]: "mem (set_slot s a i bv) = mem s"
  and trace_set_slot [simp]: "trace (set_slot s a i bv) = trace s"
  by (simp_all add: set_slot_def)

lemma bvec_range_log: "bvec_range (log es s) p i n = bvec_range s p i n"
  by (cases p) (simp_all add: bvec_range_def log_def)

lemma copy_user_finish_ok:
  assumes al: "bio_integrity_alloc al b n s0 = (Inr bip, b1, s1)"
    and f: "copy_user_finish k b1 bip bvec buf len write seed s1 = Some (0, b', s')"
  shows "\<exists>bip' a. bio_integrity b' = Some bip' \<and> bip_vec bip' = Some a
     \<and> bip_flags bip' = BIP_COPY_USER
     \<and> bip_vcnt bip' = of_nat (length bvec) \<and> bip_max_vcnt bip' = bip_max_vcnt bip
     \<and> bip_iter bip' = \<lparr>bi_sector = ucast seed, bi_size = len, bi_idx = 0, bi_bvec_done = 0\<rparr>
     \<and> bvec_get s' (Some a) 0 = Some (bvec_set_page (virt_to_page buf) len (of_nat (offset_in_page buf)))
     \<and> mem s' = mem s1 \<and> slots s' = slots s1
     \<and> (write \<longrightarrow> trace s' = trace s1 @ bio_integrity_unpin_bvec k bvec False)
     \<and> (\<not> write \<longrightarrow> trace s' = trace s1 \<and> bvec_range s' (Some a) 1 (length bvec) = Some bvec)"
proof -
  note a = alloc_Inr [OF al]
  have b1: "bio_integrity b1 = Some bip" using a by (simp add: bio_integrity_attach)
  have v0: "bip_vcnt bip = 0" using a by simp
  let ?seg = "bvec_set_page (virt_to_page buf) len (of_nat (offset_in_page buf))"
  from f obtain s2 where s2: "(if write then Some (log (bio_integrity_unpin_bvec k bvec False) s1)
            else bvec_write_range s1 (bip_vec bip) 1 bvec) = Some s2"
    by (auto simp: copy_user_finish_def split: option.splits)
  from f s2 obtain s3 where put: "bvec_put s2 (bip_vec bip) 0 ?seg = Some s3"
    by (auto simp: copy_user_finish_def add_page_zero_vcnt [OF b1 v0] split: option.splits)
  from bvec_put_Some [OF put] obtain a where av: "bip_vec bip = Some a" "0 < slots s2 a"
    and s3: "s3 = set_slot s2 a 0 ?seg" by blast
  from f s2 put have res: "b' = b1\<lparr>bi_integrity :=
        Some ((add_size len (bip\<lparr>bip_vcnt := 1\<rparr>))\<lparr>bip_flags := bip_flags bip OR BIP_COPY_USER,
               bip_iter := (bip_iter (add_size len (bip\<lparr>bip_vcnt := 1\<rparr>)))\<lparr>bi_sector := ucast seed\<rparr>,
               bip_vcnt := of_nat (length bvec)\<rparr>)\<rparr>" and s': "s' = s3"
    by (auto simp: copy_user_finish_def add_page_zero_vcnt [OF b1 v0] add_size_def)
  have w: "write \<Longrightarrow> s2 = log (bio_integrity_unpin_bvec k bvec False) s1" using s2 by simp
  have r: "\<not> write \<Longrightarrow> bvec_range s2 (Some a) 1 (length bvec) = Some bvec \<and> slots s2 = slots s1
      \<and> mem s2 = mem s1 \<and> trace s2 = trace s1"
    using s2 bvec_write_range_Some [of s1 "bip_vec bip" 1 bvec s2] av by simp
  show ?thesis
    apply (rule exI [of _ "(add_size len (bip\<lparr>bip_vcnt := 1\<rparr>))\<lparr>bip_flags := bip_flags bip OR BIP_COPY_USER,
               bip_iter := (bip_iter (add_size len (bip\<lparr>bip_vcnt := 1\<rparr>)))\<lparr>bi_sector := ucast seed\<rparr>,
               bip_vcnt := of_nat (length bvec)\<rparr>"])
    apply (rule exI [of _ a])
    using a av w r
    apply (cases "write")
     apply (simp_all add: res s' s3 bio_integrity_attach_upd add_size_def zero_iter_def
        bvec_get_set_slot bvec_range_set_slot log_def)
    done
qed


lemma alloc_Inr_max:
  assumes "bio_integrity_alloc al b n s = (Inr bip, b', s')"
  shows "bip_max_vcnt bip =
     (if has_integrity_pool b \<and> n > of_nat BIO_INLINE_VECS then snd (the (bvec_mem al)) else ucast n)"
  using assms
  by (auto simp: bio_integrity_alloc_def Let_def zero_bip_def
      split: if_splits option.splits prod.splits)

lemma copy_user_ok:
  assumes ok: "bio_integrity_copy_user k al b bvec len dir seed s = Some (0, b', s')"
  shows "\<exists>bip a buf. buf_mem al = Some buf \<and> bio_integrity b' = Some bip \<and> bip_vec bip = Some a
     \<and> bip_flags bip = BIP_COPY_USER
     \<and> bip_vcnt bip = of_nat (length bvec)
     \<and> bip_iter bip = \<lparr>bi_sector = ucast seed, bi_size = len, bi_idx = 0, bi_bvec_done = 0\<rparr>
     \<and> bvec_get s' (Some a) 0 = Some (bvec_set_page (virt_to_page buf) len (of_nat (offset_in_page buf)))
     \<and> (dir = ITER_SOURCE \<longrightarrow>
           bip_max_vcnt bip = 1
           \<and> copy_from_iter_full (mem s) buf (unat len) bvec = Some (mem s')
           \<and> trace s' = trace s @ bio_integrity_unpin_bvec k bvec False)
     \<and> (dir = ITER_DEST \<longrightarrow>
           bip_max_vcnt bip =
             (if has_integrity_pool b \<and> (of_nat (length bvec + 1) :: u32) > of_nat BIO_INLINE_VECS
              then snd (the (bvec_mem al)) else ucast (of_nat (length bvec + 1) :: u32))
           \<and> mem s' = zero_fill (mem s) buf (unat len) \<and> trace s' = trace s
           \<and> bvec_range s' (Some a) 1 (length bvec) = Some bvec)"
proof -
  from ok obtain buf where buf: "buf_mem al = Some buf"
    by (auto simp: bio_integrity_copy_user_def Let_def ENOMEM_def split: option.splits)
  show ?thesis
  proof (cases dir)
    case ITER_SOURCE
    from ok buf ITER_SOURCE obtain m' where m': "copy_from_iter_full (mem s) buf (unat len) bvec = Some m'"
      by (auto simp: bio_integrity_copy_user_def Let_def EFAULT_def split: option.splits)
    obtain r b1 s1 where al0: "bio_integrity_alloc al b 1 (s\<lparr>mem := m'\<rparr>) = (r, b1, s1)"
      by (cases "bio_integrity_alloc al b 1 (s\<lparr>mem := m'\<rparr>)") auto
    have "\<not> isl r"
    proof
      assume "isl r"
      then obtain e where "r = Inl e" by (cases r) auto
      with al0 alloc_Inl [of al b 1 "s\<lparr>mem := m'\<rparr>" e b1 s1] ok buf ITER_SOURCE m'
      show False by (simp add: bio_integrity_copy_user_def Let_def)
    qed
    then obtain bip where r: "r = Inr bip" by (cases r) auto
    note al = al0 [unfolded r]
    from ok buf ITER_SOURCE m' al
    have f: "copy_user_finish k b1 bip bvec buf len True seed s1 = Some (0, b', s')"
      by (simp add: bio_integrity_copy_user_def Let_def)
    from copy_user_finish_ok [OF al f] alloc_Inr [OF al] alloc_Inr_max [OF al] buf m' ITER_SOURCE
    show ?thesis by (auto simp: BIO_INLINE_VECS_def)
  next
    case ITER_DEST
    let ?s0 = "s\<lparr>mem := zero_fill (mem s) buf (unat len)\<rparr>"
    obtain r b1 s1 where al0: "bio_integrity_alloc al b (of_nat (length bvec + 1)) ?s0 = (r, b1, s1)"
      by (cases "bio_integrity_alloc al b (of_nat (length bvec + 1)) ?s0") auto
    have "\<not> isl r"
    proof
      assume "isl r"
      then obtain e where "r = Inl e" by (cases r) auto
      with al0 alloc_Inl [of al b "of_nat (length bvec + 1)" ?s0 e b1 s1] ok buf ITER_DEST
      show False by (simp add: bio_integrity_copy_user_def Let_def)
    qed
    then obtain bip where r: "r = Inr bip" by (cases r) auto
    note al = al0 [unfolded r]
    from ok buf ITER_DEST al
    have f: "copy_user_finish k b1 bip bvec buf len False seed s1 = Some (0, b', s')"
      by (simp add: bio_integrity_copy_user_def Let_def)
    from copy_user_finish_ok [OF al f] alloc_Inr [OF al] alloc_Inr_max [OF al] buf ITER_DEST
    show ?thesis by auto
  qed
qed


lemma map_user_inner:
  assumes ok: "bio_integrity_map_user k pn al b ubuf bytes seed s = Some (0, b', s')"
  shows "bio_integrity b = None \<and>
     (let bvec = user_segments k pn ubuf bytes;
          ev = snd (bvec_from_pages k (extract_pages pn) (iov_iter_npages ubuf bytes (BIO_MAX_VECS + 1))
                      bytes (of_nat (offset_in_page ubuf)));
          q = bdev_get_queue (bi_bdev b)
      in (if \<not> iov_iter_is_aligned ubuf bytes (blk_lim_dma_alignment_and_pad (limits q))
             \<or> length bvec > unat (queue_max_integrity_segments q)
          then bio_integrity_copy_user k al b bvec (ucast bytes)
                 (if bio_data_dir b = READ then ITER_DEST else ITER_SOURCE) seed (log ev s)
          else bio_integrity_init_user al b bvec (ucast bytes) seed (log ev s)) = Some (0, b', s'))"
  using ok
  unfolding bio_integrity_map_user_def user_segments_def Let_def
  by (auto simp: EINVAL_def E2BIG_def ENOMEM_def split: if_splits prod.splits option.splits)


lemma ex_npages: "iov_iter_npages 167840 200 (BIO_MAX_VECS + 1) = 2"
  "iov_iter_npages 167841 200 (BIO_MAX_VECS + 1) = 2"
  by (simp_all add: iov_iter_npages_def offset_in_page_def PAGE_SIZE_def BIO_MAX_VECS_def)

lemma ex_segments:
  "bvec_from_pages ex_kernel (extract_pages ex_pin) 2 200 (of_nat (offset_in_page 167840))
     = ([\<lparr>bv_page = 40, bv_len = 96, bv_offset = 4000\<rparr>,
         \<lparr>bv_page = 50, bv_len = 104, bv_offset = 0\<rparr>], [])"
  "bvec_from_pages ex_kernel (extract_pages ex_pin) 2 200 (of_nat (offset_in_page 167841))
     = ([\<lparr>bv_page = 40, bv_len = 95, bv_offset = 4001\<rparr>,
         \<lparr>bv_page = 50, bv_len = 105, bv_offset = 0\<rparr>], [])"
  by (simp_all add: bvec_from_pages_def bvec_from_pages_loop.simps merge_run.simps ex_pin_def
      ex_kernel_def offset_in_page_def PAGE_SIZE_def bvec_set_page_def Let_def)

lemma ex_aligned:
  "iov_iter_is_aligned 167840 200 3" "\<not> iov_iter_is_aligned 167841 200 3"
  by (simp_all add: iov_iter_is_aligned_def)

lemma ex_limits:
  "blk_lim_dma_alignment_and_pad (limits (bdev_get_queue (bi_bdev (ex_bio opf)))) = 3"
  "queue_max_integrity_segments (bdev_get_queue (bi_bdev (ex_bio opf))) = 2"
  "queue_max_hw_sectors (bdev_get_queue (bi_bdev (ex_bio opf))) = 2560"
  by (simp_all add: blk_lim_dma_alignment_and_pad_def queue_max_integrity_segments_def
      queue_max_hw_sectors_def bdev_get_queue_def ex_bio_def ex_dev_def)


lemma alloc_inline:
  assumes "\<not> bio_has_crypt_ctx b" "\<not> has_integrity_pool b" "bip_mem al = Some a" "n \<noteq> 0"
  shows "bio_integrity_alloc al b n s =
     (Inr (zero_bip\<lparr>bip_max_vcnt := ucast n, bip_vec := Some a\<rparr>),
      attach b (zero_bip\<lparr>bip_max_vcnt := ucast n, bip_vec := Some a\<rparr>),
      s\<lparr>slots := (slots s)(a := unat n)\<rparr>)"
  using assms by (simp add: bio_integrity_alloc_def Let_def)

lemma init_user_succeeds:
  assumes "\<not> bio_has_crypt_ctx b" "\<not> has_integrity_pool b" "bip_mem al = Some a"
    and n: "length bvec < 2 ^ 32"
  shows "\<exists>b' s'. bio_integrity_init_user al b bvec len seed s = Some (0, b', s')"
proof (cases "bvec = []")
  case True
  with assms(1-3) show ?thesis
    by (simp add: bio_integrity_init_user_def alloc_zero bvec_write_range_def)
next
  case False
  have u: "unat (of_nat (length bvec) :: u32) = length bvec"
    using n by (simp add: unat_of_nat)
  have nz: "(of_nat (length bvec) :: u32) \<noteq> 0"
  proof
    assume "(of_nat (length bvec) :: u32) = 0"
    then have "unat (of_nat (length bvec) :: u32) = 0" by simp
    with u False show False by simp
  qed
  show ?thesis
    using False
    by (simp add: bio_integrity_init_user_def alloc_inline [OF assms(1-3) nz]
        bvec_write_range_def zero_bip_def u)
qed

lemma copy_user_finish_succeeds:
  assumes vec: "bip_vec bip = Some a" and v0: "bip_vcnt bip = 0"
    and sl0: "0 < slots s a" and sl: "\<not> wr \<longrightarrow> length bvec + 1 \<le> slots s a"
  shows "\<exists>b' s'. copy_user_finish k (attach b bip) bip bvec buf len wr seed s = Some (0, b', s')"
proof -
  have b1: "bio_integrity (attach b bip) = Some bip" by (rule bio_integrity_attach)
  have "\<exists>s2. (if wr then Some (log (bio_integrity_unpin_bvec k bvec False) s)
            else bvec_write_range s (bip_vec bip) 1 bvec) = Some s2 \<and> slots s2 = slots s"
  proof (cases wr)
    case True
    then show ?thesis by (simp add: log_def)
  next
    case False
    with sl have "1 + length bvec \<le> slots s a" by simp
    with False vec show ?thesis by (simp add: bvec_write_range_def)
  qed
  then obtain s2 where s2: "(if wr then Some (log (bio_integrity_unpin_bvec k bvec False) s)
            else bvec_write_range s (bip_vec bip) 1 bvec) = Some s2" and sl2: "slots s2 = slots s"
    by blast
  have put: "bvec_put s2 (bip_vec bip) 0 (bvec_set_page (virt_to_page buf) len (of_nat (offset_in_page buf)))
      = Some (set_slot s2 a 0 (bvec_set_page (virt_to_page buf) len (of_nat (offset_in_page buf))))"
    using sl0 sl2 vec by (simp add: bvec_put_eq)
  show ?thesis
    unfolding copy_user_finish_def s2
    by (simp add: add_page_zero_vcnt [OF b1 v0] put)
qed

lemma copy_user_succeeds:
  assumes c: "\<not> bio_has_crypt_ctx b" "\<not> has_integrity_pool b" "bip_mem al = Some a"
    and buf: "buf_mem al = Some buf"
    and n: "length bvec + 1 < 2 ^ 16"
    and src: "dir = ITER_SOURCE \<longrightarrow> copy_from_iter_full (mem s) buf (unat len) bvec \<noteq> None"
  shows "\<exists>b' s'. bio_integrity_copy_user k al b bvec len dir seed s = Some (0, b', s')"
proof (cases dir)
  case ITER_SOURCE
  with src obtain m' where m': "copy_from_iter_full (mem s) buf (unat len) bvec = Some m'" by auto
  have one: "(1 :: u32) \<noteq> 0" by simp
  let ?bip = "zero_bip\<lparr>bip_max_vcnt := ucast (1 :: u32), bip_vec := Some a\<rparr>"
  have fin: "\<exists>b' s'. copy_user_finish k (attach b ?bip) ?bip bvec buf len True seed
        ((s\<lparr>mem := m'\<rparr>)\<lparr>slots := (slots (s\<lparr>mem := m'\<rparr>))(a := unat (1 :: u32))\<rparr>) = Some (0, b', s')"
    by (rule copy_user_finish_succeeds [where a = a]) (simp_all add: zero_bip_def)
  show ?thesis
    using fin
    by (simp add: bio_integrity_copy_user_def Let_def buf ITER_SOURCE m' alloc_inline [OF c one])
next
  case ITER_DEST
  define m where "m = length bvec + 1"
  have "unat (of_nat m :: u32) = m mod 2 ^ LENGTH(32)"
    by (rule unat_of_nat)
  also have "\<dots> = m" using n by (simp add: m_def)
  finally have u: "unat (of_nat m :: u32) = m" .
  have nz: "(of_nat m :: u32) \<noteq> 0"
  proof
    assume "(of_nat m :: u32) = 0"
    then have "unat (of_nat m :: u32) = 0" by simp
    with u show False by (simp add: m_def)
  qed
  let ?bip = "zero_bip\<lparr>bip_max_vcnt := ucast (of_nat m :: u32), bip_vec := Some a\<rparr>"
  let ?s0 = "s\<lparr>mem := zero_fill (mem s) buf (unat len)\<rparr>"
  have "\<exists>b' s'. copy_user_finish k (attach b ?bip) ?bip bvec buf len False seed
        (?s0\<lparr>slots := (slots ?s0)(a := unat (of_nat m :: u32))\<rparr>) = Some (0, b', s')"
    by (rule copy_user_finish_succeeds [where a = a]) (simp_all add: zero_bip_def u, simp_all add: m_def)
  then show ?thesis
    unfolding bio_integrity_copy_user_def Let_def m_def [symmetric]
    by (simp add: buf ITER_DEST alloc_inline [OF c nz])
qed

lemma map_user_succeeds:
  assumes nobip: "bio_integrity b = None"
    and size: "\<not> sint (signed_drop_bit SECTOR_SHIFT bytes) > uint (queue_max_hw_sectors (bdev_get_queue (bi_bdev b)))"
    and np: "iov_iter_npages ubuf bytes (BIO_MAX_VECS + 1) \<le> UIO_FASTIOV \<or>
             (iov_iter_npages ubuf bytes (BIO_MAX_VECS + 1) \<le> BIO_MAX_VECS \<and> kcalloc_ok pn)"
    and ex: "0 \<le> extract_ret pn"
    and c: "\<not> bio_has_crypt_ctx b" "\<not> has_integrity_pool b" "bip_mem al = Some a"
    and buf: "buf_mem al = Some buf"
    and n: "length (user_segments k pn ubuf bytes) + 1 < 2 ^ 16"
    and src: "bio_data_dir b = WRITE \<longrightarrow>
        copy_from_iter_full (mem s) buf (unat (ucast bytes :: u32)) (user_segments k pn ubuf bytes) \<noteq> None"
  shows "\<exists>b' s'. bio_integrity_map_user k pn al b ubuf bytes seed s = Some (0, b', s')"
proof -
  define nr where "nr = iov_iter_npages ubuf bytes (BIO_MAX_VECS + 1)"
  obtain bvec ev where bv: "bvec_from_pages k (extract_pages pn) nr bytes (of_nat (offset_in_page ubuf)) = (bvec, ev)"
    by (cases "bvec_from_pages k (extract_pages pn) nr bytes (of_nat (offset_in_page ubuf))") auto
  then have us: "user_segments k pn ubuf bytes = bvec" by (simp add: user_segments_def nr_def)
  have np': "\<not> nr > BIO_MAX_VECS" "\<not> (nr > UIO_FASTIOV \<and> \<not> kcalloc_ok pn)"
    using np by (auto simp: UIO_FASTIOV_def BIO_MAX_VECS_def nr_def)
  let ?dir = "if bio_data_dir b = READ then ITER_DEST else ITER_SOURCE"
  have src': "?dir = ITER_SOURCE \<longrightarrow> copy_from_iter_full (mem (log ev s)) buf (unat (ucast bytes :: u32)) bvec \<noteq> None"
    using src us by (cases "bio_data_dir b") (simp_all add: log_def)
  from copy_user_succeeds [OF c buf n [unfolded us] src', of k seed]
  obtain b1 s1 where cu: "bio_integrity_copy_user k al b bvec (ucast bytes) ?dir seed (log ev s) = Some (0, b1, s1)"
    by blast
  from n us have "length bvec < 2 ^ 32" by simp
  from init_user_succeeds [OF c this, of "ucast bytes" seed "log ev s"]
  obtain b2 s2 where iu: "bio_integrity_init_user al b bvec (ucast bytes) seed (log ev s) = Some (0, b2, s2)"
    by blast
  define copy where "copy = (\<not> iov_iter_is_aligned ubuf bytes
        (blk_lim_dma_alignment_and_pad (limits (bdev_get_queue (bi_bdev b))))
      \<or> length bvec > unat (queue_max_integrity_segments (bdev_get_queue (bi_bdev b))))"
  have "\<exists>b' s'. (if copy then bio_integrity_copy_user k al b bvec (ucast bytes) ?dir seed (log ev s)
          else bio_integrity_init_user al b bvec (ucast bytes) seed (log ev s)) = Some (0, b', s')"
    using cu iu by (cases copy) simp_all
  then obtain b3 s3 where inner:
    "(if copy then bio_integrity_copy_user k al b bvec (ucast bytes) ?dir seed (log ev s)
          else bio_integrity_init_user al b bvec (ucast bytes) seed (log ev s)) = Some (0, b3, s3)"
    by blast
  show ?thesis
    unfolding bio_integrity_map_user_def Let_def nr_def [symmetric] bv
    using nobip size np' ex inner [unfolded copy_def]
    by auto
qed

subsection \<open>The bytes of the coalesced segments\<close>

lemma unat_min: "unat (min a b) = min (unat a) (unat b)" for a b :: "'a::len word"
  by (simp add: min_def word_le_nat_alt)

lemma unat_PAGE_SIZE: "unat (of_nat PAGE_SIZE :: u64) = PAGE_SIZE"
  by (simp add: PAGE_SIZE_def)

lemma unat_ucast_u64_u32: "unat x < 2 ^ 32 \<Longrightarrow> unat (ucast (x :: u64) :: u32) = unat x"
  by (simp add: unsigned_ucast_eq take_bit_nat_eq_self)

lemma merge_run_bytes:
  assumes "merge_run k pages nr_vecs folio j sz bytes ev = (j', sz', bytes', ev')"
    and "unat sz + unat bytes < 2 ^ 64"
    and "unat bytes \<le> (nr_vecs - j) * PAGE_SIZE"
  shows "unat sz' + unat bytes' = unat sz + unat bytes
     \<and> unat bytes' \<le> (nr_vecs - j') * PAGE_SIZE \<and> j' \<le> max j nr_vecs"
  using assms
proof (induction k pages nr_vecs folio j sz bytes ev rule: merge_run.induct)
  case (1 k pages nr_vecs folio j sz bytes ev)
  show ?case
  proof (cases "j < nr_vecs \<and> page_folio k (pages j) = folio \<and> pages j = pages (j - 1) + 1")
    case True
    then have c: "j < nr_vecs" "page_folio k (pages j) = folio" "pages j = pages (j - 1) + 1"
      by blast+
    define nxt :: u64 where "nxt = min (of_nat PAGE_SIZE) bytes"
    have nx: "unat nxt = min PAGE_SIZE (unat bytes)"
      by (simp add: nxt_def unat_min unat_PAGE_SIZE)
    have le: "nxt \<le> bytes" by (simp add: nxt_def)
    have sub: "unat (bytes - nxt) = unat bytes - unat nxt"
      using le by (rule unat_sub)
    have "unat sz + unat nxt < 2 ^ LENGTH(64)"
      using "1.prems"(2) nx by simp
    then have add: "unat (sz + nxt) = unat sz + unat nxt"
      by (rule unat_add_lem [THEN iffD1])
    have run: "merge_run k pages nr_vecs folio (j + 1) (sz + nxt) (bytes - nxt)
        (ev @ [Unpin_user_page (pages j)]) = (j', sz', bytes', ev')"
      using "1.prems"(1) unfolding merge_run_cont [OF c] nxt_def [symmetric] .
    have n: "\<not> (page_folio k (pages j) \<noteq> folio \<or> pages j \<noteq> pages (j - 1) + 1)"
      using c by blast
    have p2: "unat (sz + nxt) + unat (bytes - nxt) < 2 ^ 64"
      using "1.prems"(2) nx by (simp add: add sub)
    have "(nr_vecs - j) * PAGE_SIZE = (nr_vecs - (j + 1)) * PAGE_SIZE + PAGE_SIZE"
      using c(1) by (simp add: Suc_diff_Suc [symmetric] del: Suc_diff_Suc)
    with "1.prems"(3) have p3: "unat (bytes - nxt) \<le> (nr_vecs - (j + 1)) * PAGE_SIZE"
      using nx by (simp add: sub)
    from "1.IH" [OF c(1) nxt_def n run p2 p3]
    have "unat sz' + unat bytes' = unat (sz + nxt) + unat (bytes - nxt)
       \<and> unat bytes' \<le> (nr_vecs - j') * PAGE_SIZE \<and> j' \<le> max (j + 1) nr_vecs" .
    then show ?thesis using c(1) nx by (simp add: add sub max_def split: if_splits)
  next
    case False
    then have "\<not> j < nr_vecs \<or> page_folio k (pages j) \<noteq> folio \<or> pages j \<noteq> pages (j - 1) + 1"
      by blast
    from merge_run_stop [OF this] "1.prems"(1)
    have "j' = j" "sz' = sz" "bytes' = bytes" by simp_all
    with "1.prems"(3) show ?thesis by simp
  qed
qed


lemma bvec_from_pages_loop_stop:
  "\<not> i < nr_vecs \<Longrightarrow> bvec_from_pages_loop k pages nr_vecs i bytes offset = ([], [])"
  by (subst bvec_from_pages_loop.simps) simp

lemma bvec_from_pages_loop_step:
  assumes "i < nr_vecs"
    and "merge_run k pages nr_vecs (page_folio k (pages i)) (i + 1)
           (min bytes (of_nat PAGE_SIZE - offset)) (bytes - min bytes (of_nat PAGE_SIZE - offset)) []
         = (j, sz', bytes', ev)"
    and "bvec_from_pages_loop k pages nr_vecs j bytes' 0 = (bvs, evs)"
  shows "bvec_from_pages_loop k pages nr_vecs i bytes offset
     = (bvec_set_page (pages i) (ucast sz') (ucast offset) # bvs, ev @ evs)"
  using assms by (subst bvec_from_pages_loop.simps) (simp add: Let_def)

lemma bvec_from_pages_loop_sum:
  assumes "bvec_from_pages_loop k pages nr_vecs i bytes offset = (bvs, evs)"
    and "unat offset < PAGE_SIZE"
    and "unat bytes + unat offset \<le> (nr_vecs - i) * PAGE_SIZE"
    and "(nr_vecs - i) * PAGE_SIZE < 2 ^ 32"
  shows "(\<Sum>bv\<leftarrow>bvs. unat (bv_len bv)) = unat bytes"
  using assms
proof (induction k pages nr_vecs i bytes offset arbitrary: bvs evs rule: bvec_from_pages_loop.induct)
  case (1 k pages nr_vecs i bytes offset)
  show ?case
  proof (cases "i < nr_vecs")
    case False
    with "1.prems"(1) have "bvs = []" by (simp add: bvec_from_pages_loop_stop)
    moreover from False "1.prems"(3) have "unat bytes = 0" by simp
    ultimately show ?thesis by simp
  next
    case True
    define sz :: u64 where "sz = min bytes (of_nat PAGE_SIZE - offset)"
    define folio where "folio = page_folio k (pages i)"
    have offle: "offset \<le> of_nat PAGE_SIZE"
      using "1.prems"(2) by (simp add: word_le_nat_alt unat_PAGE_SIZE)
    have room: "unat (of_nat PAGE_SIZE - offset :: u64) = PAGE_SIZE - unat offset"
      using unat_sub [OF offle] by (simp add: unat_PAGE_SIZE)
    have usz: "unat sz = min (unat bytes) (PAGE_SIZE - unat offset)"
      by (simp add: sz_def unat_min room)
    have szle: "sz \<le> bytes" by (simp add: sz_def)
    have ub1: "unat (bytes - sz) = unat bytes - unat sz"
      using szle by (rule unat_sub)
    obtain j sz' bytes' ev where mr:
      "merge_run k pages nr_vecs folio (i + 1) sz (bytes - sz) [] = (j, sz', bytes', ev)"
      by (cases "merge_run k pages nr_vecs folio (i + 1) sz (bytes - sz) []") auto
    obtain bvs' evs' where rest: "bvec_from_pages_loop k pages nr_vecs j bytes' 0 = (bvs', evs')"
      by (cases "bvec_from_pages_loop k pages nr_vecs j bytes' 0") auto
    have split: "(nr_vecs - i) * PAGE_SIZE = (nr_vecs - (i + 1)) * PAGE_SIZE + PAGE_SIZE"
      using True by (simp add: Suc_diff_Suc [symmetric] del: Suc_diff_Suc)
    have q2: "unat sz + unat (bytes - sz) < 2 ^ 64"
    proof -
      have "unat sz + unat (bytes - sz) = unat bytes" using szle by (simp add: ub1 word_le_nat_alt)
      moreover have "unat bytes < 2 ^ 64" using unsigned_less [of bytes] by simp
      ultimately show ?thesis by simp
    qed
    have q3: "unat (bytes - sz) \<le> (nr_vecs - (i + 1)) * PAGE_SIZE"
    proof -
      define X where "X = (nr_vecs - (i + 1)) * PAGE_SIZE"
      have "unat bytes + unat offset \<le> X + PAGE_SIZE"
        using "1.prems"(3) split by (simp add: X_def)
      hence "unat bytes - min (unat bytes) (PAGE_SIZE - unat offset) \<le> X"
        using "1.prems"(2) by arith
      thus ?thesis by (simp add: ub1 usz X_def)
    qed
    from merge_run_bytes [OF mr q2 q3]
    have cons: "unat sz' + unat bytes' = unat sz + unat (bytes - sz)"
      and fit: "unat bytes' \<le> (nr_vecs - j) * PAGE_SIZE" and jle: "j \<le> max (i + 1) nr_vecs"
      by blast+
    have ij: "i + 1 \<le> j" using mr by (rule merge_run_index)
    have tot: "unat sz' + unat bytes' = unat bytes"
      using cons szle by (simp add: ub1 word_le_nat_alt)
    have mono: "(nr_vecs - j) * PAGE_SIZE \<le> (nr_vecs - i) * PAGE_SIZE"
      using ij by (intro mult_le_mono1 diff_le_mono2) simp
    have p2: "unat (0 :: u64) < PAGE_SIZE" by (simp add: PAGE_SIZE_def)
    have p3: "unat bytes' + unat (0 :: u64) \<le> (nr_vecs - j) * PAGE_SIZE" using fit by simp
    have p4: "(nr_vecs - j) * PAGE_SIZE < 2 ^ 32" using mono "1.prems"(4) by (rule le_less_trans)
    have "(\<Sum>bv\<leftarrow>bvs'. unat (bv_len bv)) = unat bytes'"
      by (rule "1.IH" [OF True sz_def folio_def mr [symmetric] refl refl rest p2 p3 p4])
    moreover have "bvs = bvec_set_page (pages i) (ucast sz') (ucast offset) # bvs'"
      using bvec_from_pages_loop_step [OF True mr [unfolded sz_def folio_def] rest] "1.prems"(1)
      by simp
    moreover have "unat (ucast sz' :: u32) = unat sz'"
    proof (rule unat_ucast_u64_u32)
      have "unat sz' \<le> unat bytes" using tot by simp
      also have "\<dots> \<le> (nr_vecs - i) * PAGE_SIZE" using "1.prems"(3) by simp
      also have "\<dots> < 2 ^ 32" by (rule "1.prems"(4))
      finally show "unat sz' < 2 ^ 32" .
    qed
    ultimately show ?thesis using tot by (simp add: bvec_set_page_def)
  qed
qed

subsection \<open>The example buffers, mapped\<close>

lemma ex_user_segments:
  "user_segments ex_kernel ex_pin 167840 200
     = [\<lparr>bv_page = 40, bv_len = 96, bv_offset = 4000\<rparr>, \<lparr>bv_page = 50, bv_len = 104, bv_offset = 0\<rparr>]"
  "user_segments ex_kernel ex_pin 167841 200
     = [\<lparr>bv_page = 40, bv_len = 95, bv_offset = 4001\<rparr>, \<lparr>bv_page = 50, bv_len = 105, bv_offset = 0\<rparr>]"
  unfolding user_segments_def ex_npages ex_segments by simp_all

lemma ex_bio_plain:
  "bio_integrity (ex_bio opf) = None" "\<not> bio_has_crypt_ctx (ex_bio opf)"
  "\<not> has_integrity_pool (ex_bio opf)"
  by (simp_all add: bio_integrity_def bio_has_crypt_ctx_def has_integrity_pool_def ex_bio_def)

lemma ex_bio_dir: "bio_data_dir (ex_bio 1) = WRITE" "bio_data_dir (ex_bio 0) = READ"
  by (simp_all add: bio_data_dir_def bio_op_def ex_bio_def REQ_OP_MASK_def REQ_OP_WRITE_def)

lemma ex_size_ok:
  "\<not> sint (signed_drop_bit SECTOR_SHIFT (200 :: u64))
       > uint (queue_max_hw_sectors (bdev_get_queue (bi_bdev (ex_bio opf))))"
  by (simp add: ex_limits SECTOR_SHIFT_def)

lemma ex_copy_from:
  "copy_from_iter_full (mem ex_state) 8192 (unat (ucast (200 :: u64) :: u32))
     (user_segments ex_kernel ex_pin 167840 200) \<noteq> None"
  "copy_from_iter_full (mem ex_state) 8192 (unat (ucast (200 :: u64) :: u32))
     (user_segments ex_kernel ex_pin 167841 200) \<noteq> None"
  by (simp_all add: ex_user_segments copy_from_iter_full_def Let_def)

lemma ex_pin_facts: "kcalloc_ok ex_pin" "0 \<le> extract_ret ex_pin"
  by (simp_all add: ex_pin_def)

lemma ex_allocs_facts: "bip_mem ex_allocs = Some 100" "buf_mem ex_allocs = Some 8192"
  by (simp_all add: ex_allocs_def)

lemma ex_npages_small:
  "iov_iter_npages 167840 200 (BIO_MAX_VECS + 1) \<le> UIO_FASTIOV
     \<or> (iov_iter_npages 167840 200 (BIO_MAX_VECS + 1) \<le> BIO_MAX_VECS \<and> kcalloc_ok ex_pin)"
  "iov_iter_npages 167841 200 (BIO_MAX_VECS + 1) \<le> UIO_FASTIOV
     \<or> (iov_iter_npages 167841 200 (BIO_MAX_VECS + 1) \<le> BIO_MAX_VECS \<and> kcalloc_ok ex_pin)"
  unfolding ex_npages by (simp_all add: UIO_FASTIOV_def)

lemma ex_segments_few:
  "length (user_segments ex_kernel ex_pin 167840 200) + 1 < 2 ^ 16"
  "length (user_segments ex_kernel ex_pin 167841 200) + 1 < 2 ^ 16"
  by (simp_all add: ex_user_segments)

lemma ex_map_succeeds:
  "\<exists>b' s'. bio_integrity_map_user ex_kernel ex_pin ex_allocs (ex_bio 1) 167840 200 7 ex_state
      = Some (0, b', s')"
  "\<exists>b' s'. bio_integrity_map_user ex_kernel ex_pin ex_allocs (ex_bio 1) 167841 200 7 ex_state
      = Some (0, b', s')"
  "\<exists>b' s'. bio_integrity_map_user ex_kernel ex_pin ex_allocs (ex_bio 0) 167841 200 7 ex_state
      = Some (0, b', s')"
proof -
  show "\<exists>b' s'. bio_integrity_map_user ex_kernel ex_pin ex_allocs (ex_bio 1) 167840 200 7 ex_state
      = Some (0, b', s')"
    using ex_copy_from(1)
    by (intro map_user_succeeds [OF ex_bio_plain(1) ex_size_ok ex_npages_small(1) ex_pin_facts(2)
          ex_bio_plain(2,3) ex_allocs_facts ex_segments_few(1)]) simp
  show "\<exists>b' s'. bio_integrity_map_user ex_kernel ex_pin ex_allocs (ex_bio 1) 167841 200 7 ex_state
      = Some (0, b', s')"
    using ex_copy_from(2)
    by (intro map_user_succeeds [OF ex_bio_plain(1) ex_size_ok ex_npages_small(2) ex_pin_facts(2)
          ex_bio_plain(2,3) ex_allocs_facts ex_segments_few(2)]) simp
  show "\<exists>b' s'. bio_integrity_map_user ex_kernel ex_pin ex_allocs (ex_bio 0) 167841 200 7 ex_state
      = Some (0, b', s')"
    by (intro map_user_succeeds [OF ex_bio_plain(1) ex_size_ok ex_npages_small(2) ex_pin_facts(2)
          ex_bio_plain(2,3) ex_allocs_facts ex_segments_few(2)]) (simp add: ex_bio_dir)
qed

subsection \<open>Zero copy or bounce buffer\<close>

text \<open>C3. When \<open>bio_integrity_map_user\<close> succeeds, the payload it attached has the flag
  \<open>BIP_COPY_USER\<close> clear exactly when the buffer's address and length are aligned to the
  queue's DMA alignment (and pad) mask and the coalesced segments are no more than the
  queue's maximum of integrity segments. With the flag clear the payload's array holds
  those segments, the pinned user pages themselves; with the flag set its first element is
  the bounce buffer.\<close>

theorem C3_zero_copy_iff:
  assumes ok: "bio_integrity_map_user k pn al b ubuf bytes seed s = Some (0, b', s')"
  shows "\<exists>bip. bio_integrity b' = Some bip
     \<and> (bip_flags bip AND BIP_COPY_USER = 0 \<longleftrightarrow>
          iov_iter_is_aligned ubuf bytes
            (blk_lim_dma_alignment_and_pad (limits (bdev_get_queue (bi_bdev b))))
          \<and> length (user_segments k pn ubuf bytes)
               \<le> unat (queue_max_integrity_segments (bdev_get_queue (bi_bdev b))))
     \<and> (bip_flags bip AND BIP_COPY_USER = 0 \<longrightarrow>
          bvec_range s' (bip_vec bip) 0 (length (user_segments k pn ubuf bytes))
            = Some (user_segments k pn ubuf bytes))
     \<and> (bip_flags bip AND BIP_COPY_USER \<noteq> 0 \<longrightarrow>
          (\<exists>buf. buf_mem al = Some buf
             \<and> bvec_get s' (bip_vec bip) 0
                 = Some (bvec_set_page (virt_to_page buf) (ucast bytes) (of_nat (offset_in_page buf)))))"
proof -
  let ?q = "bdev_get_queue (bi_bdev b)"
  let ?bvec = "user_segments k pn ubuf bytes"
  let ?copy = "\<not> iov_iter_is_aligned ubuf bytes (blk_lim_dma_alignment_and_pad (limits ?q))
             \<or> length ?bvec > unat (queue_max_integrity_segments ?q)"
  have cu: "BIP_COPY_USER AND BIP_COPY_USER \<noteq> 0" "(0 :: u16) AND BIP_COPY_USER = 0"
    by (simp_all add: BIP_COPY_USER_def)
  note inner = map_user_inner [OF ok, unfolded Let_def]
  show ?thesis
  proof (cases ?copy)
    case True
    with inner obtain ev dir where
      "bio_integrity_copy_user k al b ?bvec (ucast bytes) dir seed (log ev s) = Some (0, b', s')"
      by (auto split: if_splits)
    from copy_user_ok [OF this] obtain bip a buf where
      "buf_mem al = Some buf" "bio_integrity b' = Some bip" "bip_vec bip = Some a"
      "bip_flags bip = BIP_COPY_USER"
      "bvec_get s' (Some a) 0 = Some (bvec_set_page (virt_to_page buf) (ucast bytes) (of_nat (offset_in_page buf)))"
      by blast
    with True cu show ?thesis by (auto simp: not_le)
  next
    case False
    with inner obtain ev where
      "bio_integrity_init_user al b ?bvec (ucast bytes) seed (log ev s) = Some (0, b', s')"
      by (auto split: if_splits)
    from init_user_ok [OF this] obtain bip where
      "bio_integrity b' = Some bip" "bip_flags bip = 0"
      "bvec_range s' (bip_vec bip) 0 (length ?bvec) = Some ?bvec"
      by blast
    with False cu show ?thesis by (auto simp: not_le)
  qed
qed


theorem C3_zero_copy_iff_witness:
  "(\<exists>b' s' bip.
      bio_integrity_map_user ex_kernel ex_pin ex_allocs (ex_bio 1) 167840 200 7 ex_state
        = Some (0, b', s')
      \<and> bio_integrity b' = Some bip \<and> bip_flags bip AND BIP_COPY_USER = 0
      \<and> bvec_range s' (bip_vec bip) 0 2 = Some (user_segments ex_kernel ex_pin 167840 200))
   \<and> (\<exists>b' s' bip.
      bio_integrity_map_user ex_kernel ex_pin ex_allocs (ex_bio 1) 167841 200 7 ex_state
        = Some (0, b', s')
      \<and> bio_integrity b' = Some bip \<and> bip_flags bip AND BIP_COPY_USER \<noteq> 0
      \<and> bvec_get s' (bip_vec bip) 0 = Some \<lparr>bv_page = 2, bv_len = 200, bv_offset = 0\<rparr>)"
proof -
  from ex_map_succeeds(1) obtain b1 s1 where
    m1: "bio_integrity_map_user ex_kernel ex_pin ex_allocs (ex_bio 1) 167840 200 7 ex_state
           = Some (0, b1, s1)" by blast
  from ex_map_succeeds(2) obtain b2 s2 where
    m2: "bio_integrity_map_user ex_kernel ex_pin ex_allocs (ex_bio 1) 167841 200 7 ex_state
           = Some (0, b2, s2)" by blast
  have len: "length (user_segments ex_kernel ex_pin 167840 200) = 2"
    by (simp add: ex_user_segments)
  from C3_zero_copy_iff [OF m1]
  have z: "\<exists>bip. bio_integrity b1 = Some bip \<and> bip_flags bip AND BIP_COPY_USER = 0
      \<and> bvec_range s1 (bip_vec bip) 0 2 = Some (user_segments ex_kernel ex_pin 167840 200)"
    by (auto simp: ex_limits ex_aligned len)
  from C3_zero_copy_iff [OF m2]
  have c: "\<exists>bip. bio_integrity b2 = Some bip \<and> bip_flags bip AND BIP_COPY_USER \<noteq> 0
      \<and> bvec_get s2 (bip_vec bip) 0 = Some \<lparr>bv_page = 2, bv_len = 200, bv_offset = 0\<rparr>"
    by (auto simp: ex_limits ex_aligned ex_allocs_def bvec_set_page_def virt_to_page_def
        offset_in_page_def PAGE_SIZE_def)
  from m1 m2 z c show ?thesis by simp
qed

subsection \<open>Rejected mappings\<close>

text \<open>C8 (as stated, refuted). Mapping a user buffer to the prepared request, which has
  a payload, returns \<open>-EINVAL\<close> to the caller, with the request and the state as they
  were: an error the caller can handle. A fatal assertion is what \<open>bio_integrity_clone\<close>
  makes of a source without payload (\<^verbatim>\<open>BUG_ON\<close>), which has no result at all.\<close>

theorem C8_map_user_counterexample:
  "bio_integrity_map_user ex_kernel ex_pin ex_allocs (ex_prepared 1) 167840 200 7 ex_prepared_state
     = Some (- EINVAL, ex_prepared 1, ex_prepared_state)
   \<and> bio_integrity_clone ex_allocs ex_half (ex_bio 1) ex_state = None"
  by (simp add: bio_integrity_map_user_def ex_prepared_payload bio_integrity_clone_def
      ex_bio_plain)

text \<open>C8 (amended). \<open>bio_integrity_map_user\<close> returns \<open>-EINVAL\<close> when the request has a
  payload already, and otherwise \<open>-E2BIG\<close> when the length in sectors exceeds the queue's
  maximum of hardware sectors. Both are ordinary error returns; they come before anything
  is allocated or pinned (the result does not depend on the outcome of any allocation or
  of the pinning), and the request and the state are unchanged.\<close>

theorem C8_map_user_rejects:
  "(bio_integrity b \<noteq> None \<longrightarrow>
      bio_integrity_map_user k pn al b ubuf bytes seed s = Some (- EINVAL, b, s))
   \<and> (bio_integrity b = None
       \<and> sint (signed_drop_bit SECTOR_SHIFT bytes) > uint (queue_max_hw_sectors (bdev_get_queue (bi_bdev b))) \<longrightarrow>
      bio_integrity_map_user k pn al b ubuf bytes seed s = Some (- E2BIG, b, s))"
  by (simp add: bio_integrity_map_user_def Let_def)



theorem C8_map_user_rejects_witness:
  "bio_integrity (ex_prepared 1) \<noteq> None
   \<and> bio_integrity_map_user ex_kernel ex_pin ex_allocs (ex_prepared 1) 167840 200 7 ex_prepared_state
       = Some (- EINVAL, ex_prepared 1, ex_prepared_state)
   \<and> bio_integrity (ex_bio 1) = None
   \<and> sint (signed_drop_bit SECTOR_SHIFT (2097152 :: u64))
        > uint (queue_max_hw_sectors (bdev_get_queue (bi_bdev (ex_bio 1))))
   \<and> bio_integrity_map_user ex_kernel ex_pin ex_allocs (ex_bio 1) 167840 2097152 7 ex_state
       = Some (- E2BIG, ex_bio 1, ex_state)"
proof -
  have h1: "bio_integrity (ex_prepared 1) \<noteq> None" by (simp add: ex_prepared_payload)
  have h2: "bio_integrity (ex_bio 1) = None" by (rule ex_bio_plain)
  have h3: "sint (signed_drop_bit SECTOR_SHIFT (2097152 :: u64))
        > uint (queue_max_hw_sectors (bdev_get_queue (bi_bdev (ex_bio 1))))"
    by (simp add: ex_limits SECTOR_SHIFT_def)
  from C8_map_user_rejects [where b = "ex_prepared 1" and k = ex_kernel and pn = ex_pin
        and al = ex_allocs and ubuf = 167840 and bytes = 200 and seed = 7 and s = ex_prepared_state]
    C8_map_user_rejects [where b = "ex_bio 1" and k = ex_kernel and pn = ex_pin
        and al = ex_allocs and ubuf = 167840 and bytes = 2097152 and seed = 7 and s = ex_state]
    h1 h2 h3
  show ?thesis by simp
qed

subsection \<open>The invariant of a payload\<close>









lemma div_round_up: "0 < p \<Longrightarrow> (a :: nat) \<le> (a + p - 1) div p * p"
proof -
  assume p: "0 < p"
  have "a + p - 1 = (a + p - 1) div p * p + (a + p - 1) mod p" by simp
  moreover have "(a + p - 1) mod p < p" using p by simp
  ultimately show ?thesis by arith
qed

lemma user_segments_sum:
  assumes nr: "iov_iter_npages ubuf bytes (BIO_MAX_VECS + 1) \<le> BIO_MAX_VECS"
  shows "(\<Sum>bv\<leftarrow>user_segments k pn ubuf bytes. unat (bv_len bv)) = unat bytes"
    and "unat bytes < 2 ^ 32"
proof -
  define n where "n = iov_iter_npages ubuf bytes (BIO_MAX_VECS + 1)"
  define off :: u64 where "off = of_nat (offset_in_page ubuf)"
  obtain bvs evs where l: "bvec_from_pages_loop k (extract_pages pn) n 0 bytes off = (bvs, evs)"
    by (cases "bvec_from_pages_loop k (extract_pages pn) n 0 bytes off") auto
  then have us: "user_segments k pn ubuf bytes = bvs"
    by (simp add: user_segments_def bvec_from_pages_def n_def off_def)
  have "(\<Sum>bv\<leftarrow>bvs. unat (bv_len bv)) = unat bytes \<and> unat bytes < 2 ^ 32"
  proof (cases "bytes = 0")
    case True
    then have "n = 0" by (simp add: n_def iov_iter_npages_def)
    with l have "bvs = []" by (simp add: bvec_from_pages_loop_stop)
    with True show ?thesis by simp
  next
    case False
    have uo: "unat off = offset_in_page ubuf"
      by (simp add: off_def offset_in_page_def PAGE_SIZE_def unat_of_nat)
    have lt: "unat off < PAGE_SIZE" by (simp add: uo offset_in_page_def PAGE_SIZE_def)
    have n: "n = (offset_in_page ubuf + unat bytes + PAGE_SIZE - 1) div PAGE_SIZE"
      and n256: "n \<le> 256"
      using nr False by (simp_all add: n_def iov_iter_npages_def BIO_MAX_VECS_def)
    have "offset_in_page ubuf + unat bytes \<le> n * PAGE_SIZE"
      unfolding n by (rule div_round_up) (simp add: PAGE_SIZE_def)
    then have cover: "unat bytes + unat off \<le> (n - 0) * PAGE_SIZE" by (simp add: uo)
    have "n * PAGE_SIZE \<le> 256 * PAGE_SIZE" using n256 by (rule mult_le_mono1)
    then have small: "(n - 0) * PAGE_SIZE < 2 ^ 32" by (simp add: PAGE_SIZE_def)
    from bvec_from_pages_loop_sum [OF l lt cover small]
    have "(\<Sum>bv\<leftarrow>bvs. unat (bv_len bv)) = unat bytes" .
    moreover have "unat bytes < 2 ^ 32" using cover small by arith
    ultimately show ?thesis by simp
  qed
  then show "(\<Sum>bv\<leftarrow>user_segments k pn ubuf bytes. unat (bv_len bv)) = unat bytes"
    and "unat bytes < 2 ^ 32"
    by (simp_all add: us)
qed

lemma map_user_npages:
  assumes "bio_integrity_map_user k pn al b ubuf bytes seed s = Some (0, b', s')"
  shows "iov_iter_npages ubuf bytes (BIO_MAX_VECS + 1) \<le> BIO_MAX_VECS"
  using assms
  unfolding bio_integrity_map_user_def Let_def
  by (auto simp: EINVAL_def E2BIG_def split: if_splits)





























subsection \<open>The bounce buffer: data in and out\<close>

lemma disjoint_segments_mono:
  "disjoint_segments U bvs \<Longrightarrow> V \<subseteq> U \<Longrightarrow> disjoint_segments V bvs"
proof (induction bvs arbitrary: U V)
  case Nil
  then show ?case by simp
next
  case (Cons bv bvs)
  from Cons.prems have d: "seg_region bv \<inter> U = {}"
    and r: "disjoint_segments (U \<union> seg_region bv) bvs" by simp_all
  from d Cons.prems(2) have "seg_region bv \<inter> V = {}" by blast
  moreover have "V \<union> seg_region bv \<subseteq> U \<union> seg_region bv" using Cons.prems(2) by blast
  from Cons.IH [OF r this] have "disjoint_segments (V \<union> seg_region bv) bvs" .
  ultimately show ?case by simp
qed

lemma disjoint_segments_regions:
  "disjoint_segments U bvs \<Longrightarrow> bv \<in> set bvs \<Longrightarrow> seg_region bv \<inter> U = {}"
proof (induction bvs arbitrary: U)
  case Nil
  then show ?case by simp
next
  case (Cons a bvs)
  show ?case
  proof (cases "bv = a")
    case True
    with Cons.prems show ?thesis by simp
  next
    case False
    with Cons.prems have "bv \<in> set bvs" "disjoint_segments (U \<union> seg_region a) bvs" by simp_all
    from Cons.IH [OF this(2) this(1)] show ?thesis by blast
  qed
qed

lemma copy_to_iter_frame:
  "\<forall>bv \<in> set bvs. x \<notin> seg_region bv \<Longrightarrow> copy_to_iter m src n bvs x = m x"
proof (induction bvs arbitrary: m src n)
  case Nil
  then show ?case by simp
next
  case (Cons bv bvs)
  from Cons.prems have x: "x \<notin> seg_region bv" and r: "\<forall>bv \<in> set bvs. x \<notin> seg_region bv"
    by simp_all
  have "memcpy m (bvec_virt bv) src (min n (unat (bv_len bv))) x = m x"
    using x by (auto simp: memcpy_def seg_region_def)
  with Cons.IH [OF r] show ?case by (simp add: Let_def)
qed

lemma read_segments_cong:
  "\<forall>bv \<in> set bvs. \<forall>x \<in> seg_region bv. m x = m' x \<Longrightarrow> read_segments m bvs = read_segments m' bvs"
  by (induction bvs) (auto simp: read_segments_def seg_region_def)

lemma map_upt_split:
  "a \<le> b \<Longrightarrow> b \<le> c \<Longrightarrow> map f [a ..< c] = map f [a ..< b] @ map f [b ..< c]"
proof -
  assume "a \<le> b" "b \<le> c"
  then obtain k where k: "c = b + k" by (auto simp: le_iff_add)
  have "[a ..< b + k] = [a ..< b] @ [b ..< b + k]" using \<open>a \<le> b\<close> by (rule upt_add_eq_append)
  then show ?thesis unfolding k by (simp only: map_append)
qed

lemma map_upt_shift:
  "(\<And>i. i < n \<Longrightarrow> f (a + i) = g (b + i)) \<Longrightarrow> map f [a ..< a + n] = map g [b ..< b + n]"
  by (rule nth_equalityI) (simp_all add: add.commute)

lemma copy_to_iter_read:
  assumes "disjoint_segments U bvs" "{src ..< src + n} \<subseteq> U"
    and "(\<Sum>bv\<leftarrow>bvs. unat (bv_len bv)) = n"
  shows "read_segments (copy_to_iter m src n bvs) bvs = map m [src ..< src + n]"
  using assms
proof (induction bvs arbitrary: m src n U)
  case Nil
  then show ?case by (simp add: read_segments_def)
next
  case (Cons bv bvs)
  define l where "l = unat (bv_len bv)"
  define m1 where "m1 = memcpy m (bvec_virt bv) src l"
  define fin where "fin = copy_to_iter m1 (src + l) (n - l) bvs"
  from Cons.prems(3) have ln: "l \<le> n" and rest: "(\<Sum>bv\<leftarrow>bvs. unat (bv_len bv)) = n - l"
    by (simp_all add: l_def)
  then have c: "min n l = l" by simp
  have fin_eq: "copy_to_iter m src n (bv # bvs) = fin"
    by (simp add: fin_def m1_def Let_def l_def [symmetric] c)
  from Cons.prems(1) have d1: "seg_region bv \<inter> U = {}"
    and d2: "disjoint_segments (U \<union> seg_region bv) bvs" by simp_all
  have sub: "{src + l ..< src + l + (n - l)} \<subseteq> U \<union> seg_region bv"
    using Cons.prems(2) ln by auto
  from Cons.IH [OF d2 sub rest, of m1]
  have ih: "read_segments fin bvs = map m1 [src + l ..< src + l + (n - l)]" by (simp add: fin_def)
  have m1src: "m1 x = m x" if "x \<in> U" for x
    using that d1 by (auto simp: m1_def memcpy_def seg_region_def l_def)
  have "src + l + (n - l) = src + n" using ln by simp
  moreover have "\<forall>x \<in> set [src + l ..< src + n]. m1 x = m x"
    using Cons.prems(2) by (auto intro!: m1src)
  ultimately have tl: "read_segments fin bvs = map m [src + l ..< src + n]"
    unfolding ih by (simp only: map_eq_conv)
  have notin: "\<forall>b' \<in> set bvs. x \<notin> seg_region b'" if "x \<in> seg_region bv" for x
    using disjoint_segments_regions [OF d2] that by auto
  have hd: "map fin [bvec_virt bv ..< bvec_virt bv + l] = map m [src ..< src + l]"
  proof (rule map_upt_shift)
    fix i assume i: "i < l"
    then have "bvec_virt bv + i \<in> seg_region bv" by (simp add: seg_region_def l_def)
    from copy_to_iter_frame [OF notin [OF this]]
    have "fin (bvec_virt bv + i) = m1 (bvec_virt bv + i)" by (simp add: fin_def)
    also have "\<dots> = m (src + i)" using i by (simp add: m1_def memcpy_def)
    finally show "fin (bvec_virt bv + i) = m (src + i)" .
  qed
  have "read_segments fin (bv # bvs) = map m [src ..< src + l] @ map m [src + l ..< src + n]"
    using hd tl by (simp add: read_segments_def l_def)
  also have "\<dots> = map m [src ..< src + n]"
    by (rule map_upt_split [symmetric]) (use ln in simp_all)
  finally show ?case by (simp only: fin_eq)
qed


lemma copy_from_iter_read:
  assumes "\<forall>bv \<in> set bvs. seg_region bv \<inter> {dst ..< dst + n} = {}"
    and "(\<Sum>bv\<leftarrow>bvs. unat (bv_len bv)) = n"
  shows "snd (copy_from_iter m dst n bvs) = 0
     \<and> map (fst (copy_from_iter m dst n bvs)) [dst ..< dst + n] = read_segments m bvs
     \<and> (\<forall>x. x \<notin> {dst ..< dst + n} \<longrightarrow> fst (copy_from_iter m dst n bvs) x = m x)"
  using assms
proof (induction bvs arbitrary: m dst n)
  case Nil
  then show ?case by (simp add: read_segments_def)
next
  case (Cons bv bvs)
  define l where "l = unat (bv_len bv)"
  define m1 where "m1 = memcpy m dst (bvec_virt bv) l"
  define r where "r = copy_from_iter m1 (dst + l) (n - l) bvs"
  from Cons.prems(2) have ln: "l \<le> n" and rest: "(\<Sum>bv\<leftarrow>bvs. unat (bv_len bv)) = n - l"
    by (simp_all add: l_def)
  then have c: "min n l = l" by simp
  have r_eq: "copy_from_iter m dst n (bv # bvs) = r"
    by (simp add: r_def m1_def Let_def l_def [symmetric] c)
  have e: "dst + l + (n - l) = dst + n" using ln by simp
  have dis: "\<forall>b' \<in> set bvs. seg_region b' \<inter> {dst + l ..< dst + l + (n - l)} = {}"
  proof
    fix b' assume "b' \<in> set bvs"
    with Cons.prems(1) have "seg_region b' \<inter> {dst ..< dst + n} = {}" by simp
    moreover have "{dst + l ..< dst + l + (n - l)} \<subseteq> {dst ..< dst + n}" using ln by auto
    ultimately show "seg_region b' \<inter> {dst + l ..< dst + l + (n - l)} = {}" by blast
  qed
  from Cons.IH [OF dis rest, of m1]
  have left: "snd r = 0"
    and tl: "map (fst r) [dst + l ..< dst + n] = read_segments m1 bvs"
    and frame: "\<And>x. x \<notin> {dst + l ..< dst + n} \<Longrightarrow> fst r x = m1 x"
    by (simp_all add: r_def e)
  have m1frame: "m1 x = m x" if "x \<notin> {dst ..< dst + l}" for x
    using that by (auto simp: m1_def memcpy_def)
  have "read_segments m1 bvs = read_segments m bvs"
  proof (rule read_segments_cong, intro ballI)
    fix b' x assume b': "b' \<in> set bvs" and x: "x \<in> seg_region b'"
    from Cons.prems(1) b' have "seg_region b' \<inter> {dst ..< dst + n} = {}" by simp
    with x have "x \<notin> {dst ..< dst + n}" by blast
    with ln have "x \<notin> {dst ..< dst + l}" by auto
    then show "m1 x = m x" by (rule m1frame)
  qed
  with tl have tl': "map (fst r) [dst + l ..< dst + n] = read_segments m bvs" by simp
  have hd: "map (fst r) [dst ..< dst + l] = map m [bvec_virt bv ..< bvec_virt bv + l]"
  proof (rule map_upt_shift)
    fix i assume i: "i < l"
    then have "dst + i \<notin> {dst + l ..< dst + n}" by simp
    from frame [OF this] have "fst r (dst + i) = m1 (dst + i)" .
    also have "\<dots> = m (bvec_virt bv + i)" using i by (simp add: m1_def memcpy_def)
    finally show "fst r (dst + i) = m (bvec_virt bv + i)" .
  qed
  have "map (fst r) [dst ..< dst + n] = map (fst r) [dst ..< dst + l] @ map (fst r) [dst + l ..< dst + n]"
    by (rule map_upt_split) (use ln in simp_all)
  also have "\<dots> = read_segments m (bv # bvs)"
    using hd tl' by (simp add: read_segments_def l_def)
  finally have all: "map (fst r) [dst ..< dst + n] = read_segments m (bv # bvs)" .
  have fr: "\<forall>x. x \<notin> {dst ..< dst + n} \<longrightarrow> fst r x = m x"
  proof (intro allI impI)
    fix x assume x: "x \<notin> {dst ..< dst + n}"
    with ln have "x \<notin> {dst + l ..< dst + n}" "x \<notin> {dst ..< dst + l}" by auto
    with frame m1frame show "fst r x = m x" by simp
  qed
  from left all fr show ?case by (simp only: r_eq)
qed

lemma bvec_from_pages_loop_length:
  "bvec_from_pages_loop k pages nr_vecs i bytes offset = (bvs, evs) \<Longrightarrow> length bvs \<le> nr_vecs - i"
proof (induction k pages nr_vecs i bytes offset arbitrary: bvs evs rule: bvec_from_pages_loop.induct)
  case (1 k pages nr_vecs i bytes offset)
  show ?case
  proof (cases "i < nr_vecs")
    case False
    with "1.prems" show ?thesis by (simp add: bvec_from_pages_loop_stop)
  next
    case True
    define sz :: u64 where "sz = min bytes (of_nat PAGE_SIZE - offset)"
    define folio where "folio = page_folio k (pages i)"
    obtain j sz' bytes' ev where mr:
      "merge_run k pages nr_vecs folio (i + 1) sz (bytes - sz) [] = (j, sz', bytes', ev)"
      by (cases "merge_run k pages nr_vecs folio (i + 1) sz (bytes - sz) []") auto
    obtain bvs' evs' where rest: "bvec_from_pages_loop k pages nr_vecs j bytes' 0 = (bvs', evs')"
      by (cases "bvec_from_pages_loop k pages nr_vecs j bytes' 0") auto
    have ij: "i + 1 \<le> j" using mr by (rule merge_run_index)
    have "length bvs' \<le> nr_vecs - j"
      by (rule "1.IH" [OF True sz_def folio_def mr [symmetric] refl refl rest])
    moreover have "bvs = bvec_set_page (pages i) (ucast sz') (ucast offset) # bvs'"
      using bvec_from_pages_loop_step [OF True mr [unfolded sz_def folio_def] rest] "1.prems"
      by simp
    ultimately show ?thesis using ij True by simp
  qed
qed

lemma user_segments_length:
  "length (user_segments k pn ubuf bytes) \<le> iov_iter_npages ubuf bytes (BIO_MAX_VECS + 1)"
proof -
  obtain bvs evs where l: "bvec_from_pages_loop k (extract_pages pn)
      (iov_iter_npages ubuf bytes (BIO_MAX_VECS + 1)) 0 bytes (of_nat (offset_in_page ubuf)) = (bvs, evs)"
    by (cases "bvec_from_pages_loop k (extract_pages pn)
      (iov_iter_npages ubuf bytes (BIO_MAX_VECS + 1)) 0 bytes (of_nat (offset_in_page ubuf))") auto
  from bvec_from_pages_loop_length [OF l] show ?thesis
    unfolding user_segments_def bvec_from_pages_def l by simp
qed

lemma copy_user_finish_opf:
  assumes al: "bio_integrity_alloc al b n s0 = (Inr bip, b1, s1)"
    and f: "copy_user_finish k b1 bip bvec buf len write seed s1 = Some (0, b', s')"
  shows "bi_opf b' = bi_opf b OR REQ_INTEGRITY"
proof -
  note a = alloc_Inr [OF al]
  have b1: "bio_integrity b1 = Some bip" using a by (simp add: bio_integrity_attach)
  have v0: "bip_vcnt bip = 0" using a by simp
  from f have "bi_opf b' = bi_opf b1"
    by (auto simp: copy_user_finish_def add_page_zero_vcnt [OF b1 v0] split: option.splits)
  with a show ?thesis by (simp add: attach_def)
qed

lemma copy_user_opf:
  assumes ok: "bio_integrity_copy_user k al b bvec len dir seed s = Some (0, b', s')"
  shows "bi_opf b' = bi_opf b OR REQ_INTEGRITY"
proof -
  from ok obtain buf where buf: "buf_mem al = Some buf"
    by (auto simp: bio_integrity_copy_user_def Let_def ENOMEM_def split: option.splits)
  have "\<exists>m0 n0 r b1 s1. bio_integrity_alloc al b n0 (s\<lparr>mem := m0\<rparr>) = (r, b1, s1)
      \<and> (case r of Inl e \<Rightarrow> Some (e, b1, log [Kfree buf] s1)
           | Inr bip \<Rightarrow> copy_user_finish k b1 bip bvec buf len (dir = ITER_SOURCE) seed s1)
          = Some (0, b', s')"
  proof (cases dir)
    case ITER_SOURCE
    from ok buf ITER_SOURCE obtain m' where m': "copy_from_iter_full (mem s) buf (unat len) bvec = Some m'"
      by (auto simp: bio_integrity_copy_user_def Let_def EFAULT_def split: option.splits)
    obtain r b1 s1 where al0: "bio_integrity_alloc al b 1 (s\<lparr>mem := m'\<rparr>) = (r, b1, s1)"
      by (cases "bio_integrity_alloc al b 1 (s\<lparr>mem := m'\<rparr>)") auto
    from ok buf ITER_SOURCE m' al0
    have "(case r of Inl e \<Rightarrow> Some (e, b1, log [Kfree buf] s1)
           | Inr bip \<Rightarrow> copy_user_finish k b1 bip bvec buf len (dir = ITER_SOURCE) seed s1)
          = Some (0, b', s')"
      by (cases r) (simp_all add: bio_integrity_copy_user_def Let_def)
    with al0 show ?thesis by blast
  next
    case ITER_DEST
    let ?s0 = "s\<lparr>mem := zero_fill (mem s) buf (unat len)\<rparr>"
    obtain r b1 s1 where al0: "bio_integrity_alloc al b (of_nat (length bvec + 1)) ?s0 = (r, b1, s1)"
      by (cases "bio_integrity_alloc al b (of_nat (length bvec + 1)) ?s0") auto
    from ok buf ITER_DEST al0
    have "(case r of Inl e \<Rightarrow> Some (e, b1, log [Kfree buf] s1)
           | Inr bip \<Rightarrow> copy_user_finish k b1 bip bvec buf len (dir = ITER_SOURCE) seed s1)
          = Some (0, b', s')"
      by (cases r) (simp_all add: bio_integrity_copy_user_def Let_def)
    with al0 show ?thesis by blast
  qed
  then obtain m0 n0 r b1 s1 where al0: "bio_integrity_alloc al b n0 (s\<lparr>mem := m0\<rparr>) = (r, b1, s1)"
    and call: "(case r of Inl e \<Rightarrow> Some (e, b1, log [Kfree buf] s1)
           | Inr bip \<Rightarrow> copy_user_finish k b1 bip bvec buf len (dir = ITER_SOURCE) seed s1)
          = Some (0, b', s')"
    by blast
  show ?thesis
  proof (cases r)
    case (Inl e)
    with al0 alloc_Inl [of al b n0 "s\<lparr>mem := m0\<rparr>" e b1 s1] call show ?thesis by simp
  next
    case (Inr bip)
    with call
    have "copy_user_finish k b1 bip bvec buf len (dir = ITER_SOURCE) seed s1 = Some (0, b', s')"
      by simp
    from copy_user_finish_opf [OF al0 [unfolded Inr] this] show ?thesis .
  qed
qed

lemma bio_data_dir_opf:
  "bi_opf b' = bi_opf b OR REQ_INTEGRITY \<Longrightarrow> bio_data_dir b' = bio_data_dir b"
  by (simp add: bio_data_dir_def bio_op_def op_mask_integrity)


lemma bounce_virt:
  "bvec_virt (bvec_set_page (virt_to_page buf) len (of_nat (offset_in_page buf))) = buf"
proof -
  have "buf mod PAGE_SIZE < PAGE_SIZE" by (simp add: PAGE_SIZE_def)
  then have "buf mod PAGE_SIZE < 2 ^ 32" by (simp add: PAGE_SIZE_def)
  then have "unat (of_nat (buf mod PAGE_SIZE) :: u32) = buf mod PAGE_SIZE"
    by (simp add: unat_of_nat)
  then show ?thesis
    by (simp add: bvec_virt_def bvec_set_page_def virt_to_page_def offset_in_page_def)
qed

lemma bvec_get_mem [simp]: "bvec_get (s\<lparr>mem := m\<rparr>) p i = bvec_get s p i"
  by (simp add: bvec_get_def split: option.splits)

lemma bvec_range_mem [simp]: "bvec_range (s\<lparr>mem := m\<rparr>) p i n = bvec_range s p i n"
  by (simp add: bvec_range_def split: option.splits)

lemma map_user_copy:
  assumes ok: "bio_integrity_map_user k pn al b ubuf bytes seed s = Some (0, b', s')"
    and bip: "bio_integrity b' = Some bip" and copy: "bip_flags bip AND BIP_COPY_USER \<noteq> 0"
  shows "bio_integrity_copy_user k al b (user_segments k pn ubuf bytes) (ucast bytes)
           (if bio_data_dir b = READ then ITER_DEST else ITER_SOURCE) seed
           (log (coalesce_unpins k pn ubuf bytes) s) = Some (0, b', s')"
proof -
  let ?c = "\<not> iov_iter_is_aligned ubuf bytes
            (blk_lim_dma_alignment_and_pad (limits (bdev_get_queue (bi_bdev b))))
        \<or> length (user_segments k pn ubuf bytes)
             > unat (queue_max_integrity_segments (bdev_get_queue (bi_bdev b)))"
  have c: ?c
  proof (rule ccontr)
    assume n: "\<not> ?c"
    with map_user_inner [OF ok]
    have "bio_integrity_init_user al b (user_segments k pn ubuf bytes) (ucast bytes) seed
        (log (coalesce_unpins k pn ubuf bytes) s) = Some (0, b', s')"
      by (simp add: Let_def coalesce_unpins_def)
    from init_user_ok [OF this] bip have "bip_flags bip = 0" by auto
    with copy show False by simp
  qed
  with map_user_inner [OF ok] show ?thesis
    by (simp add: Let_def coalesce_unpins_def)
qed

lemma ex_copy_payload:
  "\<exists>b' s' bip. bio_integrity_map_user ex_kernel ex_pin ex_allocs (ex_bio opf) 167841 200 7 ex_state
        = Some (0, b', s')
      \<and> bio_integrity b' = Some bip \<and> bip_flags bip = BIP_COPY_USER"
  if "opf = 0 \<or> opf = 1"
proof -
  from that ex_map_succeeds(2,3) obtain b' s' where
    m: "bio_integrity_map_user ex_kernel ex_pin ex_allocs (ex_bio opf) 167841 200 7 ex_state
        = Some (0, b', s')" by blast
  from map_user_inner [OF m]
  have "\<exists>ev dir. bio_integrity_copy_user ex_kernel ex_allocs (ex_bio opf)
      (user_segments ex_kernel ex_pin 167841 200) (ucast (200 :: u64)) dir 7 (log ev ex_state)
        = Some (0, b', s')"
    by (simp add: Let_def ex_limits ex_aligned) blast
  then obtain ev dir where "bio_integrity_copy_user ex_kernel ex_allocs (ex_bio opf)
      (user_segments ex_kernel ex_pin 167841 200) (ucast (200 :: u64)) dir 7 (log ev ex_state)
        = Some (0, b', s')" by blast
  from copy_user_ok [OF this] obtain bip where
    "bio_integrity b' = Some bip" "bip_flags bip = BIP_COPY_USER"
    by blast
  with m show ?thesis by blast
qed

lemma ex_disjoint:
  "disjoint_segments {8192 ..< 8192 + unat (200 :: u64)} (user_segments ex_kernel ex_pin 167841 200)"
  by (simp add: ex_user_segments seg_region_def bvec_virt_def PAGE_SIZE_def Int_Un_distrib)

lemma ex_copy_read_payload:
  "\<exists>b' s' bip. bio_integrity_map_user ex_kernel ex_pin ex_allocs (ex_bio 0) 167841 200 7 ex_state
        = Some (0, b', s')
      \<and> bio_integrity b' = Some bip \<and> bip_flags bip = BIP_COPY_USER
      \<and> unat (bip_max_vcnt bip) = 3"
proof -
  from ex_map_succeeds(3) obtain b' s' where
    m: "bio_integrity_map_user ex_kernel ex_pin ex_allocs (ex_bio 0) 167841 200 7 ex_state
        = Some (0, b', s')" by blast
  from map_user_inner [OF m]
  have "\<exists>ev. bio_integrity_copy_user ex_kernel ex_allocs (ex_bio 0)
      (user_segments ex_kernel ex_pin 167841 200) (ucast (200 :: u64)) ITER_DEST 7 (log ev ex_state)
        = Some (0, b', s')"
    by (simp add: Let_def ex_limits ex_aligned ex_bio_dir) blast
  then obtain ev where "bio_integrity_copy_user ex_kernel ex_allocs (ex_bio 0)
      (user_segments ex_kernel ex_pin 167841 200) (ucast (200 :: u64)) ITER_DEST 7 (log ev ex_state)
        = Some (0, b', s')" ..
  from copy_user_ok [OF this] obtain bip where
    bip: "bio_integrity b' = Some bip" "bip_flags bip = BIP_COPY_USER"
    and mx: "bip_max_vcnt bip =
             (if has_integrity_pool (ex_bio 0)
                 \<and> (of_nat (length (user_segments ex_kernel ex_pin 167841 200) + 1) :: u32) > of_nat BIO_INLINE_VECS
              then snd (the (bvec_mem ex_allocs))
              else ucast (of_nat (length (user_segments ex_kernel ex_pin 167841 200) + 1) :: u32))"
    by blast
  from mx have "unat (bip_max_vcnt bip) = 3" by (simp add: ex_bio_plain ex_user_segments)
  with m bip show ?thesis by blast
qed

text \<open>Let \<open>bio_integrity_map_user\<close> have succeeded through the bounce buffer \<open>buf\<close>, and
  let the user segments overlap neither each other nor the bounce buffer. For a read, when
  the payload reports the \<open>n + 1\<close> elements that were asked for, the user segments are
  elements 1 to \<open>n\<close> of the array, and \<open>bio_integrity_unmap_user\<close>, from any contents \<open>m\<close>
  of memory after the transfer, copies the bounce buffer to them, then dirties and unpins
  their pages, then frees the bounce buffer: read in order, the user segments then hold
  exactly the bytes of the bounce buffer. For a write, after the mapping the bounce buffer
  holds the bytes of the user segments, which are unchanged and whose pages were unpinned,
  not dirtied, by the mapping; \<open>bio_integrity_unmap_user\<close> only frees the bounce buffer.\<close>

lemma copy_round_trip:
  assumes ok: "bio_integrity_map_user k pn al b ubuf bytes seed s = Some (0, b', s')"
    and bip: "bio_integrity b' = Some bip" and copy: "bip_flags bip AND BIP_COPY_USER \<noteq> 0"
    and buf: "buf_mem al = Some buf"
    and dis: "disjoint_segments {buf ..< buf + unat bytes} (user_segments k pn ubuf bytes)"
  shows "(bio_data_dir b = READ
          \<and> unat (bip_max_vcnt bip) = length (user_segments k pn ubuf bytes) + 1
         \<longrightarrow>
            bvec_range s' (bip_vec bip) 1 (length (user_segments k pn ubuf bytes))
              = Some (user_segments k pn ubuf bytes)
            \<and> bio_integrity_unmap_user k b' (s'\<lparr>mem := m\<rparr>)
              = Some (log [Kfree buf]
                   (log (bio_integrity_unpin_bvec k (user_segments k pn ubuf bytes) True)
                      (s'\<lparr>mem := copy_to_iter m buf (unat bytes) (user_segments k pn ubuf bytes)\<rparr>)))
            \<and> read_segments (copy_to_iter m buf (unat bytes) (user_segments k pn ubuf bytes))
                 (user_segments k pn ubuf bytes)
               = map m [buf ..< buf + unat bytes])
       \<and> (bio_data_dir b = WRITE \<longrightarrow>
            map (mem s') [buf ..< buf + unat bytes] = read_segments (mem s) (user_segments k pn ubuf bytes)
            \<and> read_segments (mem s') (user_segments k pn ubuf bytes)
                = read_segments (mem s) (user_segments k pn ubuf bytes)
            \<and> trace s' = trace s @ coalesce_unpins k pn ubuf bytes
                  @ bio_integrity_unpin_bvec k (user_segments k pn ubuf bytes) False
            \<and> bio_integrity_unmap_user k b' (s'\<lparr>mem := m\<rparr>) = Some (log [Kfree buf] (s'\<lparr>mem := m\<rparr>)))"
proof -
  define segs where "segs = user_segments k pn ubuf bytes"
  define n where "n = length segs"
  define len :: u32 where "len = ucast bytes"
  define ev where "ev = coalesce_unpins k pn ubuf bytes"
  let ?bounce = "bvec_set_page (virt_to_page buf) len (of_nat (offset_in_page buf))"
  note np = map_user_npages [OF ok]
  from user_segments_sum(1) [OF np, of k pn] user_segments_sum(2) [OF np]
  have sum: "(\<Sum>bv\<leftarrow>segs. unat (bv_len bv)) = unat bytes" and b32: "unat bytes < 2 ^ 32"
    by (simp_all add: segs_def)
  have ulen: "unat len = unat bytes" unfolding len_def using b32 by (rule unat_ucast_u64_u32)
  have n256: "n \<le> 256"
    using user_segments_length [of k pn ubuf bytes] np by (simp add: n_def segs_def BIO_MAX_VECS_def)
  note cu = map_user_copy [OF ok bip copy, folded segs_def len_def ev_def]
  have dir': "bio_data_dir b' = bio_data_dir b"
    using copy_user_opf [OF cu] by (rule bio_data_dir_opf)
  let ?dir = "if bio_data_dir b = READ then ITER_DEST else ITER_SOURCE"
  from copy_user_ok [OF cu] obtain bip0 a buf0 where
    f0: "buf_mem al = Some buf0" "bio_integrity b' = Some bip0" "bip_vec bip0 = Some a"
      "bvec_get s' (Some a) 0
         = Some (bvec_set_page (virt_to_page buf0) len (of_nat (offset_in_page buf0)))"
    and s0: "?dir = ITER_SOURCE \<longrightarrow>
           bip_max_vcnt bip0 = 1
           \<and> copy_from_iter_full (mem (log ev s)) buf (unat len) segs = Some (mem s')
           \<and> trace s' = trace (log ev s) @ bio_integrity_unpin_bvec k segs False"
    and d0: "?dir = ITER_DEST \<longrightarrow>
           bip_max_vcnt bip0 =
             (if has_integrity_pool b \<and> (of_nat (length segs + 1) :: u32) > of_nat BIO_INLINE_VECS
              then snd (the (bvec_mem al)) else ucast (of_nat (length segs + 1) :: u32))
           \<and> mem s' = zero_fill (mem (log ev s)) buf (unat len) \<and> trace s' = trace (log ev s)
           \<and> bvec_range s' (Some a) 1 (length segs) = Some segs"
    using buf by fastforce
  from f0 bip buf have e: "bip0 = bip" "buf0 = buf" by simp_all
  note a = f0(3) [unfolded e] and g0 = f0(4) [unfolded e]
  have src: "copy_from_iter_full (mem (log ev s)) buf (unat len) segs = Some (mem s')
           \<and> trace s' = trace (log ev s) @ bio_integrity_unpin_bvec k segs False"
    if "bio_data_dir b \<noteq> READ"
    using s0 that by simp
  have dst: "bip_max_vcnt bip =
             (if has_integrity_pool b \<and> (of_nat (length segs + 1) :: u32) > of_nat BIO_INLINE_VECS
              then snd (the (bvec_mem al)) else ucast (of_nat (length segs + 1) :: u32))
           \<and> bvec_range s' (Some a) 1 (length segs) = Some segs"
    if "bio_data_dir b = READ"
    using d0 that unfolding e by (simp only: if_True simp_thms)
  have virt: "bvec_virt ?bounce = buf" by (rule bounce_virt)
  have blen: "unat (bv_len ?bounce) = unat bytes" by (simp add: bvec_set_page_def ulen)
  have flag: "bip_flags bip AND BIP_COPY_USER \<noteq> 0" by (rule copy)
  have rd: ?thesis if rd: "bio_data_dir b = READ"
    and cap: "unat (bip_max_vcnt bip) = length (user_segments k pn ubuf bytes) + 1"
  proof -
    from dst [OF rd] have rg: "bvec_range s' (Some a) 1 n = Some segs"
      unfolding n_def [symmetric] by blast
    from cap have umx: "unat (bip_max_vcnt bip) = n + 1" by (simp add: n_def segs_def)
    have "(1 :: u16) \<le> bip_max_vcnt bip" using umx by (simp add: word_le_nat_alt)
    then have "unat (bip_max_vcnt bip - 1) = unat (bip_max_vcnt bip) - unat (1 :: u16)"
      by (rule unat_sub)
    then have orig: "unat (bip_max_vcnt bip - 1) = n" by (simp add: umx)
    have un: "bio_integrity_uncopy_user k bip (s'\<lparr>mem := m\<rparr>)
        = Some (log (bio_integrity_unpin_bvec k segs True)
                  (s'\<lparr>mem := copy_to_iter m buf (unat bytes) segs\<rparr>))"
      using rg by (simp add: bio_integrity_uncopy_user_def Let_def orig a g0 virt blen)
    have g1: "bvec_get (log (bio_integrity_unpin_bvec k segs True)
                  (s'\<lparr>mem := copy_to_iter m buf (unat bytes) segs\<rparr>)) (Some a) 0 = Some ?bounce"
      by (simp add: bvec_get_log g0)
    have um: "bio_integrity_unmap_user k b' (s'\<lparr>mem := m\<rparr>)
        = Some (log [Kfree buf] (log (bio_integrity_unpin_bvec k segs True)
                  (s'\<lparr>mem := copy_to_iter m buf (unat bytes) segs\<rparr>)))"
      using flag
      by (simp add: bio_integrity_unmap_user_def bip dir' rd un a g1 virt)
    have sub: "{buf ..< buf + unat bytes} \<subseteq> {buf ..< buf + unat bytes}" by simp
    have "read_segments (copy_to_iter m buf (unat bytes) segs) segs = map m [buf ..< buf + unat bytes]"
      by (rule copy_to_iter_read [OF dis [folded segs_def] sub sum])
    with um rg rd show ?thesis by (simp add: a segs_def [symmetric] n_def)
  qed
  have wr: ?thesis if wr: "bio_data_dir b = WRITE"
  proof -
    from wr have nr: "bio_data_dir b \<noteq> READ" by simp
    from src [OF nr] have cf: "copy_from_iter_full (mem s) buf (unat bytes) segs = Some (mem s')"
      and tr: "trace s' = trace s @ ev @ bio_integrity_unpin_bvec k segs False"
      by (simp_all add: log_def ulen)
    have reg: "\<forall>bv \<in> set segs. seg_region bv \<inter> {buf ..< buf + unat bytes} = {}"
      using disjoint_segments_regions [OF dis [folded segs_def]] by blast
    note cr = copy_from_iter_read [OF reg sum, of "mem s"]
    from cf have ms: "mem s' = fst (copy_from_iter (mem s) buf (unat bytes) segs)"
      by (auto simp: copy_from_iter_full_def split: prod.splits if_splits)
    from cr have bounce: "map (mem s') [buf ..< buf + unat bytes] = read_segments (mem s) segs"
      and frame: "\<And>x. x \<notin> {buf ..< buf + unat bytes} \<Longrightarrow> mem s' x = mem s x"
      by (simp_all add: ms)
    have same: "read_segments (mem s') segs = read_segments (mem s) segs"
    proof (rule read_segments_cong, intro ballI)
      fix bv x assume "bv \<in> set segs" "x \<in> seg_region bv"
      with reg have "x \<notin> {buf ..< buf + unat bytes}" by blast
      then show "mem s' x = mem s x" by (rule frame)
    qed
    have um: "bio_integrity_unmap_user k b' (s'\<lparr>mem := m\<rparr>) = Some (log [Kfree buf] (s'\<lparr>mem := m\<rparr>))"
      using flag by (simp add: bio_integrity_unmap_user_def bip dir' wr a g0 virt)
    from bounce same tr um wr show ?thesis by (simp add: segs_def [symmetric] ev_def)
  qed
  show ?thesis
  proof (cases "bio_data_dir b")
    case READ
    show ?thesis
    proof (cases "unat (bip_max_vcnt bip) = length (user_segments k pn ubuf bytes) + 1")
      case True
      with READ show ?thesis by (rule rd)
    next
      case False
      with READ show ?thesis by simp
    qed
  next
    case WRITE
    then show ?thesis by (rule wr)
  qed
qed


lemma ex_copy_round_trip:
  "(\<exists>b' s' bip.
      bio_integrity_map_user ex_kernel ex_pin ex_allocs (ex_bio 0) 167841 200 7 ex_state
        = Some (0, b', s')
      \<and> bio_integrity b' = Some bip \<and> bip_flags bip AND BIP_COPY_USER \<noteq> 0
      \<and> bio_data_dir (ex_bio 0) = READ \<and> unat (bip_max_vcnt bip) = 3
      \<and> bio_integrity_unmap_user ex_kernel b' (s'\<lparr>mem := of_nat\<rparr>)
          = Some (log [Kfree 8192]
               (log [Set_page_dirty_lock 40, Unpin_user_page 40, Set_page_dirty_lock 50, Unpin_user_page 50]
                  (s'\<lparr>mem := copy_to_iter of_nat 8192 200 (user_segments ex_kernel ex_pin 167841 200)\<rparr>)))
      \<and> read_segments (copy_to_iter of_nat 8192 200 (user_segments ex_kernel ex_pin 167841 200))
            (user_segments ex_kernel ex_pin 167841 200)
          = map of_nat [8192 ..< 8392])
   \<and> (\<exists>b' s' bip.
      bio_integrity_map_user ex_kernel ex_pin ex_allocs (ex_bio 1) 167841 200 7 ex_state
        = Some (0, b', s')
      \<and> bio_integrity b' = Some bip \<and> bip_flags bip AND BIP_COPY_USER \<noteq> 0
      \<and> bio_data_dir (ex_bio 1) = WRITE
      \<and> map (mem s') [8192 ..< 8392]
          = read_segments (mem ex_state) (user_segments ex_kernel ex_pin 167841 200)
      \<and> read_segments (mem s') (user_segments ex_kernel ex_pin 167841 200)
          = read_segments (mem ex_state) (user_segments ex_kernel ex_pin 167841 200)
      \<and> trace s' = [Unpin_user_page 40, Unpin_user_page 50]
      \<and> bio_integrity_unmap_user ex_kernel b' (s'\<lparr>mem := of_nat\<rparr>)
          = Some (log [Kfree 8192] (s'\<lparr>mem := of_nat\<rparr>)))"
proof -
  have flag: "BIP_COPY_USER AND BIP_COPY_USER \<noteq> 0" by (simp add: BIP_COPY_USER_def)
  have len: "length (user_segments ex_kernel ex_pin 167841 200) + 1 = 3"
    by (simp add: ex_user_segments)
  have un: "coalesce_unpins ex_kernel ex_pin 167841 200 = []"
    unfolding coalesce_unpins_def ex_npages ex_segments by simp
  have pins: "bio_integrity_unpin_bvec ex_kernel (user_segments ex_kernel ex_pin 167841 200) d
      = (if d then [Set_page_dirty_lock 40, Unpin_user_page 40, Set_page_dirty_lock 50, Unpin_user_page 50]
         else [Unpin_user_page 40, Unpin_user_page 50])" for d
    unfolding ex_user_segments by (simp add: bio_integrity_unpin_bvec_def ex_kernel_def)
  from ex_copy_read_payload obtain b0 s0 bip0 where
    r: "bio_integrity_map_user ex_kernel ex_pin ex_allocs (ex_bio 0) 167841 200 7 ex_state
        = Some (0, b0, s0)" "bio_integrity b0 = Some bip0" "bip_flags bip0 = BIP_COPY_USER"
    and cap: "unat (bip_max_vcnt bip0) = 3"
    by auto
  from r(3) flag have rf: "bip_flags bip0 AND BIP_COPY_USER \<noteq> 0" by simp
  from copy_round_trip [OF r(1,2) rf ex_allocs_facts(2) ex_disjoint, of of_nat] cap len
  have c1: "bio_integrity_unmap_user ex_kernel b0 (s0\<lparr>mem := of_nat\<rparr>)
          = Some (log [Kfree 8192]
               (log [Set_page_dirty_lock 40, Unpin_user_page 40, Set_page_dirty_lock 50, Unpin_user_page 50]
                  (s0\<lparr>mem := copy_to_iter of_nat 8192 200 (user_segments ex_kernel ex_pin 167841 200)\<rparr>)))
      \<and> read_segments (copy_to_iter of_nat 8192 200 (user_segments ex_kernel ex_pin 167841 200))
            (user_segments ex_kernel ex_pin 167841 200)
          = map of_nat [8192 ..< 8392]"
    by (simp add: ex_bio_dir pins)
  from ex_copy_payload [of 1] obtain b1 s1 bip1 where
    w: "bio_integrity_map_user ex_kernel ex_pin ex_allocs (ex_bio 1) 167841 200 7 ex_state
        = Some (0, b1, s1)" "bio_integrity b1 = Some bip1" "bip_flags bip1 = BIP_COPY_USER"
    by auto
  from w(3) flag have wf: "bip_flags bip1 AND BIP_COPY_USER \<noteq> 0" by simp
  from copy_round_trip [OF w(1,2) wf ex_allocs_facts(2) ex_disjoint, of of_nat]
  have c2: "map (mem s1) [8192 ..< 8392]
          = read_segments (mem ex_state) (user_segments ex_kernel ex_pin 167841 200)
      \<and> read_segments (mem s1) (user_segments ex_kernel ex_pin 167841 200)
          = read_segments (mem ex_state) (user_segments ex_kernel ex_pin 167841 200)
      \<and> trace s1 = [Unpin_user_page 40, Unpin_user_page 50]
      \<and> bio_integrity_unmap_user ex_kernel b1 (s1\<lparr>mem := of_nat\<rparr>)
          = Some (log [Kfree 8192] (s1\<lparr>mem := of_nat\<rparr>))"
    by (simp add: ex_bio_dir pins un ex_state_def)
  from r rf cap c1 w wf c2 ex_bio_dir show ?thesis by blast
qed

subsection \<open>Unmapping a read from a pooled request\<close>












end
